(* ===== verification/Prelude.thy ===== *)
theory Prelude
  imports Main "HOL-Library.Word" "HOL-Library.Monad_Syntax"
begin

text \<open>
  The memory model and the machine-integer vocabulary that every theory of this
  development shares.

  \<^item> \<open>byte\<close>, \<open>mem\<close>: a C object (the area a \<open>struct bun_buffer\<close> refers to, a packet, a
    socket's queue) is a list of bytes; a pointer into it is a natural number, its offset.
  \<^item> \<open>load\<close> and \<open>store\<close> are \<open>memcpy\<close> out of and into such an object. An access that
    leaves the object is undefined behaviour in C; here it is \<open>None\<close>. A whole C function
    that may have undefined behaviour therefore returns an \<open>option\<close>, and a theorem that
    its result is \<open>Some\<close> says that no access left the object.
  \<^item> \<open>le_encode\<close> and \<open>le_decode\<close> are the little-endian layout of unsigned integers, the
    on-disk order of the stream and the byte order of every supported host.
  \<^item> C strings are byte lists without the terminating zero.

  The collection \<open>mem_simps\<close> carries the arithmetic of loads over stores and \<open>le_simps\<close>
  that of the integer encoding; the component theories rest on these two.
\<close>

type_synonym byte = "8 word"
type_synonym mem = "byte list"
type_synonym cstr = "byte list"
type_synonym u16 = "16 word"
type_synonym u32 = "32 word"
type_synonym u64 = "64 word"

text \<open>Pointers to objects outside the byte memory (handles, functions): 0 is \<open>NULL\<close>.\<close>

type_synonym ptr = "64 word"

abbreviation (input) NULL :: ptr where
  "NULL \<equiv> 0"

named_theorems mem_simps \<open>loads over stores and bounds of the byte memory\<close>
named_theorems le_simps \<open>little-endian encoding of unsigned integers\<close>

subsection \<open>Byte memory\<close>

definition load :: "mem \<Rightarrow> nat \<Rightarrow> nat \<Rightarrow> byte list option" where
  "load m p n = (if p + n \<le> length m then Some (take n (drop p m)) else None)"

definition store :: "mem \<Rightarrow> nat \<Rightarrow> byte list \<Rightarrow> mem option" where
  "store m p bs =
     (if p + length bs \<le> length m then Some (take p m @ bs @ drop (p + length bs) m)
      else None)"

text \<open>The contents a successful \<open>store\<close> leaves, as a total function.\<close>

definition patch :: "mem \<Rightarrow> nat \<Rightarrow> byte list \<Rightarrow> mem" where
  "patch m p bs = take p m @ bs @ drop (p + length bs) m"

text \<open>\<open>at m p bs\<close>: the bytes \<open>bs\<close> stand at offset \<open>p\<close>.\<close>

definition at_mem :: "mem \<Rightarrow> nat \<Rightarrow> byte list \<Rightarrow> bool" where
  "at_mem m p bs \<longleftrightarrow> p + length bs \<le> length m \<and> take (length bs) (drop p m) = bs"

lemma store_patch [mem_simps]:
  "p + length bs \<le> length m \<Longrightarrow> store m p bs = Some (patch m p bs)"
  by (simp add: store_def patch_def)

lemma store_None_iff: "store m p bs = None \<longleftrightarrow> length m < p + length bs"
  by (auto simp: store_def)

lemma store_SomeD: "store m p bs = Some m' \<Longrightarrow> p + length bs \<le> length m \<and> m' = patch m p bs"
  by (auto simp: store_def patch_def split: if_splits)

lemma load_SomeD: "load m p n = Some bs \<Longrightarrow> p + n \<le> length m \<and> bs = take n (drop p m)"
  by (auto simp: load_def split: if_splits)

lemma load_None_iff: "load m p n = None \<longleftrightarrow> length m < p + n"
  by (auto simp: load_def)

lemma length_load: "load m p n = Some bs \<Longrightarrow> length bs = n"
  by (auto simp: load_def split: if_splits)

lemma length_patch [simp]:
  "p + length bs \<le> length m \<Longrightarrow> length (patch m p bs) = length m"
  by (simp add: patch_def)

lemma length_store: "store m p bs = Some m' \<Longrightarrow> length m' = length m"
  by (auto dest!: store_SomeD)

lemma nth_patch:
  assumes "p + length bs \<le> length m" and "i < length m"
  shows "patch m p bs ! i = (if p \<le> i \<and> i < p + length bs then bs ! (i - p) else m ! i)"
  using assms by (auto simp: patch_def nth_append min_def)

lemma take_drop_patch_before [mem_simps]:
  assumes "q + n \<le> p" and "p + length bs \<le> length m"
  shows "take n (drop q (patch m p bs)) = take n (drop q m)"
  using assms by (intro nth_equalityI) (auto simp: nth_patch)

lemma take_drop_patch_after [mem_simps]:
  assumes "p + length bs \<le> q" and "p + length bs \<le> length m"
  shows "take n (drop q (patch m p bs)) = take n (drop q m)"
  using assms by (intro nth_equalityI) (auto simp: nth_patch)

lemma take_drop_patch_same [mem_simps]:
  assumes "p + length bs \<le> length m"
  shows "take (length bs) (drop p (patch m p bs)) = bs"
  using assms by (intro nth_equalityI) (auto simp: nth_patch)

lemma load_at_mem [mem_simps]: "at_mem m p bs \<Longrightarrow> n = length bs \<Longrightarrow> load m p n = Some bs"
  by (simp add: load_def at_mem_def)

lemma at_mem_patch_same [mem_simps]:
  "p + length bs \<le> length m \<Longrightarrow> at_mem (patch m p bs) p bs"
  by (simp add: at_mem_def mem_simps)

lemma at_mem_patch_other [mem_simps]:
  assumes "q + length cs \<le> p \<or> p + length bs \<le> q" and "p + length bs \<le> length m"
  shows "at_mem (patch m p bs) q cs = at_mem m q cs"
  using assms by (auto simp: at_mem_def mem_simps)

lemma at_mem_append:
  "at_mem m p (bs @ cs) \<longleftrightarrow> at_mem m p bs \<and> at_mem m (p + length bs) cs"
proof -
  have "take (length bs + length cs) (drop p m) =
      take (length bs) (drop p m) @ take (length cs) (drop (p + length bs) m)"
    by (simp add: take_add drop_drop add.commute)
  then show ?thesis
    by (auto simp: at_mem_def)
qed

lemma patch_patch_append:
  assumes "p + length bs + length cs \<le> length m"
  shows "patch (patch m p bs) (p + length bs) cs = patch m p (bs @ cs)"
  using assms by (intro nth_equalityI) (auto simp: nth_patch nth_append)

lemma patch_commute:
  assumes "p + length bs \<le> q \<or> q + length cs \<le> p"
    and "p + length bs \<le> length m" and "q + length cs \<le> length m"
  shows "patch (patch m p bs) q cs = patch (patch m q cs) p bs"
  using assms by (intro nth_equalityI) (auto simp: nth_patch)

lemma patch_Nil [simp]: "p \<le> length m \<Longrightarrow> patch m p [] = m"
  by (simp add: patch_def)

subsection \<open>Little-endian integers\<close>

primrec le_encode :: "nat \<Rightarrow> nat \<Rightarrow> byte list" where
  "le_encode 0 v = []"
| "le_encode (Suc n) v = of_nat v # le_encode n (v div 256)"

primrec le_decode :: "byte list \<Rightarrow> nat" where
  "le_decode [] = 0"
| "le_decode (b # bs) = unat b + 256 * le_decode bs"

lemma length_le_encode [simp]: "length (le_encode n v) = n"
  by (induction n arbitrary: v) auto

lemma le_encode_zero: "le_encode n 0 = replicate n 0"
  by (induction n) auto

lemma le_decode_zeros: "le_decode (replicate n 0) = 0"
  by (induction n) auto

lemma le_decode_encode [le_simps]: "le_decode (le_encode n v) = v mod 256 ^ n"
proof (induction n arbitrary: v)
  case 0
  then show ?case by simp
next
  case (Suc n)
  have "unat (of_nat v :: byte) = v mod 256"
    by (simp add: unat_of_nat)
  moreover have "v mod (256 * 256 ^ n) = v mod 256 + 256 * (v div 256 mod 256 ^ n)"
    by (simp add: mod_mult2_eq)
  ultimately show ?case
    using Suc.IH by simp
qed

lemma le_decode_bound: "le_decode bs < 256 ^ length bs"
proof (induction bs)
  case Nil
  then show ?case by simp
next
  case (Cons b bs)
  have "unat b < 256"
    using unsigned_less [of b, where 'a = nat] by simp
  with Cons show ?case by simp
qed

lemma le_encode_decode [le_simps]: "length bs = n \<Longrightarrow> le_encode n (le_decode bs) = bs"
proof (induction bs arbitrary: n)
  case Nil
  then show ?case by simp
next
  case (Cons b bs)
  have "unat b < 256"
    using unsigned_less [of b, where 'a = nat] by simp
  then have "(unat b + 256 * le_decode bs) div 256 = le_decode bs"
    by simp
  moreover have "(of_nat (unat b + 256 * le_decode bs) :: byte) = b"
    by (simp add: word_eq_iff_unsigned unat_of_nat flip: word_unat_eq_iff)
      (simp add: word_unat_eq_iff unat_of_nat unat_word_ariths)
  ultimately show ?case
    using Cons by auto
qed

subsection \<open>Integer fields of the byte memory\<close>

text \<open>
  \<open>le_field n to frm\<close>: an integer type that fits \<open>n\<close> bytes, with its value \<open>to\<close> and
  the conversion back \<open>frm\<close>. Whatever the width, a field that was stored is the field
  that is loaded.
\<close>

locale le_field =
  fixes n :: nat
    and to :: "'a \<Rightarrow> nat"
    and frm :: "nat \<Rightarrow> 'a"
  assumes to_bound: "to v < 256 ^ n"
    and frm_to: "frm (to v) = v"
begin

lemma decode_encode: "frm (le_decode (le_encode n (to v))) = v"
  by (simp add: le_simps to_bound frm_to)

lemma load_stored:
  assumes "at_mem m p (le_encode n (to v))"
  shows "map_option (\<lambda>bs. frm (le_decode bs)) (load m p n) = Some v"
  using assms by (simp add: mem_simps decode_encode)

end

interpretation le16: le_field 2 "unat :: u16 \<Rightarrow> nat" of_nat
proof unfold_locales
  show "unat v < 256 ^ 2" for v :: u16
    using unsigned_less [of v, where 'a = nat] by simp
qed simp

interpretation le32: le_field 4 "unat :: u32 \<Rightarrow> nat" of_nat
proof unfold_locales
  show "unat v < 256 ^ 4" for v :: u32
    using unsigned_less [of v, where 'a = nat] by simp
qed simp

interpretation le64: le_field 8 "unat :: u64 \<Rightarrow> nat" of_nat
proof unfold_locales
  show "unat v < 256 ^ 8" for v :: u64
    using unsigned_less [of v, where 'a = nat] by simp
qed simp

definition enc16 :: "u16 \<Rightarrow> byte list" where
  "enc16 v = le_encode 2 (unat v)"

definition enc32 :: "u32 \<Rightarrow> byte list" where
  "enc32 v = le_encode 4 (unat v)"

definition enc64 :: "u64 \<Rightarrow> byte list" where
  "enc64 v = le_encode 8 (unat v)"

definition load16 :: "mem \<Rightarrow> nat \<Rightarrow> u16 option" where
  "load16 m p = map_option (\<lambda>bs. of_nat (le_decode bs)) (load m p 2)"

definition load32 :: "mem \<Rightarrow> nat \<Rightarrow> u32 option" where
  "load32 m p = map_option (\<lambda>bs. of_nat (le_decode bs)) (load m p 4)"

definition load64 :: "mem \<Rightarrow> nat \<Rightarrow> u64 option" where
  "load64 m p = map_option (\<lambda>bs. of_nat (le_decode bs)) (load m p 8)"

lemma length_enc [simp]:
  "length (enc16 a) = 2" "length (enc32 b) = 4" "length (enc64 c) = 8"
  by (simp_all add: enc16_def enc32_def enc64_def)

lemma load16_at [mem_simps]: "at_mem m p (enc16 v) \<Longrightarrow> load16 m p = Some v"
  using le16.load_stored [of m p v] by (simp add: load16_def enc16_def)

lemma load32_at [mem_simps]: "at_mem m p (enc32 v) \<Longrightarrow> load32 m p = Some v"
  using le32.load_stored [of m p v] by (simp add: load32_def enc32_def)

lemma load64_at [mem_simps]: "at_mem m p (enc64 v) \<Longrightarrow> load64 m p = Some v"
  using le64.load_stored [of m p v] by (simp add: load64_def enc64_def)

lemma load16_patch [mem_simps]:
  assumes "q + 2 \<le> p \<or> p + length bs \<le> q" and "p + length bs \<le> length m"
  shows "load16 (patch m p bs) q = load16 m q"
  using assms by (auto simp: load16_def load_def mem_simps)

lemma load32_patch [mem_simps]:
  assumes "q + 4 \<le> p \<or> p + length bs \<le> q" and "p + length bs \<le> length m"
  shows "load32 (patch m p bs) q = load32 m q"
  using assms by (auto simp: load32_def load_def mem_simps)

lemma load64_patch [mem_simps]:
  assumes "q + 8 \<le> p \<or> p + length bs \<le> q" and "p + length bs \<le> length m"
  shows "load64 (patch m p bs) q = load64 m q"
  using assms by (auto simp: load64_def load_def mem_simps)

lemma load_word_None:
  "load16 m p = None \<longleftrightarrow> length m < p + 2"
  "load32 m p = None \<longleftrightarrow> length m < p + 4"
  "load64 m p = None \<longleftrightarrow> length m < p + 8"
  by (simp_all add: load16_def load32_def load64_def load_None_iff)

lemma load_word_SomeD:
  "load16 m p = Some a \<Longrightarrow> p + 2 \<le> length m"
  "load32 m p = Some b \<Longrightarrow> p + 4 \<le> length m"
  "load64 m p = Some c \<Longrightarrow> p + 8 \<le> length m"
  by (auto simp: load16_def load32_def load64_def dest: load_SomeD)

lemma load_word_exists:
  "p + 2 \<le> length m \<Longrightarrow> \<exists>a. load16 m p = Some a"
  "p + 4 \<le> length m \<Longrightarrow> \<exists>b. load32 m p = Some b"
  "p + 8 \<le> length m \<Longrightarrow> \<exists>c. load64 m p = Some c"
  by (simp_all add: load16_def load32_def load64_def load_def)

lemma load_replicate_zero:
  "p + 2 \<le> k \<Longrightarrow> load16 (replicate k 0) p = Some 0"
  "p + 4 \<le> k \<Longrightarrow> load32 (replicate k 0) p = Some 0"
  "p + 8 \<le> k \<Longrightarrow> load64 (replicate k 0) p = Some 0"
  by (simp_all add: load16_def load32_def load64_def load_def min_def le_decode_zeros)

subsection \<open>Conversions between widths\<close>

lemma unat_ucast_64_32: "unat (ucast (x :: u64) :: u32) = unat x mod 2 ^ 32"
  by (simp add: unsigned_ucast_eq unsigned_take_bit_eq take_bit_eq_mod)

lemma unat_ucast_32_64: "unat (ucast (x :: u32) :: u64) = unat x"
  using unsigned_less [of x, where 'a = nat]
  by (simp add: unsigned_ucast_eq unsigned_take_bit_eq take_bit_eq_mod)

lemma unat_ucast_64_16: "unat (ucast (x :: u64) :: u16) = unat x mod 2 ^ 16"
  by (simp add: unsigned_ucast_eq unsigned_take_bit_eq take_bit_eq_mod)

lemma unat_ucast_16_64: "unat (ucast (x :: u16) :: u64) = unat x"
  using unsigned_less [of x, where 'a = nat]
  by (simp add: unsigned_ucast_eq unsigned_take_bit_eq take_bit_eq_mod)

lemma unat_ucast_32_16: "unat (ucast (x :: u32) :: u16) = unat x mod 2 ^ 16"
  by (simp add: unsigned_ucast_eq unsigned_take_bit_eq take_bit_eq_mod)

lemma unat_ucast_16_32: "unat (ucast (x :: u16) :: u32) = unat x"
  using unsigned_less [of x, where 'a = nat]
  by (simp add: unsigned_ucast_eq unsigned_take_bit_eq take_bit_eq_mod)

lemma ucast_16_64_16: "unat x < 2 ^ 16 \<Longrightarrow> ucast (ucast (x :: u64) :: u16) = x"
  by (simp add: word_unat_eq_iff unat_ucast_16_64 unat_ucast_64_16)

text \<open>A \<open>uint32_t\<close> field to which a \<open>size_t\<close> is added.\<close>

lemma ucast_add_size: "ucast (ucast (h :: u32) + (of_nat n :: u64)) = h + of_nat n"
  by (simp add: word_unat_eq_iff unat_ucast_64_32 unat_ucast_32_64 unat_word_ariths unat_of_nat)
    (simp add: mod_mod_cancel mod_simps)

subsection \<open>C strings\<close>

text \<open>\<open>strnlen\<close>: the number of bytes before the first zero, at most the number given.\<close>

definition nonzero_prefix :: "byte list \<Rightarrow> byte list" where
  "nonzero_prefix bs = takeWhile (\<lambda>b. b \<noteq> 0) bs"

definition cstr_ok :: "cstr \<Rightarrow> bool" where
  "cstr_ok s \<longleftrightarrow> 0 \<notin> set s"

lemma nonzero_prefix_cstr: "cstr_ok s \<Longrightarrow> nonzero_prefix (s @ 0 # bs) = s"
  unfolding nonzero_prefix_def cstr_ok_def
  by (subst takeWhile_append2) auto

lemma nonzero_prefix_ok: "cstr_ok (nonzero_prefix bs)"
  by (auto simp: nonzero_prefix_def cstr_ok_def dest: set_takeWhileD)

lemma length_nonzero_prefix: "length (nonzero_prefix bs) \<le> length bs"
  by (simp add: nonzero_prefix_def length_takeWhile_le)

lemma nonzero_prefix_full_iff: "length (nonzero_prefix bs) = length bs \<longleftrightarrow> 0 \<notin> set bs"
  by (induction bs) (auto simp: nonzero_prefix_def)

subsection \<open>Decimal numbers\<close>

text \<open>The digits \<open>%d\<close> and \<open>%ju\<close> print for a number that is not negative.\<close>

fun dec_string :: "nat \<Rightarrow> string" where
  "dec_string n =
     (if n < 10 then [char_of (48 + n)] else dec_string (n div 10) @ [char_of (48 + n mod 10)])"

declare dec_string.simps [simp del]

end
