(* ===== verification/Bun_Types.thy ===== *)
theory Bun_Types
  imports Prelude
begin

text \<open>
  The data of the public headers: \<open>include/bun/bun.h\<close> (backends, architectures, the
  handle), \<open>include/bun/stream.h\<close> (frame, buffer, reader and writer) and the layout of
  \<open>struct bun_payload_header\<close> and \<open>struct bun_buffer_payload\<close>
  (\<open>src/bun_internal.h\<close>, \<open>src/bun_stream.c\<close>) on a 64-bit little-endian host.
\<close>

subsection \<open>Enumerations of bun.h\<close>

datatype bun_unwind_backend =
    BUN_BACKEND_NONE
  | BUN_BACKEND_LIBUNWIND
  | BUN_BACKEND_LIBBACKTRACE
  | BUN_BACKEND_LIBUNWINDSTACK

text \<open>The values the C enumeration gives its members; \<open>BUN_BACKEND_DEFAULT\<close> is an alias.\<close>

fun backend_value :: "bun_unwind_backend \<Rightarrow> int" where
  "backend_value BUN_BACKEND_NONE = -1"
| "backend_value BUN_BACKEND_LIBUNWIND = 0"
| "backend_value BUN_BACKEND_LIBBACKTRACE = 1"
| "backend_value BUN_BACKEND_LIBUNWINDSTACK = 2"

datatype bun_architecture =
    BUN_ARCH_UNKNOWN
  | BUN_ARCH_X86
  | BUN_ARCH_X86_64
  | BUN_ARCH_ARM
  | BUN_ARCH_ARM64

fun arch_value :: "bun_architecture \<Rightarrow> u16" where
  "arch_value BUN_ARCH_UNKNOWN = 0"
| "arch_value BUN_ARCH_X86 = 1"
| "arch_value BUN_ARCH_X86_64 = 2"
| "arch_value BUN_ARCH_ARM = 3"
| "arch_value BUN_ARCH_ARM64 = 4"

lemma backend_value_inject: "backend_value a = backend_value b \<Longrightarrow> a = b"
  by (cases a; cases b) auto

lemma arch_value_inject: "arch_value a = arch_value b \<Longrightarrow> a = b"
  by (cases a; cases b) auto

subsection \<open>The handle\<close>

text \<open>
  The function pointers of \<open>struct bun_handle\<close> name one of the backends' static
  functions, or are \<open>NULL\<close> (\<open>None\<close>).
\<close>

datatype unwind_fn = libunwind_unwind_fn | libbacktrace_unwind_fn | libunwindstack_unwind_fn

datatype unwind_context_fn = libunwindstack_unwind_context_fn

datatype unwind_remote_fn = libunwind_unwind_remote_fn | libunwindstack_unwind_remote_fn

datatype handle_destructor_fn =
    libunwind_destroy_handle_fn
  | libbacktrace_destroy_fn
  | libunwindstack_destroy_handle_fn

record bun_handle =
  unwind :: "unwind_fn option"
  unwind_context :: "unwind_context_fn option"
  unwind_remote :: "unwind_remote_fn option"
  destroy :: "handle_destructor_fn option"
  backend_context :: ptr
  flags :: u64
  handle_write_count :: "32 word"

definition BUN_HANDLE_WRITE_ONCE :: u64 where
  "BUN_HANDLE_WRITE_ONCE = 1"

text \<open>The handles that live in memory, by address.\<close>

type_synonym handle_heap = "ptr \<Rightarrow> bun_handle option"

subsection \<open>Stream structures\<close>

text \<open>
  A string member of a frame is the C string its pointer refers to, \<open>None\<close> for \<open>NULL\<close>;
  \<open>register_data\<close> is the whole array the pointer refers to.
\<close>

record bun_frame =
  addr :: u64
  symbol :: "cstr option"
  symbol_length :: u64
  filename :: "cstr option"
  filename_length :: u64
  line_no :: u64
  offset :: u64
  register_count :: u64
  register_buffer_size :: u64
  register_data :: "byte list"

text \<open>\<open>memset(&frame, 0, sizeof(frame))\<close>.\<close>

definition zero_frame :: bun_frame where
  "zero_frame = \<lparr>addr = 0, symbol = None, symbol_length = 0, filename = None,
     filename_length = 0, line_no = 0, offset = 0, register_count = 0,
     register_buffer_size = 0, register_data = []\<rparr>"

record bun_buffer =
  buf_data :: nat
  buf_size :: u64

text \<open>
  \<open>struct bun_writer\<close> and \<open>struct bun_reader\<close> each hold one
  \<open>struct bun_writer_reader_base\<close>; \<open>rw_buffer\<close> and \<open>rw_cursor\<close> point into the memory.
\<close>

record bun_writer_reader_base =
  rw_buffer :: nat
  rw_cursor :: nat
  rw_size :: u64
  rw_handle :: ptr
  rw_overflow :: bool

type_synonym bun_writer = bun_writer_reader_base
type_synonym bun_reader = bun_writer_reader_base

subsection \<open>Layout\<close>

definition BUN_HEADER_MAGIC :: u64 where
  "BUN_HEADER_MAGIC = 0xaee9eb7a786a6145"

definition BUN_BUFFER_PAYLOAD_HEADER_SIZE :: nat where
  "BUN_BUFFER_PAYLOAD_HEADER_SIZE = 40"

definition sizeof_bun_payload_header :: nat where
  "sizeof_bun_payload_header = 24"

text \<open>Offsets in \<open>struct bun_buffer_payload\<close>.\<close>

definition off_write_count :: nat where
  "off_write_count = 0"

definition off_handle :: nat where
  "off_handle = 8"

definition off_header :: nat where
  "off_header = 16"

text \<open>Offsets in \<open>struct bun_payload_header\<close>.\<close>

definition hdr_magic :: nat where
  "hdr_magic = 0"

definition hdr_version :: nat where
  "hdr_version = 8"

definition hdr_architecture :: nat where
  "hdr_architecture = 10"

definition hdr_size :: nat where
  "hdr_size = 12"

definition hdr_tid :: nat where
  "hdr_tid = 16"

definition hdr_backend :: nat where
  "hdr_backend = 20"

definition REGISTER_SIZE :: nat where
  "REGISTER_SIZE = 2 + 8"

lemmas layout_defs =
  BUN_BUFFER_PAYLOAD_HEADER_SIZE_def sizeof_bun_payload_header_def off_write_count_def
  off_handle_def off_header_def hdr_magic_def hdr_version_def hdr_architecture_def
  hdr_size_def hdr_tid_def hdr_backend_def REGISTER_SIZE_def

end
