(* ===== verification/Bun_Stream.thy ===== *)
theory Bun_Stream
  imports Bun_Types
begin

text \<open>
  \<open>src/bun_stream.c\<close>: the buffer, the writer, the reader, the frame serializer and
  parser and the header accessors, function by function. A result \<open>None\<close> is undefined
  behaviour (an access outside the memory the buffer lives in, or through a bad
  pointer); the failures the C code reports itself are values.
\<close>

unbundle bit_operations_syntax

subsection \<open>The buffer\<close>

text \<open>The first argument is the memory, the second what the \<open>struct bun_buffer\<close> held before.\<close>

definition bun_buffer_init ::
    "mem \<Rightarrow> bun_buffer \<Rightarrow> nat \<Rightarrow> u64 \<Rightarrow> (bool \<times> bun_buffer \<times> mem) option" where
  "bun_buffer_init m b d sz =
     (if sz < of_nat BUN_BUFFER_PAYLOAD_HEADER_SIZE then Some (False, b, m)
      else do {
        m' \<leftarrow> store m d (replicate BUN_BUFFER_PAYLOAD_HEADER_SIZE 0);
        Some (True, \<lparr>buf_data = d, buf_size = sz\<rparr>, m')
      })"

definition bun_buffer_payload :: "bun_buffer \<Rightarrow> nat" where
  "bun_buffer_payload b = buf_data b + off_header"

definition bun_buffer_payload_size :: "bun_buffer \<Rightarrow> u64" where
  "bun_buffer_payload_size b =
     buf_size b - (of_nat (bun_buffer_payload b) - of_nat (buf_data b))"

subsection \<open>Writer and reader initialization\<close>

text \<open>
  The write-once guard of \<open>bun_writer_init\<close>: \<open>atomic_fetch_add\<close> on the 32-bit
  \<open>write_count\<close>, whose old value is read into a signed \<open>int\<close>.
\<close>

definition write_once_enter :: "mem \<Rightarrow> nat \<Rightarrow> (bool \<times> mem) option" where
  "write_once_enter m p =
     do {
       last \<leftarrow> load32 m p;
       m' \<leftarrow> store m p (enc32 (last + 1));
       Some (\<not> 0 < sint last, m')
     }"

text \<open>The stores of \<open>bun_writer_init\<close> into the payload header at \<open>h\<close>.\<close>

definition write_header ::
    "mem \<Rightarrow> nat \<Rightarrow> bun_architecture \<Rightarrow> u32 \<Rightarrow> mem option" where
  "write_header m h arch tid =
     do {
       m1 \<leftarrow> store m (h + hdr_magic) (enc64 BUN_HEADER_MAGIC);
       m2 \<leftarrow> store m1 (h + hdr_version) (enc16 1);
       m3 \<leftarrow> store m2 (h + hdr_architecture) (enc16 (arch_value arch));
       m4 \<leftarrow> store m3 (h + hdr_size) (enc32 (of_nat sizeof_bun_payload_header));
       m5 \<leftarrow> store m4 (h + hdr_tid) (enc32 tid);
       store m5 (h + hdr_backend) (enc16 (word_of_int (backend_value BUN_BACKEND_NONE)))
     }"

text \<open>
  \<open>hs\<close> are the handles in memory and \<open>tid\<close> is what \<open>bun_gettid()\<close> returns. The result
  is the return value, the writer and the memory.
\<close>

definition bun_writer_init ::
    "handle_heap \<Rightarrow> u32 \<Rightarrow> mem \<Rightarrow> bun_writer \<Rightarrow> bun_buffer \<Rightarrow> bun_architecture \<Rightarrow> ptr
      \<Rightarrow> (bool \<times> bun_writer \<times> mem) option" where
  "bun_writer_init hs tid m w b arch handle =
     (if buf_size b < of_nat sizeof_bun_payload_header then Some (False, w, m)
      else do {
        h0 \<leftarrow> load64 m (buf_data b + off_handle);
        if h0 \<noteq> NULL \<and> handle \<noteq> NULL \<and> handle \<noteq> h0 then Some (False, w, m)
        else do {
          m1 \<leftarrow> (if h0 = NULL \<and> handle \<noteq> NULL
                 then store m (buf_data b + off_handle) (enc64 handle) else Some m);
          h1 \<leftarrow> load64 m1 (buf_data b + off_handle);
          (ok, m2) \<leftarrow>
            (if h1 \<noteq> NULL then do {
               hd \<leftarrow> hs h1;
               if flags hd AND BUN_HANDLE_WRITE_ONCE \<noteq> 0
               then write_once_enter m1 (buf_data b + off_write_count)
               else Some (True, m1)
             } else Some (True, m1));
          if \<not> ok then Some (False, w, m2)
          else do {
            m3 \<leftarrow> write_header m2 (bun_buffer_payload b) arch tid;
            Some (True,
              \<lparr>rw_buffer = bun_buffer_payload b,
               rw_cursor = bun_buffer_payload b + sizeof_bun_payload_header,
               rw_size = bun_buffer_payload_size b,
               rw_handle = handle,
               rw_overflow = False\<rparr>, m3)
          }
        }
      })"

definition bun_reader_init ::
    "mem \<Rightarrow> bun_reader \<Rightarrow> bun_buffer \<Rightarrow> ptr \<Rightarrow> (bool \<times> bun_reader) option" where
  "bun_reader_init m r b handle =
     (if bun_buffer_payload_size b < of_nat sizeof_bun_payload_header then Some (False, r)
      else do {
        magic \<leftarrow> load64 m (bun_buffer_payload b + hdr_magic);
        if magic \<noteq> BUN_HEADER_MAGIC then Some (False, r)
        else Some (True,
          \<lparr>rw_buffer = bun_buffer_payload b,
           rw_cursor = bun_buffer_payload b + sizeof_bun_payload_header,
           rw_size = bun_buffer_payload_size b,
           rw_handle = handle,
           rw_overflow = False\<rparr>)
      })"

subsection \<open>Bounds-checked access\<close>

definition is_safe_access :: "bun_writer_reader_base \<Rightarrow> u64 \<Rightarrow> bool" where
  "is_safe_access base bytes =
     (let end_cursor = of_nat (rw_buffer base) + rw_size base;
          bytes_left = end_cursor - of_nat (rw_cursor base)
      in if rw_overflow base then False else bytes \<le> bytes_left)"

definition read_le_16 :: "mem \<Rightarrow> bun_reader \<Rightarrow> (u16 \<times> bun_reader) option" where
  "read_le_16 m src =
     (if \<not> is_safe_access src 2 then Some (0, src\<lparr>rw_overflow := True\<rparr>)
      else do {
        v \<leftarrow> load16 m (rw_cursor src);
        Some (v, src\<lparr>rw_cursor := rw_cursor src + 2\<rparr>)
      })"

definition write_le_16 :: "mem \<Rightarrow> bun_writer \<Rightarrow> u16 \<Rightarrow> (bun_writer \<times> mem) option" where
  "write_le_16 m dest v =
     (if \<not> is_safe_access dest 2 then Some (dest\<lparr>rw_overflow := True\<rparr>, m)
      else do {
        m' \<leftarrow> store m (rw_cursor dest) (enc16 v);
        Some (dest\<lparr>rw_cursor := rw_cursor dest + 2\<rparr>, m')
      })"

definition read_le_64 :: "mem \<Rightarrow> bun_reader \<Rightarrow> (u64 \<times> bun_reader) option" where
  "read_le_64 m src =
     (if \<not> is_safe_access src 8 then Some (0, src\<lparr>rw_overflow := True\<rparr>)
      else do {
        v \<leftarrow> load64 m (rw_cursor src);
        Some (v, src\<lparr>rw_cursor := rw_cursor src + 8\<rparr>)
      })"

definition write_le_64 :: "mem \<Rightarrow> bun_writer \<Rightarrow> u64 \<Rightarrow> (bun_writer \<times> mem) option" where
  "write_le_64 m dest v =
     (if \<not> is_safe_access dest 8 then Some (dest\<lparr>rw_overflow := True\<rparr>, m)
      else do {
        m' \<leftarrow> store m (rw_cursor dest) (enc64 v);
        Some (dest\<lparr>rw_cursor := rw_cursor dest + 8\<rparr>, m')
      })"

text \<open>\<open>strnlen(3)\<close> at offset \<open>p\<close>: it reads up to the first zero byte, at most \<open>n\<close> bytes.\<close>

definition strnlen :: "mem \<Rightarrow> nat \<Rightarrow> nat \<Rightarrow> nat option" where
  "strnlen m p n =
     (let bs = take n (drop p m); len = length (nonzero_prefix bs)
      in if len < length bs then Some len
         else if n = 0 \<or> p + n \<le> length m then Some n
         else None)"

definition safe_strlen :: "mem \<Rightarrow> bun_reader \<Rightarrow> (int \<times> bun_reader) option" where
  "safe_strlen m src =
     (let end_cursor = of_nat (rw_buffer src) + rw_size src;
          max_length = end_cursor - of_nat (rw_cursor src) :: u64
      in if rw_overflow src then Some (-1, src)
         else do {
           len \<leftarrow> strnlen m (rw_cursor src) (unat max_length);
           if len = unat max_length then Some (-1, src\<lparr>rw_overflow := True\<rparr>)
           else Some (int len, src)
         })"

subsection \<open>Frames\<close>

text \<open>\<open>strlen\<close> of a string member where its length field is zero, else the length field.\<close>

definition effective_length :: "u64 \<Rightarrow> cstr option \<Rightarrow> u64" where
  "effective_length len s =
     (if len = 0 \<and> s \<noteq> None then of_nat (length (the s)) else len)"

text \<open>\<open>strcpy(cursor, s ? s : "")\<close>.\<close>

definition strcpy_or_empty :: "mem \<Rightarrow> nat \<Rightarrow> cstr option \<Rightarrow> mem option" where
  "strcpy_or_empty m p s = store m p ((case s of None \<Rightarrow> [] | Some t \<Rightarrow> t) @ [0])"

definition would_write :: "bun_frame \<Rightarrow> u64" where
  "would_write f =
     effective_length (symbol_length f) (symbol f) +
     effective_length (filename_length f) (filename f) + 2 + 8 + 8 + 8 +
     register_count f * of_nat REGISTER_SIZE"

definition bun_frame_write ::
    "mem \<Rightarrow> bun_writer \<Rightarrow> bun_frame \<Rightarrow> (u64 \<times> bun_writer \<times> mem) option" where
  "bun_frame_write m w f =
     (let buffer_available = rw_size w - (of_nat (rw_cursor w) - of_nat (rw_buffer w));
          sl = effective_length (symbol_length f) (symbol f);
          fl = effective_length (filename_length f) (filename f)
      in if would_write f > buffer_available then Some (0, w, m)
         else do {
           (w1, m1) \<leftarrow> write_le_64 m w (addr f);
           (w2, m2) \<leftarrow> write_le_64 m1 w1 (line_no f);
           (w3, m3) \<leftarrow> write_le_64 m2 w2 (offset f);
           m4 \<leftarrow> strcpy_or_empty m3 (rw_cursor w3) (symbol f);
           let w4 = w3\<lparr>rw_cursor := rw_cursor w3 + unat (sl + 1)\<rparr>;
           m5 \<leftarrow> strcpy_or_empty m4 (rw_cursor w4) (filename f);
           let w5 = w4\<lparr>rw_cursor := rw_cursor w4 + unat (fl + 1)\<rparr>;
           (w6, m6) \<leftarrow> write_le_16 m5 w5 (ucast (register_count f));
           (w7, m7) \<leftarrow>
             (if register_count f > 0 then do {
                let n = unat (register_count f * of_nat REGISTER_SIZE);
                regs \<leftarrow> load (register_data f) 0 n;
                m' \<leftarrow> store m6 (rw_cursor w6) regs;
                Some (w6\<lparr>rw_cursor := rw_cursor w6 + n\<rparr>, m')
              } else Some (w6, m6));
           hsize \<leftarrow> load32 m7 (rw_buffer w7 + hdr_size);
           m8 \<leftarrow> store m7 (rw_buffer w7 + hdr_size) (enc32 (ucast (ucast hsize + would_write f)));
           Some (would_write f, w7, m8)
         })"

text \<open>
  The parser. On the error path the cursor is put back where it was; the fields read so
  far and the overflow flag stay.
\<close>

definition bun_frame_read ::
    "mem \<Rightarrow> bun_reader \<Rightarrow> bun_frame \<Rightarrow> (bool \<times> bun_reader \<times> bun_frame) option" where
  "bun_frame_read m r f =
     do {
       hsize \<leftarrow> load32 m (rw_buffer r + hdr_size);
       let off = of_nat (rw_cursor r) - of_nat (rw_buffer r);
       let buffer_available = sint (ucast hsize - off :: u64);
       if rw_size r - off = 0 then Some (False, r, f)
       else if buffer_available \<le> 0 then Some (False, r, f)
       else do {
         (a, r1) \<leftarrow> read_le_64 m r;
         (l, r2) \<leftarrow> read_le_64 m r1;
         (off', r3) \<leftarrow> read_le_64 m r2;
         let f3 = f\<lparr>addr := a, line_no := l, offset := off'\<rparr>;
         if rw_overflow r3 then Some (False, r3\<lparr>rw_cursor := rw_cursor r\<rparr>, f3)
         else do {
           (sl, r4) \<leftarrow> safe_strlen m r3;
           if rw_overflow r4 then Some (False, r4\<lparr>rw_cursor := rw_cursor r\<rparr>, f3)
           else do {
             let f4 = f3\<lparr>symbol := Some (take (nat sl) (drop (rw_cursor r4) m))\<rparr>;
             let r5 = r4\<lparr>rw_cursor := rw_cursor r4 + nat sl + 1\<rparr>;
             (fl, r6) \<leftarrow> safe_strlen m r5;
             if rw_overflow r6 then Some (False, r6\<lparr>rw_cursor := rw_cursor r\<rparr>, f4)
             else do {
               let f5 = f4\<lparr>filename := Some (take (nat fl) (drop (rw_cursor r6) m))\<rparr>;
               let r7 = r6\<lparr>rw_cursor := rw_cursor r6 + nat fl + 1\<rparr>;
               (rc, r8) \<leftarrow> read_le_16 m r7;
               let f6 = f5\<lparr>register_count := ucast rc\<rparr>;
               if rw_overflow r8 then Some (False, r8\<lparr>rw_cursor := rw_cursor r\<rparr>, f6)
               else if \<not> is_safe_access r8 (register_count f6 * of_nat REGISTER_SIZE)
               then Some (False, r8\<lparr>rw_overflow := True, rw_cursor := rw_cursor r\<rparr>, f6)
               else if register_count f6 > 0 then do {
                 let n = register_count f6 * of_nat REGISTER_SIZE;
                 Some (True, r8\<lparr>rw_cursor := rw_cursor r8 + unat n\<rparr>,
                   f6\<lparr>register_data := take (unat n) (drop (rw_cursor r8) m),
                      register_buffer_size := n\<rparr>)
               } else Some (True, r8, f6)
             }
           }
         }
       }
     }"

subsection \<open>Header accessors\<close>

definition bun_header_tid_set :: "mem \<Rightarrow> bun_writer \<Rightarrow> u32 \<Rightarrow> mem option" where
  "bun_header_tid_set m w tid = store m (rw_buffer w + hdr_tid) (enc32 tid)"

definition bun_header_tid_get :: "mem \<Rightarrow> bun_reader \<Rightarrow> u32 option" where
  "bun_header_tid_get m r = load32 m (rw_buffer r + hdr_tid)"

definition bun_header_backend_set ::
    "mem \<Rightarrow> bun_writer \<Rightarrow> bun_unwind_backend \<Rightarrow> mem option" where
  "bun_header_backend_set m w backend =
     store m (rw_buffer w + hdr_backend) (enc16 (word_of_int (backend_value backend)))"

text \<open>The 16-bit field is converted back to the value of the enumeration type.\<close>

definition bun_header_backend_get :: "mem \<Rightarrow> bun_reader \<Rightarrow> int option" where
  "bun_header_backend_get m r = map_option uint (load16 m (rw_buffer r + hdr_backend))"

end
