(* ===== verification/Bun_Frame.thy ===== *)
theory Bun_Frame
  imports Bun_Stream
begin

text \<open>
  The wire format of a frame (\<open>frame_bytes\<close>) and the functional behaviour of
  \<open>bun_frame_write\<close> and \<open>bun_frame_read\<close> against it: what is written where, that no
  access leaves the buffer, and that the parser inverts the serializer. The size
  \<open>bun_frame_write\<close> accounts for (\<open>frame_size\<close>) is two bytes less than what it writes;
  the lemmas keep the two apart.
\<close>

subsection \<open>Well-formed cursors\<close>

text \<open>
  The state in which \<open>bun_writer_init\<close> and \<open>bun_reader_init\<close> leave a cursor and that
  the operations keep: the cursor stands between the payload header and the end of the
  buffer, and the buffer lies in memory.
\<close>

definition rw_ok :: "mem \<Rightarrow> bun_writer_reader_base \<Rightarrow> bool" where
  "rw_ok m w \<longleftrightarrow>
     rw_buffer w + sizeof_bun_payload_header \<le> rw_cursor w \<and>
     rw_cursor w \<le> rw_buffer w + unat (rw_size w) \<and>
     rw_buffer w + unat (rw_size w) \<le> length m \<and>
     length m < 2 ^ 63 \<and> \<not> rw_overflow w"

text \<open>The bytes between the cursor and the end of the buffer.\<close>

definition rw_left :: "bun_writer_reader_base \<Rightarrow> nat" where
  "rw_left w = rw_buffer w + unat (rw_size w) - rw_cursor w"

definition rw_advance :: "bun_writer_reader_base \<Rightarrow> nat \<Rightarrow> bun_writer_reader_base" where
  "rw_advance w n = w\<lparr>rw_cursor := rw_cursor w + n\<rparr>"

lemma rw_advance_sel [simp]:
  "rw_buffer (rw_advance w n) = rw_buffer w"
  "rw_cursor (rw_advance w n) = rw_cursor w + n"
  "rw_size (rw_advance w n) = rw_size w"
  "rw_handle (rw_advance w n) = rw_handle w"
  "rw_overflow (rw_advance w n) = rw_overflow w"
  by (simp_all add: rw_advance_def)

lemma rw_advance_add [simp]: "rw_advance (rw_advance w a) b = rw_advance w (a + b)"
  by (simp add: rw_advance_def add.assoc)

lemma rw_advance_0 [simp]: "rw_advance w 0 = w"
  by (simp add: rw_advance_def)

lemma rw_left_advance [simp]: "rw_left (rw_advance w n) = rw_left w - n"
  by (simp add: rw_left_def)

lemma rw_ok_advance: "rw_ok m w \<Longrightarrow> n \<le> rw_left w \<Longrightarrow> rw_ok m (rw_advance w n)"
  by (auto simp: rw_ok_def rw_left_def)

lemma rw_ok_cong: "length m' = length m \<Longrightarrow> rw_ok m' w = rw_ok m w"
  by (simp add: rw_ok_def)

lemma rw_ok_patch: "rw_ok m w \<Longrightarrow> p + length bs \<le> length m \<Longrightarrow> rw_ok (patch m p bs) w"
  by (simp add: rw_ok_def)

text \<open>The pointer arithmetic of the C code in terms of \<open>rw_left\<close>.\<close>

lemma bytes_left_word:
  assumes "rw_ok m w"
  shows "of_nat (rw_buffer w) + rw_size w - of_nat (rw_cursor w) = (of_nat (rw_left w) :: u64)"
proof -
  have "of_nat (rw_left w) + of_nat (rw_cursor w) =
      (of_nat (rw_buffer w + unat (rw_size w)) :: u64)"
    using assms by (simp add: rw_ok_def rw_left_def flip: of_nat_add)
  then show ?thesis
    by (simp add: algebra_simps)
qed

lemma available_word:
  assumes "rw_ok m w"
  shows "rw_size w - (of_nat (rw_cursor w) - of_nat (rw_buffer w)) = (of_nat (rw_left w) :: u64)"
  using bytes_left_word [OF assms] by (simp add: algebra_simps)

lemma rw_left_bound: "rw_ok m w \<Longrightarrow> rw_left w < 2 ^ 63"
  by (auto simp: rw_ok_def rw_left_def)

lemma unat_rw_left: "rw_ok m w \<Longrightarrow> unat (of_nat (rw_left w) :: u64) = rw_left w"
  using rw_left_bound [of m w] by (simp add: unat_of_nat)

lemma is_safe_access_ok:
  "rw_ok m w \<Longrightarrow> is_safe_access w b \<longleftrightarrow> unat b \<le> rw_left w"
  by (simp add: is_safe_access_def Let_def bytes_left_word unat_rw_left word_le_nat_alt)
    (simp add: rw_ok_def)

lemma is_safe_access_overflow [simp]: "rw_overflow w \<Longrightarrow> \<not> is_safe_access w b"
  by (simp add: is_safe_access_def Let_def)

subsection \<open>Writing bytes at the cursor\<close>

lemma cursor_in_mem: "rw_ok m w \<Longrightarrow> n \<le> rw_left w \<Longrightarrow> rw_cursor w + n \<le> length m"
  by (auto simp: rw_ok_def rw_left_def)

lemma write_le_64_ok:
  assumes "rw_ok m w" and "8 \<le> rw_left w"
  shows "write_le_64 m w v = Some (rw_advance w 8, patch m (rw_cursor w) (enc64 v))"
  using assms cursor_in_mem [OF assms]
  by (simp add: write_le_64_def is_safe_access_ok mem_simps rw_advance_def)

lemma write_le_16_ok:
  assumes "rw_ok m w" and "2 \<le> rw_left w"
  shows "write_le_16 m w v = Some (rw_advance w 2, patch m (rw_cursor w) (enc16 v))"
  using assms cursor_in_mem [OF assms]
  by (simp add: write_le_16_def is_safe_access_ok mem_simps rw_advance_def)

lemma write_le_16_full:
  assumes "rw_ok m w" and "rw_left w < 2"
  shows "write_le_16 m w v = Some (w\<lparr>rw_overflow := True\<rparr>, m)"
  using assms by (simp add: write_le_16_def is_safe_access_ok)

subsection \<open>The wire format\<close>

definition sym_bytes :: "bun_frame \<Rightarrow> cstr" where
  "sym_bytes f = (case symbol f of None \<Rightarrow> [] | Some s \<Rightarrow> s)"

definition file_bytes :: "bun_frame \<Rightarrow> cstr" where
  "file_bytes f = (case filename f of None \<Rightarrow> [] | Some s \<Rightarrow> s)"

definition reg_bytes :: "bun_frame \<Rightarrow> byte list" where
  "reg_bytes f = take (unat (register_count f) * REGISTER_SIZE) (register_data f)"

definition fixed_bytes :: "bun_frame \<Rightarrow> byte list" where
  "fixed_bytes f = enc64 (addr f) @ enc64 (line_no f) @ enc64 (offset f)"

definition string_bytes :: "bun_frame \<Rightarrow> byte list" where
  "string_bytes f = sym_bytes f @ [0] @ file_bytes f @ [0]"

definition frame_bytes :: "bun_frame \<Rightarrow> byte list" where
  "frame_bytes f =
     fixed_bytes f @ string_bytes f @ enc16 (ucast (register_count f)) @ reg_bytes f"

text \<open>What \<open>bun_frame_write\<close> counts for the frame.\<close>

definition frame_size :: "bun_frame \<Rightarrow> nat" where
  "frame_size f =
     length (sym_bytes f) + length (file_bytes f) + 26 + unat (register_count f) * REGISTER_SIZE"

text \<open>
  Frames a caller may pass: C strings whose length fields are either zero or right, a
  register count that fits its two-byte field, and an array that holds the registers.
\<close>

definition string_ok :: "u64 \<Rightarrow> cstr option \<Rightarrow> bool" where
  "string_ok len s \<longleftrightarrow>
     (case s of
        None \<Rightarrow> len = 0
      | Some t \<Rightarrow> cstr_ok t \<and> length t < 2 ^ 32 \<and> (len = 0 \<or> unat len = length t))"

definition frame_ok :: "bun_frame \<Rightarrow> bool" where
  "frame_ok f \<longleftrightarrow>
     string_ok (symbol_length f) (symbol f) \<and>
     string_ok (filename_length f) (filename f) \<and>
     unat (register_count f) < 2 ^ 16 \<and>
     unat (register_count f) * REGISTER_SIZE \<le> length (register_data f)"

lemma effective_length_ok:
  assumes "string_ok len s"
  shows "effective_length len s = of_nat (length (case s of None \<Rightarrow> [] | Some t \<Rightarrow> t))"
    and "length (case s of None \<Rightarrow> [] | Some t \<Rightarrow> t) < 2 ^ 32"
proof -
  have "len = of_nat (length t)" if "unat len = length t" for t :: cstr
    by (simp flip: that)
  then show "effective_length len s = of_nat (length (case s of None \<Rightarrow> [] | Some t \<Rightarrow> t))"
    using assms by (auto simp: string_ok_def effective_length_def split: option.splits)
  show "length (case s of None \<Rightarrow> [] | Some t \<Rightarrow> t) < 2 ^ 32"
    using assms by (auto simp: string_ok_def split: option.splits)
qed

lemma frame_ok_lengths:
  assumes "frame_ok f"
  shows "effective_length (symbol_length f) (symbol f) = of_nat (length (sym_bytes f))"
    and "effective_length (filename_length f) (filename f) = of_nat (length (file_bytes f))"
    and "length (sym_bytes f) < 2 ^ 32"
    and "length (file_bytes f) < 2 ^ 32"
    and "length (reg_bytes f) = unat (register_count f) * 10"
    and "unat (register_count f) < 2 ^ 16"
  using assms effective_length_ok [of "symbol_length f" "symbol f"]
    effective_length_ok [of "filename_length f" "filename f"]
  by (simp_all add: frame_ok_def sym_bytes_def file_bytes_def reg_bytes_def REGISTER_SIZE_def)

lemma reg_count_word:
  assumes "unat (rc :: u64) < 2 ^ 16"
  shows "unat (rc * of_nat REGISTER_SIZE) = unat rc * 10"
  using assms by (simp add: REGISTER_SIZE_def unat_word_ariths)

lemma length_frame_parts:
  "length (fixed_bytes f) = 24"
  "length (string_bytes f) = length (sym_bytes f) + length (file_bytes f) + 2"
  by (simp_all add: fixed_bytes_def string_bytes_def)

lemma length_frame_bytes: "frame_ok f \<Longrightarrow> length (frame_bytes f) = frame_size f + 2"
  by (simp add: frame_bytes_def frame_size_def length_frame_parts frame_ok_lengths
      REGISTER_SIZE_def)

lemma frame_size_bound: "frame_ok f \<Longrightarrow> frame_size f < 2 ^ 34"
  using frame_ok_lengths [of f] by (simp add: frame_size_def REGISTER_SIZE_def)

lemma would_write_ok:
  assumes "frame_ok f"
  shows "would_write f = of_nat (frame_size f)" and "unat (would_write f) = frame_size f"
proof -
  have "register_count f * of_nat REGISTER_SIZE
      = of_nat (unat (register_count f) * REGISTER_SIZE)"
    by simp
  then show eq: "would_write f = of_nat (frame_size f)"
    by (simp add: would_write_def frame_size_def frame_ok_lengths [OF assms])
  show "unat (would_write f) = frame_size f"
    using frame_size_bound [OF assms] by (simp add: eq unat_of_nat)
qed

text \<open>The guard of \<open>bun_frame_write\<close>.\<close>

lemma would_write_exceeds:
  assumes "rw_ok m w" and "frame_ok f"
  shows "would_write f > rw_size w - (of_nat (rw_cursor w) - of_nat (rw_buffer w))
    \<longleftrightarrow> rw_left w < frame_size f"
  by (simp only: available_word [OF assms(1)] word_less_nat_alt unat_rw_left [OF assms(1)]
      would_write_ok(2) [OF assms(2)])

subsection \<open>Serializing a frame\<close>

text \<open>The first part of \<open>bun_frame_write\<close>: the three integers and the two strings.\<close>

definition write_prefix ::
    "mem \<Rightarrow> bun_writer \<Rightarrow> bun_frame \<Rightarrow> (bun_writer \<times> mem) option" where
  "write_prefix m w f =
     do {
       (w1, m1) \<leftarrow> write_le_64 m w (addr f);
       (w2, m2) \<leftarrow> write_le_64 m1 w1 (line_no f);
       (w3, m3) \<leftarrow> write_le_64 m2 w2 (offset f);
       m4 \<leftarrow> strcpy_or_empty m3 (rw_cursor w3) (symbol f);
       let w4 = rw_advance w3 (unat (effective_length (symbol_length f) (symbol f) + 1));
       m5 \<leftarrow> strcpy_or_empty m4 (rw_cursor w4) (filename f);
       Some (rw_advance w4 (unat (effective_length (filename_length f) (filename f) + 1)), m5)
     }"

definition write_registers ::
    "mem \<Rightarrow> bun_writer \<Rightarrow> bun_frame \<Rightarrow> (bun_writer \<times> mem) option" where
  "write_registers m w f =
     (if register_count f > 0 then do {
        let n = unat (register_count f * of_nat REGISTER_SIZE);
        regs \<leftarrow> load (register_data f) 0 n;
        m' \<leftarrow> store m (rw_cursor w) regs;
        Some (rw_advance w n, m')
      } else Some (w, m))"

definition account :: "mem \<Rightarrow> bun_writer \<Rightarrow> u64 \<Rightarrow> mem option" where
  "account m w n =
     do {
       hsize \<leftarrow> load32 m (rw_buffer w + hdr_size);
       store m (rw_buffer w + hdr_size) (enc32 (ucast (ucast hsize + n)))
     }"

lemma bun_frame_write_parts:
  "bun_frame_write m w f =
     (if would_write f > rw_size w - (of_nat (rw_cursor w) - of_nat (rw_buffer w))
      then Some (0, w, m)
      else do {
        (w5, m5) \<leftarrow> write_prefix m w f;
        (w6, m6) \<leftarrow> write_le_16 m5 w5 (ucast (register_count f));
        (w7, m7) \<leftarrow> write_registers m6 w6 f;
        m8 \<leftarrow> account m7 w7 (would_write f);
        Some (would_write f, w7, m8)
      })"
  by (simp add: bun_frame_write_def write_prefix_def write_registers_def account_def
      rw_advance_def Let_def case_prod_beta' Option.bind_assoc cong: if_cong)

lemma strcpy_patch:
  assumes "p + length (case s of None \<Rightarrow> [] | Some t \<Rightarrow> t) + 1 \<le> length m"
  shows "strcpy_or_empty m p s = Some (patch m p ((case s of None \<Rightarrow> [] | Some t \<Rightarrow> t) @ [0]))"
  using assms by (simp add: strcpy_or_empty_def store_patch)

lemma unat_length_plus_1: "n < 2 ^ 32 \<Longrightarrow> unat (of_nat n + 1 :: u64) = n + 1"
proof -
  assume "n < 2 ^ 32"
  then have "unat (of_nat (n + 1) :: u64) = n + 1"
    by (subst unat_of_nat) simp
  then show ?thesis by (simp add: add.commute)
qed

lemma write_fixed:
  assumes "rw_ok m w" and "24 \<le> rw_left w"
  shows "do {
       (w1, m1) \<leftarrow> write_le_64 m w (addr f);
       (w2, m2) \<leftarrow> write_le_64 m1 w1 (line_no f);
       write_le_64 m2 w2 (offset f)
     } = Some (rw_advance w 24, patch m (rw_cursor w) (fixed_bytes f))"
proof -
  let ?m1 = "patch m (rw_cursor w) (enc64 (addr f))"
  let ?m2 = "patch m (rw_cursor w) (enc64 (addr f) @ enc64 (line_no f))"
  have c: "rw_cursor w + 24 \<le> length m"
    using assms by (rule cursor_in_mem)
  have ok1: "rw_ok ?m1 (rw_advance w 8)" and ok2: "rw_ok ?m2 (rw_advance w 16)"
    using assms c by (simp_all add: rw_ok_patch rw_ok_advance)
  have s1: "write_le_64 m w (addr f) = Some (rw_advance w 8, ?m1)"
    using assms by (simp add: write_le_64_ok)
  have s2: "write_le_64 ?m1 (rw_advance w 8) (line_no f) = Some (rw_advance w 16, ?m2)"
    using ok1 assms c patch_patch_append [of "rw_cursor w" "enc64 (addr f)" "enc64 (line_no f)" m]
    by (simp add: write_le_64_ok)
  have s3: "write_le_64 ?m2 (rw_advance w 16) (offset f)
      = Some (rw_advance w 24, patch m (rw_cursor w) (fixed_bytes f))"
    using ok2 assms c patch_patch_append [of "rw_cursor w" "enc64 (addr f) @ enc64 (line_no f)"
        "enc64 (offset f)" m]
    by (simp add: write_le_64_ok fixed_bytes_def)
  show ?thesis
    by (simp add: s1 s2 s3)
qed

lemma write_prefix_ok:
  assumes ok: "rw_ok m w" and f: "frame_ok f"
    and left: "24 + length (string_bytes f) \<le> rw_left w"
  shows "write_prefix m w f =
    Some (rw_advance w (24 + length (string_bytes f)),
          patch m (rw_cursor w) (fixed_bytes f @ string_bytes f))"
proof -
  let ?c = "rw_cursor w" and ?s = "sym_bytes f" and ?t = "file_bytes f"
  let ?m3 = "patch m ?c (fixed_bytes f)"
  let ?m4 = "patch m ?c (fixed_bytes f @ ?s @ [0])"
  note len = frame_ok_lengths [OF f] and parts = length_frame_parts [of f]
  have c: "?c + (26 + length ?s + length ?t) \<le> length m"
    using cursor_in_mem [OF ok left] parts by simp
  have fixed: "do {
       (w1, m1) \<leftarrow> write_le_64 m w (addr f);
       (w2, m2) \<leftarrow> write_le_64 m1 w1 (line_no f);
       write_le_64 m2 w2 (offset f)
     } = Some (rw_advance w 24, ?m3)"
    using ok left by (intro write_fixed) auto
  have s4: "strcpy_or_empty ?m3 (?c + 24) (symbol f) = Some ?m4"
    using c parts patch_patch_append [of ?c "fixed_bytes f" "?s @ [0]" m]
    by (simp add: strcpy_patch sym_bytes_def)
  have s5: "strcpy_or_empty ?m4 (?c + (25 + length ?s)) (filename f) =
      Some (patch m ?c (fixed_bytes f @ string_bytes f))"
    using c parts patch_patch_append [of ?c "fixed_bytes f @ ?s @ [0]" "?t @ [0]" m]
    by (simp add: strcpy_patch file_bytes_def string_bytes_def add.assoc)
  have "write_prefix m w f =
    do {
      (w3, m3) \<leftarrow> do {
        (w1, m1) \<leftarrow> write_le_64 m w (addr f);
        (w2, m2) \<leftarrow> write_le_64 m1 w1 (line_no f);
        write_le_64 m2 w2 (offset f)
      };
      m4 \<leftarrow> strcpy_or_empty m3 (rw_cursor w3) (symbol f);
      let w4 = rw_advance w3 (length ?s + 1);
      m5 \<leftarrow> strcpy_or_empty m4 (rw_cursor w4) (filename f);
      Some (rw_advance w4 (length ?t + 1), m5)
    }"
    using len by (simp add: write_prefix_def unat_length_plus_1 case_prod_beta' Option.bind_assoc)
  also have "\<dots> = Some (rw_advance w (24 + length (string_bytes f)),
      patch m ?c (fixed_bytes f @ string_bytes f))"
    unfolding fixed using s4 s5 parts by (simp add: ac_simps Let_def)
  finally show ?thesis .
qed

lemma write_registers_ok:
  assumes ok: "rw_ok m w" and f: "frame_ok f" and room: "rw_cursor w + length (reg_bytes f) \<le> length m"
  shows "write_registers m w f =
    Some (rw_advance w (length (reg_bytes f)), patch m (rw_cursor w) (reg_bytes f))"
proof (cases "register_count f = 0")
  case True
  then have "reg_bytes f = []"
    by (simp add: reg_bytes_def)
  with True room show ?thesis
    by (simp add: write_registers_def)
next
  case False
  have "load (register_data f) 0 (unat (register_count f) * 10) = Some (reg_bytes f)"
    using f by (simp add: load_def frame_ok_def reg_bytes_def REGISTER_SIZE_def)
  with False room show ?thesis
    using frame_ok_lengths [OF f] reg_count_word [of "register_count f"]
    by (simp add: write_registers_def word_neq_0_conv store_patch Let_def)
qed

text \<open>The \<open>size\<close> field of the payload header.\<close>

definition header_size :: "mem \<Rightarrow> bun_writer_reader_base \<Rightarrow> u32 option" where
  "header_size m w = load32 m (rw_buffer w + hdr_size)"

definition set_header_size :: "mem \<Rightarrow> bun_writer_reader_base \<Rightarrow> u32 \<Rightarrow> mem" where
  "set_header_size m w v = patch m (rw_buffer w + hdr_size) (enc32 v)"

lemma account_ok:
  assumes "header_size m w = Some h" and "rw_buffer w + 16 \<le> length m"
  shows "account m w (of_nat n) = Some (set_header_size m w (h + of_nat n))"
  using assms
  by (simp add: account_def header_size_def set_header_size_def hdr_size_def store_patch
      ucast_add_size)

text \<open>The memory a successful \<open>bun_frame_write\<close> leaves, \<open>h\<close> being the header's size before.\<close>

definition frame_written ::
    "mem \<Rightarrow> bun_writer \<Rightarrow> bun_frame \<Rightarrow> u32 \<Rightarrow> mem" where
  "frame_written m w f h =
     set_header_size (patch m (rw_cursor w) (frame_bytes f)) w (h + of_nat (frame_size f))"

lemma header_before_cursor: "rw_ok m w \<Longrightarrow> rw_buffer w + 24 \<le> rw_cursor w"
  by (simp add: rw_ok_def sizeof_bun_payload_header_def)

lemma header_size_patch:
  assumes "rw_ok m w" and "rw_cursor w + length bs \<le> length m"
  shows "header_size (patch m (rw_cursor w) bs) w = header_size m w"
  using assms header_before_cursor [OF assms(1)]
  by (simp add: header_size_def hdr_size_def load32_patch)

lemma header_size_set [simp]:
  "rw_buffer w + 16 \<le> length m \<Longrightarrow> header_size (set_header_size m w v) w = Some v"
  by (simp add: header_size_def set_header_size_def hdr_size_def load32_at at_mem_patch_same)

lemma length_set_header_size [simp]:
  "rw_buffer w + 16 \<le> length m \<Longrightarrow> length (set_header_size m w v) = length m"
  by (simp add: set_header_size_def hdr_size_def)

text \<open>
  The general form: the frame fits the size it is accounted for, and its two extra bytes
  fit the memory (with registers) or the buffer (without).
\<close>

lemma bun_frame_write_gen:
  assumes ok: "rw_ok m w" and f: "frame_ok f" and h: "header_size m w = Some h"
    and fits: "frame_size f \<le> rw_left w"
    and count: "register_count f = 0 \<longrightarrow> frame_size f + 2 \<le> rw_left w"
    and room: "rw_cursor w + frame_size f + 2 \<le> length m"
  shows "bun_frame_write m w f =
    Some (of_nat (frame_size f), rw_advance w (frame_size f + 2), frame_written m w f h)"
proof -
  let ?c = "rw_cursor w" and ?S = "string_bytes f" and ?rc = "ucast (register_count f) :: u16"
  let ?m5 = "patch m ?c (fixed_bytes f @ ?S)"
  let ?w5 = "rw_advance w (24 + length ?S)"
  let ?m6 = "patch m ?c (fixed_bytes f @ ?S @ enc16 ?rc)"
  let ?m7 = "patch m ?c (frame_bytes f)"
  note len = frame_ok_lengths [OF f] and parts = length_frame_parts [of f]
  have size: "frame_size f = 24 + length ?S + length (reg_bytes f)"
    using len parts by (simp add: frame_size_def REGISTER_SIZE_def)
  have count2: "24 + length ?S + 2 \<le> rw_left w"
  proof (cases "register_count f = 0")
    case True
    with count size show ?thesis by simp
  next
    case False
    then have "0 < unat (register_count f)"
      by (simp add: unat_gt_0)
    with len(5) have "10 \<le> length (reg_bytes f)"
      by simp
    with fits size show ?thesis by simp
  qed
  have ok5: "rw_ok ?m5 ?w5"
    using ok count2 room size parts by (intro rw_ok_advance rw_ok_patch) auto
  have s5: "write_prefix m w f = Some (?w5, ?m5)"
    using ok f count2 by (simp add: write_prefix_ok)
  have s6: "write_le_16 ?m5 ?w5 ?rc = Some (rw_advance w (26 + length ?S), ?m6)"
    using ok5 count2 room size parts
      patch_patch_append [of ?c "fixed_bytes f @ ?S" "enc16 ?rc" m]
    by (simp add: write_le_16_ok ac_simps)
  have ok6: "rw_ok ?m6 (rw_advance w (26 + length ?S))"
    using ok count2 room size parts by (intro rw_ok_advance rw_ok_patch) auto
  have s7: "write_registers ?m6 (rw_advance w (26 + length ?S)) f =
      Some (rw_advance w (frame_size f + 2), ?m7)"
    using ok6 f room size parts
      patch_patch_append [of ?c "fixed_bytes f @ ?S @ enc16 ?rc" "reg_bytes f" m]
    by (simp add: write_registers_ok frame_bytes_def ac_simps)
  have h7: "header_size ?m7 (rw_advance w (frame_size f + 2)) = Some h"
    using ok h room f header_size_patch [of m w "frame_bytes f"]
    by (simp add: length_frame_bytes header_size_def)
  have "rw_buffer w + 16 \<le> length ?m7"
    using header_before_cursor [OF ok] room f by (simp add: length_frame_bytes)
  with h7 have s8: "account ?m7 (rw_advance w (frame_size f + 2))
      (of_nat (frame_size f)) = Some (frame_written m w f h)"
    by (simp add: account_ok frame_written_def set_header_size_def)
  have "\<not> would_write f > rw_size w - (of_nat (rw_cursor w) - of_nat (rw_buffer w))"
    using fits by (simp add: would_write_exceeds [OF ok f] del: not_less)
  then show ?thesis
    by (simp add: bun_frame_write_parts s5 s6 s7 s8 would_write_ok(1) [OF f] del: add_2_eq_Suc')
qed

lemma bun_frame_write_ok:
  assumes "rw_ok m w" and "frame_ok f" and "header_size m w = Some h"
    and "frame_size f + 2 \<le> rw_left w"
  shows "bun_frame_write m w f =
    Some (of_nat (frame_size f), rw_advance w (frame_size f + 2), frame_written m w f h)"
  using assms cursor_in_mem [OF assms(1,4)] by (intro bun_frame_write_gen) auto

lemma bun_frame_write_full:
  assumes "rw_ok m w" and "frame_ok f" and "rw_left w < frame_size f"
  shows "bun_frame_write m w f = Some (0, w, m)"
  using assms by (simp add: bun_frame_write_parts would_write_exceeds)

lemma rw_ok_frame_written:
  assumes "rw_ok m w" and "frame_ok f" and "frame_size f + 2 \<le> rw_left w"
  shows "rw_ok (frame_written m w f h) (rw_advance w (frame_size f + 2))"
proof -
  have "rw_cursor w + (frame_size f + 2) \<le> length m"
    using assms by (intro cursor_in_mem)
  then show ?thesis
    using assms header_before_cursor [OF assms(1)]
    by (simp add: rw_ok_advance frame_written_def length_frame_bytes
        rw_ok_cong [of "set_header_size _ _ _" m])
qed

subsection \<open>Properties\<close>

text \<open>The part of the memory a frame write must leave alone.\<close>

definition outside_write :: "bun_writer \<Rightarrow> nat \<Rightarrow> nat \<Rightarrow> nat \<Rightarrow> bool" where
  "outside_write w len q n \<longleftrightarrow>
     (q + n \<le> rw_buffer w + hdr_size \<or> rw_buffer w + hdr_size + 4 \<le> q) \<and>
     (q + n \<le> rw_cursor w \<or> rw_cursor w + len \<le> q)"

lemma frame_written_outside:
  assumes "rw_ok m w" and "frame_ok f" and "rw_cursor w + frame_size f + 2 \<le> length m"
    and "outside_write w (frame_size f + 2) q n"
  shows "take n (drop q (frame_written m w f h)) = take n (drop q m)"
proof -
  let ?m1 = "patch m (rw_cursor w) (frame_bytes f)"
  have "take n (drop q (set_header_size ?m1 w v)) = take n (drop q ?m1)" for v
    using assms header_before_cursor [OF assms(1)]
    by (auto simp: set_header_size_def outside_write_def length_frame_bytes hdr_size_def
        intro: take_drop_patch_before take_drop_patch_after)
  moreover have "take n (drop q ?m1) = take n (drop q m)"
    using assms(2-4)
    by (auto simp: outside_write_def length_frame_bytes
        intro: take_drop_patch_before take_drop_patch_after)
  ultimately show ?thesis by (simp add: frame_written_def)
qed

lemma frame_written_at:
  assumes "rw_ok m w" and "frame_ok f" and "rw_cursor w + frame_size f + 2 \<le> length m"
  shows "at_mem (frame_written m w f h) (rw_cursor w) (frame_bytes f)"
    and "header_size (frame_written m w f h) w = Some (h + of_nat (frame_size f))"
    and "length (frame_written m w f h) = length m"
  using assms header_before_cursor [OF assms(1)]
  by (simp_all add: frame_written_def set_header_size_def hdr_size_def length_frame_bytes
      at_mem_patch_other at_mem_patch_same header_size_def load32_at)

text \<open>
  C4: when a well-formed frame fits, \<open>bun_frame_write\<close> puts exactly its wire format at the
  cursor, moves the cursor past it, adds the returned size to the header's size field and
  changes no other byte; the writer stays well-formed.
\<close>

theorem bun_frame_write_spec:
  assumes "rw_ok m w" and "frame_ok f" and "header_size m w = Some h"
    and "frame_size f + 2 \<le> rw_left w"
  shows "\<exists>m'. bun_frame_write m w f =
      Some (of_nat (frame_size f), rw_advance w (frame_size f + 2), m') \<and>
    at_mem m' (rw_cursor w) (frame_bytes f) \<and>
    header_size m' w = Some (h + of_nat (frame_size f)) \<and>
    (\<forall>q n. outside_write w (frame_size f + 2) q n \<longrightarrow> take n (drop q m') = take n (drop q m)) \<and>
    rw_ok m' (rw_advance w (frame_size f + 2))"
proof -
  have room: "rw_cursor w + frame_size f + 2 \<le> length m"
    using cursor_in_mem [OF assms(1,4)] by simp
  then show ?thesis
    using bun_frame_write_ok [OF assms] frame_written_at [OF assms(1,2) room]
      frame_written_outside [OF assms(1,2) room] rw_ok_frame_written [OF assms(1,2,4)]
    by (intro exI [of _ "frame_written m w f h"]) blast
qed

text \<open>
  When there is not even room for the size counted, \<open>bun_frame_write\<close> returns 0 and
  changes neither the writer nor the memory.
\<close>

theorem bun_frame_write_no_room:
  assumes "rw_ok m w" and "frame_ok f" and "rw_left w < frame_size f"
  shows "bun_frame_write m w f = Some (0, w, m)"
  using assms by (rule bun_frame_write_full)

text \<open>
  C27: the two bytes of the register count are not counted. A frame with at least one register
  for which the counted size fits but not the two bytes is written past the end of the buffer;
  the cursor then stands behind the end and the next bounds check lets any access through.
  (Without a register the last write is refused by its own check.)
\<close>

theorem bun_frame_write_overruns:
  assumes "rw_ok m w" and "frame_ok f" and "header_size m w = Some h"
    and "register_count f \<noteq> 0"
    and "frame_size f \<le> rw_left w" and "rw_left w < frame_size f + 2"
    and "rw_cursor w + frame_size f + 2 \<le> length m"
  shows "\<exists>m'. bun_frame_write m w f =
      Some (of_nat (frame_size f), rw_advance w (frame_size f + 2), m') \<and>
    at_mem m' (rw_cursor w) (frame_bytes f) \<and>
    rw_buffer w + unat (rw_size w) < rw_cursor (rw_advance w (frame_size f + 2)) \<and>
    (\<forall>b. unat b < 2 ^ 63 \<longrightarrow> is_safe_access (rw_advance w (frame_size f + 2)) b)"
proof -
  let ?w' = "rw_advance w (frame_size f + 2)"
  let ?e = "rw_buffer w + unat (rw_size w)"
  have run: "bun_frame_write m w f =
      Some (of_nat (frame_size f), ?w', frame_written m w f h)"
    using assms by (intro bun_frame_write_gen) auto
  obtain k where k: "rw_cursor ?w' = ?e + k" "0 < k" "k \<le> 2"
  proof
    show "rw_cursor ?w' = ?e + (rw_cursor w + frame_size f + 2 - ?e)"
      using assms(1,6) by (simp add: rw_ok_def rw_left_def)
    show "0 < rw_cursor w + frame_size f + 2 - ?e" "rw_cursor w + frame_size f + 2 - ?e \<le> 2"
      using assms(1,5,6) unfolding rw_ok_def rw_left_def by linarith+
  qed
  have "is_safe_access ?w' b" if b: "unat b < 2 ^ 63" for b
  proof -
    have "of_nat (rw_buffer w) + rw_size w - of_nat (rw_cursor ?w') = - (of_nat k :: u64)"
      unfolding k(1) by simp
    moreover have "k = 1 \<or> k = 2"
      using k(2,3) by linarith
    then have "unat (- (of_nat k :: u64)) = 2 ^ 64 - k"
      by (elim disjE) (simp_all add: unsigned_minus_1_eq_mask mask_eq_exp_minus_1)
    moreover have "\<not> rw_overflow w"
      using assms(1) by (simp add: rw_ok_def)
    ultimately show ?thesis
      using b k(3) by (simp add: is_safe_access_def Let_def word_le_nat_alt)
  qed
  with run k frame_written_at(1) [OF assms(1,2,7)] show ?thesis
    by (intro exI [of _ "frame_written m w f h"]) simp
qed

definition sample_frame :: bun_frame where
  "sample_frame = zero_frame\<lparr>addr := 0x1234, symbol := Some [0x66, 0x6e], line_no := 7,
     register_count := 1, register_buffer_size := 10, register_data := replicate 10 9\<rparr>"

definition sample_rw :: "nat \<Rightarrow> bun_writer_reader_base" where
  "sample_rw n = \<lparr>rw_buffer = 0, rw_cursor = 24, rw_size = of_nat n, rw_handle = NULL,
     rw_overflow = False\<rparr>"

lemma sample_frame_ok: "frame_ok sample_frame" "frame_ok zero_frame"
  by (simp_all add: frame_ok_def string_ok_def sample_frame_def zero_frame_def cstr_ok_def
      REGISTER_SIZE_def)

lemma sample_frame_size: "frame_size sample_frame = 38" "frame_size zero_frame = 26"
  "register_count sample_frame = 1"
  by (simp_all add: frame_size_def sym_bytes_def file_bytes_def sample_frame_def zero_frame_def
      REGISTER_SIZE_def)

lemma sample_rw_left: "rw_left (sample_rw n) = unat (of_nat n :: u64) - 24"
  and sample_rw_cursor: "rw_cursor (sample_rw n) = 24"
  by (simp_all add: rw_left_def sample_rw_def)

lemma sample_rw_ok:
  assumes "24 \<le> n" and "n \<le> k" and "k < 2 ^ 63"
  shows "rw_ok (replicate k 0) (sample_rw n)"
    and "header_size (replicate k 0) (sample_rw n) = Some 0"
proof -
  have n: "unat (of_nat n :: u64) = n"
    using assms by (simp add: unat_of_nat)
  with assms show "rw_ok (replicate k 0) (sample_rw n)"
    by (simp add: rw_ok_def sample_rw_def sizeof_bun_payload_header_def)
  show "header_size (replicate k 0) (sample_rw n) = Some 0"
    using assms by (simp add: header_size_def sample_rw_def hdr_size_def load_replicate_zero)
qed

theorem bun_frame_write_spec_witness:
  "\<exists>m'. bun_frame_write (replicate 100 0) (sample_rw 100) sample_frame =
      Some (of_nat (frame_size sample_frame), rw_advance (sample_rw 100) (frame_size sample_frame + 2), m') \<and>
    at_mem m' (rw_cursor (sample_rw 100)) (frame_bytes sample_frame) \<and>
    header_size m' (sample_rw 100) = Some (0 + of_nat (frame_size sample_frame)) \<and>
    (\<forall>q n. outside_write (sample_rw 100) (frame_size sample_frame + 2) q n \<longrightarrow>
      take n (drop q m') = take n (drop q (replicate 100 0))) \<and>
    rw_ok m' (rw_advance (sample_rw 100) (frame_size sample_frame + 2))"
  by (rule bun_frame_write_spec) (simp_all add: sample_frame_ok sample_frame_size sample_rw_ok sample_rw_left sample_rw_cursor)

theorem bun_frame_write_no_room_witness:
  "bun_frame_write (replicate 100 0) (sample_rw 61) sample_frame =
    Some (0, sample_rw 61, replicate 100 0)"
  by (rule bun_frame_write_no_room) (simp_all add: sample_frame_ok sample_frame_size sample_rw_ok sample_rw_left sample_rw_cursor)

theorem bun_frame_write_overruns_witness:
  "\<exists>m'. bun_frame_write (replicate 100 0) (sample_rw 62) sample_frame =
      Some (of_nat (frame_size sample_frame), rw_advance (sample_rw 62) (frame_size sample_frame + 2), m') \<and>
    at_mem m' (rw_cursor (sample_rw 62)) (frame_bytes sample_frame) \<and>
    rw_buffer (sample_rw 62) + unat (rw_size (sample_rw 62)) <
      rw_cursor (rw_advance (sample_rw 62) (frame_size sample_frame + 2)) \<and>
    (\<forall>b. unat b < 2 ^ 63 \<longrightarrow>
      is_safe_access (rw_advance (sample_rw 62) (frame_size sample_frame + 2)) b)"
  by (rule bun_frame_write_overruns)
    (simp_all add: sample_frame_ok sample_frame_size sample_rw_ok sample_rw_left sample_rw_cursor)

end
