(* ===== verification/Bun_Parse.thy ===== *)
theory Bun_Parse
  imports Bun_Frame
begin

text \<open>
  A reference parser over byte lists (\<open>parse_frame\<close>) and the proof that
  \<open>bun_frame_read\<close> computes it on the bytes between the cursor and the end of the
  buffer: whatever those bytes are, no access leaves the buffer, a frame is returned
  exactly when the reference parser finds one, and otherwise the cursor is put back.
\<close>

subsection \<open>The reference parser\<close>

record parsed_frame =
  p_addr :: u64
  p_line_no :: u64
  p_offset :: u64
  p_symbol :: cstr
  p_filename :: cstr
  p_count :: nat
  p_registers :: "byte list"

definition split_cstr :: "byte list \<Rightarrow> (cstr \<times> byte list) option" where
  "split_cstr bs =
     (let s = nonzero_prefix bs
      in if length s = length bs then None else Some (s, drop (length s + 1) bs))"

definition le64_at :: "byte list \<Rightarrow> nat \<Rightarrow> u64" where
  "le64_at bs i = of_nat (le_decode (take 8 (drop i bs)))"

definition parse_frame :: "byte list \<Rightarrow> (parsed_frame \<times> byte list) option" where
  "parse_frame bs =
     (if length bs < 24 then None
      else do {
        (s, b1) \<leftarrow> split_cstr (drop 24 bs);
        (t, b2) \<leftarrow> split_cstr b1;
        if length b2 < 2 then None
        else let n = le_decode (take 2 b2) in
          if length b2 - 2 < n * REGISTER_SIZE then None
          else Some
            (\<lparr>p_addr = le64_at bs 0, p_line_no = le64_at bs 8, p_offset = le64_at bs 16,
              p_symbol = s, p_filename = t, p_count = n,
              p_registers = take (n * REGISTER_SIZE) (drop 2 b2)\<rparr>,
             drop (2 + n * REGISTER_SIZE) b2)
      })"

lemma split_cstr_SomeD:
  assumes "split_cstr bs = Some (s, bs')"
  shows "bs = s @ 0 # bs'" and "cstr_ok s"
proof -
  from assms have s: "s = nonzero_prefix bs" and lt: "length s < length bs"
    and bs': "bs' = drop (length s + 1) bs"
    using length_nonzero_prefix [of bs] by (auto simp: split_cstr_def Let_def split: if_splits)
  have "bs = s @ drop (length s) bs"
    unfolding s nonzero_prefix_def
    by (metis takeWhile_dropWhile_id dropWhile_eq_drop)
  moreover have "drop (length s) bs = bs ! length s # bs'"
    using lt bs' by (simp add: Cons_nth_drop_Suc)
  moreover have "bs ! length s = 0"
    using lt nth_length_takeWhile [of "\<lambda>b. b \<noteq> 0" bs] by (simp add: s nonzero_prefix_def)
  ultimately show "bs = s @ 0 # bs'" by simp
  show "cstr_ok s"
    by (simp add: s nonzero_prefix_ok)
qed

lemma split_cstr_append: "cstr_ok s \<Longrightarrow> split_cstr (s @ 0 # bs) = Some (s, bs)"
  by (simp add: split_cstr_def nonzero_prefix_cstr)

lemma suffix_drop: "bs = vs @ bs' \<Longrightarrow> bs' = drop (length bs - length bs') bs"
  by simp

text \<open>A parsed frame takes at least 28 bytes, and what is left is a suffix.\<close>

lemma parse_frame_consumes:
  assumes "parse_frame bs = Some (p, bs')"
  shows "length bs' + 28 \<le> length bs" and "bs' = drop (length bs - length bs') bs"
proof -
  from assms obtain s t b1 b2 n where b: "\<not> length bs < 24"
    "split_cstr (drop 24 bs) = Some (s, b1)" "split_cstr b1 = Some (t, b2)"
    "n = le_decode (take 2 b2)" "\<not> length b2 < 2" "\<not> length b2 - 2 < n * REGISTER_SIZE"
    "bs' = drop (2 + n * REGISTER_SIZE) b2"
    by (auto simp: parse_frame_def Let_def split: if_splits bind_splits)
  have d: "drop 24 bs = s @ 0 # t @ 0 # b2"
    using split_cstr_SomeD(1) [OF b(2)] split_cstr_SomeD(1) [OF b(3)] by simp
  then have "length (drop 24 bs) = length s + length t + length b2 + 2"
    by simp
  with b show "length bs' + 28 \<le> length bs"
    by simp
  have "\<exists>us. drop 24 bs = us @ bs'"
    unfolding d b(7) by (intro exI [of _ "s @ 0 # t @ 0 # take (2 + n * REGISTER_SIZE) b2"]) simp
  then obtain us where "drop 24 bs = us @ bs'" ..
  then have "bs = (take 24 bs @ us) @ bs'"
    by (metis append_take_drop_id append_assoc)
  then show "bs' = drop (length bs - length bs') bs"
    by (rule suffix_drop)
qed

subsection \<open>Reading at the cursor\<close>

definition rw_rest :: "mem \<Rightarrow> bun_reader \<Rightarrow> byte list" where
  "rw_rest m r = take (rw_left r) (drop (rw_cursor r) m)"

lemma length_rw_rest: "rw_ok m r \<Longrightarrow> length (rw_rest m r) = rw_left r"
  by (auto simp: rw_rest_def rw_ok_def rw_left_def)

lemma rw_rest_advance: "rw_rest m (rw_advance r n) = drop n (rw_rest m r)"
  by (simp add: rw_rest_def drop_take add.commute)

lemma take_rest: "n \<le> rw_left r \<Longrightarrow> take n (drop (rw_cursor r) m) = take n (rw_rest m r)"
  by (simp add: rw_rest_def min_absorb1)

lemma read_le_64_ok:
  assumes "rw_ok m r"
  shows "read_le_64 m r =
    (if 8 \<le> rw_left r then Some (le64_at (rw_rest m r) 0, rw_advance r 8)
     else Some (0, r\<lparr>rw_overflow := True\<rparr>))"
  using assms cursor_in_mem [of m r 8]
  by (simp add: read_le_64_def is_safe_access_ok load64_def load_def rw_advance_def le64_at_def
      take_rest)

lemma read_le_16_ok:
  assumes "rw_ok m r"
  shows "read_le_16 m r =
    (if 2 \<le> rw_left r then Some (of_nat (le_decode (take 2 (rw_rest m r))), rw_advance r 2)
     else Some (0, r\<lparr>rw_overflow := True\<rparr>))"
  using assms cursor_in_mem [of m r 2]
  by (simp add: read_le_16_def is_safe_access_ok load16_def load_def rw_advance_def take_rest)

lemma read_le_overflow [simp]:
  "rw_overflow r \<Longrightarrow> read_le_64 m r = Some (0, r\<lparr>rw_overflow := True\<rparr>)"
  "rw_overflow r \<Longrightarrow> read_le_16 m r = Some (0, r\<lparr>rw_overflow := True\<rparr>)"
  by (simp_all add: read_le_64_def read_le_16_def)

lemma safe_strlen_ok:
  assumes ok: "rw_ok m r"
  shows "safe_strlen m r =
    (case split_cstr (rw_rest m r) of
       None \<Rightarrow> Some (-1, r\<lparr>rw_overflow := True\<rparr>)
     | Some (s, _) \<Rightarrow> Some (int (length s), r))"
proof -
  let ?n = "rw_left r" and ?s = "nonzero_prefix (rw_rest m r)"
  have max: "unat (of_nat (rw_buffer r) + rw_size r - of_nat (rw_cursor r)) = ?n"
    using unat_rw_left [OF ok] by (simp add: bytes_left_word [OF ok])
  have "rw_cursor r + ?n \<le> length m"
    using ok by (intro cursor_in_mem) auto
  then have "strnlen m (rw_cursor r) ?n = Some (length ?s)"
    using length_rw_rest [OF ok] length_nonzero_prefix [of "rw_rest m r"]
    by (auto simp: strnlen_def Let_def simp flip: rw_rest_def)
  then show ?thesis
    using ok length_rw_rest [OF ok]
    by (auto simp: safe_strlen_def Let_def max split_cstr_def rw_ok_def)
qed

lemma string_at_cursor:
  assumes "rw_ok m r" and "split_cstr (rw_rest m r) = Some (s, bs)"
  shows "take (length s) (drop (rw_cursor r) m) = s"
    and "length s + 1 \<le> rw_left r" and "drop (length s + 1) (rw_rest m r) = bs"
proof -
  have r: "rw_rest m r = s @ 0 # bs"
    using assms(2) by (rule split_cstr_SomeD)
  then have len: "rw_left r = length s + 1 + length bs"
    using length_rw_rest [OF assms(1)] by simp
  then show "length s + 1 \<le> rw_left r"
    by simp
  show "take (length s) (drop (rw_cursor r) m) = s"
    using len r by (simp add: take_rest)
  show "drop (length s + 1) (rw_rest m r) = bs"
    by (simp add: r)
qed

lemma rw_left_word_0: "rw_ok m w \<Longrightarrow> (of_nat (rw_left w) :: u64) = 0 \<longleftrightarrow> rw_left w = 0"
  using rw_left_bound [of m w] by (auto simp: word_of_nat_eq_0_iff dest: dvd_imp_le)

text \<open>The signed difference \<open>header->size - offset\<close>.\<close>

lemma sint_size_diff:
  assumes "k < 2 ^ 63"
  shows "sint (ucast (h :: u32) - of_nat k :: u64) = int (unat h) - int k"
proof -
  let ?x = "int (unat h) - int k"
  have h: "uint h < 2 ^ 32"
    using unsigned_less [of h, where 'a = int] by simp
  have "(ucast h :: u64) = word_of_int (int (unat h))"
    by simp
  then have "(ucast h - of_nat k :: u64) = word_of_int ?x"
    by (simp only: wi_hom_sub [symmetric]) simp
  moreover have "sint (word_of_int ?x :: u64) = (?x + 2 ^ 63) mod 2 ^ 64 - 2 ^ 63"
    by (simp only: int_word_sint) simp
  moreover have "(?x + 2 ^ 63) mod 2 ^ 64 = ?x + 2 ^ 63"
  proof -
    have k: "int k < 9223372036854775808" and u: "int (unat h) < 4294967296"
      using assms h by simp_all
    then have "0 \<le> ?x + 9223372036854775808" and "?x + 9223372036854775808 < 18446744073709551616"
      by linarith+
    then show ?thesis
      by (intro mod_pos_pos_trivial) (simp_all del: of_nat_unat int_nat_eq)
  qed
  ultimately show ?thesis
    by simp
qed

subsection \<open>The parser refines the reference parser\<close>

definition frame_of_parsed :: "parsed_frame \<Rightarrow> bun_frame \<Rightarrow> bun_frame" where
  "frame_of_parsed p f =
     (let g = f\<lparr>addr := p_addr p, line_no := p_line_no p, offset := p_offset p,
                symbol := Some (p_symbol p), filename := Some (p_filename p),
                register_count := of_nat (p_count p)\<rparr>
      in if p_count p = 0 then g
         else g\<lparr>register_data := p_registers p,
                register_buffer_size := of_nat (p_count p * REGISTER_SIZE)\<rparr>)"

lemma rw_advance_restore:
  "(rw_advance r n)\<lparr>rw_overflow := True, rw_cursor := rw_cursor r\<rparr> = r\<lparr>rw_overflow := True\<rparr>"
  by (simp add: rw_advance_def)

lemma read_three:
  assumes ok: "rw_ok m r"
  shows "\<exists>a l d r1 r2 r3.
    read_le_64 m r = Some (a, r1) \<and> read_le_64 m r1 = Some (l, r2) \<and>
    read_le_64 m r2 = Some (d, r3) \<and>
    (24 \<le> rw_left r \<longrightarrow> a = le64_at (rw_rest m r) 0 \<and> l = le64_at (rw_rest m r) 8 \<and>
       d = le64_at (rw_rest m r) 16 \<and> r3 = rw_advance r 24) \<and>
    (rw_left r < 24 \<longrightarrow>
       rw_overflow r3 \<and> r3\<lparr>rw_cursor := rw_cursor r\<rparr> = r\<lparr>rw_overflow := True\<rparr>)"
proof -
  let ?b = "rw_rest m r"
  let ?L = "rw_left r" and ?ov = "rw_overflow_update (\<lambda>_. True)"
  have k0: "read_le_64 m r =
      (if 8 \<le> ?L then Some (le64_at ?b 0, rw_advance r 8) else Some (0, ?ov r))"
    by (simp add: read_le_64_ok [OF ok])
  have k1: "read_le_64 m (rw_advance r 8) =
      (if 16 \<le> ?L then Some (le64_at ?b 8, rw_advance r 16) else Some (0, ?ov (rw_advance r 8)))"
    if "8 \<le> ?L"
    using that by (auto simp: read_le_64_ok [OF rw_ok_advance [OF ok that]] rw_rest_advance
        le64_at_def)
  have k2: "read_le_64 m (rw_advance r 16) =
      (if 24 \<le> ?L then Some (le64_at ?b 16, rw_advance r 24) else Some (0, ?ov (rw_advance r 16)))"
    if "16 \<le> ?L"
    using that by (auto simp: read_le_64_ok [OF rw_ok_advance [OF ok that]] rw_rest_advance
        le64_at_def)
  consider "?L < 8" | "8 \<le> ?L" "?L < 16" | "16 \<le> ?L" "?L < 24" | "24 \<le> ?L"
    by linarith
  then show ?thesis
  proof cases
    case 1
    then have "read_le_64 m r = Some (0, ?ov r)" "read_le_64 m (?ov r) = Some (0, ?ov r)"
      by (simp_all add: k0)
    with 1 show ?thesis
      by (intro exI conjI) (assumption | simp)+
  next
    case 2
    let ?r = "rw_advance r 8"
    have "read_le_64 m r = Some (le64_at ?b 0, ?r)" "read_le_64 m ?r = Some (0, ?ov ?r)"
        "read_le_64 m (?ov ?r) = Some (0, ?ov ?r)"
      using 2 by (simp_all add: k0 k1)
    with 2 show ?thesis
      by (intro exI conjI) (assumption | simp add: rw_advance_restore)+
  next
    case 3
    let ?r = "rw_advance r 16"
    have "read_le_64 m r = Some (le64_at ?b 0, rw_advance r 8)"
        "read_le_64 m (rw_advance r 8) = Some (le64_at ?b 8, ?r)"
        "read_le_64 m ?r = Some (0, ?ov ?r)"
      using 3 by (simp_all add: k0 k1 k2)
    with 3 show ?thesis
      by (intro exI conjI) (assumption | simp add: rw_advance_restore)+
  next
    case 4
    then have "read_le_64 m r = Some (le64_at ?b 0, rw_advance r 8)"
        "read_le_64 m (rw_advance r 8) = Some (le64_at ?b 8, rw_advance r 16)"
        "read_le_64 m (rw_advance r 16) = Some (le64_at ?b 16, rw_advance r 24)"
      by (simp_all add: k0 k1 k2)
    with 4 show ?thesis
      by (intro exI conjI) (assumption | simp)+
  qed
qed

lemma read_guards:
  assumes "rw_ok m r"
  shows "rw_size r = of_nat (rw_cursor r) - of_nat (rw_buffer r) \<longleftrightarrow> rw_left r = 0"
    and "sint (ucast (h :: u32) - (of_nat (rw_cursor r) - of_nat (rw_buffer r)) :: u64) =
      int (unat h) - int (rw_cursor r - rw_buffer r)"
proof -
  have off: "of_nat (rw_cursor r) - of_nat (rw_buffer r) =
      (of_nat (rw_cursor r - rw_buffer r) :: u64)" and lt: "rw_cursor r - rw_buffer r < 2 ^ 63"
    using assms by (auto simp: rw_ok_def of_nat_diff)
  show "rw_size r = of_nat (rw_cursor r) - of_nat (rw_buffer r) \<longleftrightarrow> rw_left r = 0"
    using available_word [OF assms] rw_left_word_0 [OF assms] by auto
  show "sint (ucast (h :: u32) - (of_nat (rw_cursor r) - of_nat (rw_buffer r)) :: u64) =
      int (unat h) - int (rw_cursor r - rw_buffer r)"
    unfolding off by (rule sint_size_diff [OF lt])
qed

lemma bun_frame_read_guard:
  assumes "rw_ok m r" and "header_size m r = Some h"
    and "rw_left r = 0 \<or> unat h \<le> rw_cursor r - rw_buffer r"
  shows "bun_frame_read m r f = Some (False, r, f)"
  using assms(2,3)
  by (auto simp: bun_frame_read_def header_size_def read_guards [OF assms(1)] Let_def
      simp del: of_nat_unat int_nat_eq)

text \<open>
  The stages of \<open>bun_frame_read\<close> after the three integers; \<open>c\<close> is the cursor it restores
  on an error.
\<close>

definition read_registers ::
    "mem \<Rightarrow> nat \<Rightarrow> bun_reader \<Rightarrow> bun_frame \<Rightarrow> (bool \<times> bun_reader \<times> bun_frame) option" where
  "read_registers m c r f =
     do {
       (rc, r8) \<leftarrow> read_le_16 m r;
       let f6 = f\<lparr>register_count := ucast rc\<rparr>;
       if rw_overflow r8 then Some (False, r8\<lparr>rw_cursor := c\<rparr>, f6)
       else if \<not> is_safe_access r8 (register_count f6 * of_nat REGISTER_SIZE)
       then Some (False, r8\<lparr>rw_overflow := True, rw_cursor := c\<rparr>, f6)
       else if register_count f6 > 0 then do {
         let n = register_count f6 * of_nat REGISTER_SIZE;
         Some (True, r8\<lparr>rw_cursor := rw_cursor r8 + unat n\<rparr>,
           f6\<lparr>register_data := take (unat n) (drop (rw_cursor r8) m),
              register_buffer_size := n\<rparr>)
       } else Some (True, r8, f6)
     }"

definition read_filename ::
    "mem \<Rightarrow> nat \<Rightarrow> bun_reader \<Rightarrow> bun_frame \<Rightarrow> (bool \<times> bun_reader \<times> bun_frame) option" where
  "read_filename m c r f =
     do {
       (fl, r6) \<leftarrow> safe_strlen m r;
       if rw_overflow r6 then Some (False, r6\<lparr>rw_cursor := c\<rparr>, f)
       else read_registers m c (r6\<lparr>rw_cursor := rw_cursor r6 + nat fl + 1\<rparr>)
              (f\<lparr>filename := Some (take (nat fl) (drop (rw_cursor r6) m))\<rparr>)
     }"

definition read_symbol ::
    "mem \<Rightarrow> nat \<Rightarrow> bun_reader \<Rightarrow> bun_frame \<Rightarrow> (bool \<times> bun_reader \<times> bun_frame) option" where
  "read_symbol m c r f =
     do {
       (sl, r4) \<leftarrow> safe_strlen m r;
       if rw_overflow r4 then Some (False, r4\<lparr>rw_cursor := c\<rparr>, f)
       else read_filename m c (r4\<lparr>rw_cursor := rw_cursor r4 + nat sl + 1\<rparr>)
              (f\<lparr>symbol := Some (take (nat sl) (drop (rw_cursor r4) m))\<rparr>)
     }"

lemma bun_frame_read_stages:
  assumes "header_size m r = Some h"
    and "read_le_64 m r = Some (a, r1)" "read_le_64 m r1 = Some (l, r2)"
    and "read_le_64 m r2 = Some (d, r3)"
    and "rw_size r - (of_nat (rw_cursor r) - of_nat (rw_buffer r)) \<noteq> 0"
    and "0 < sint (ucast h - (of_nat (rw_cursor r) - of_nat (rw_buffer r)) :: u64)"
  shows "bun_frame_read m r f =
    (let f3 = f\<lparr>addr := a, line_no := l, offset := d\<rparr>
     in if rw_overflow r3 then Some (False, r3\<lparr>rw_cursor := rw_cursor r\<rparr>, f3)
        else read_symbol m (rw_cursor r) r3 f3)"
  using assms
  by (simp add: bun_frame_read_def header_size_def read_symbol_def read_filename_def
      read_registers_def Let_def cong: if_cong)

lemma rw_advance_cursor: "r\<lparr>rw_cursor := rw_cursor r + n + 1\<rparr> = rw_advance r (n + 1)"
  by (simp add: rw_advance_def)

lemma le_decode_two: "length bs = 2 \<Longrightarrow> le_decode bs < 2 ^ 16"
  using le_decode_bound [of bs] by simp

lemma read_registers_ok:
  fixes m r
  defines "b \<equiv> rw_rest m r"
  defines "n \<equiv> le_decode (take 2 b)"
  assumes ok: "rw_ok m r"
  shows "if length b < 2 \<or> length b - 2 < n * REGISTER_SIZE
    then \<exists>g. read_registers m c r f = Some (False, r\<lparr>rw_overflow := True, rw_cursor := c\<rparr>, g)
    else read_registers m c r f = Some (True, rw_advance r (2 + n * REGISTER_SIZE),
      (if n = 0 then f\<lparr>register_count := of_nat n\<rparr>
       else f\<lparr>register_count := of_nat n,
              register_data := take (n * REGISTER_SIZE) (drop 2 b),
              register_buffer_size := of_nat (n * REGISTER_SIZE)\<rparr>))"
proof (cases "length b < 2")
  case True
  with ok show ?thesis
    by (simp add: read_registers_def read_le_16_ok b_def length_rw_rest)
next
  case False
  note len = length_rw_rest [OF ok]
  have no: "\<not> rw_overflow r"
    using ok by (simp add: rw_ok_def)
  have n: "n < 2 ^ 16"
    using False unfolding n_def by (intro le_decode_two) simp
  then have rc: "(ucast (of_nat n :: u16) :: u64) = of_nat n"
    by (simp add: word_unat_eq_iff unat_ucast_16_64 unat_of_nat)
  have un: "unat (of_nat n * of_nat REGISTER_SIZE :: u64) = n * REGISTER_SIZE"
    using n by (simp add: REGISTER_SIZE_def unat_word_ariths unat_of_nat)
  have pos: "0 < (of_nat n :: u64) \<longleftrightarrow> n \<noteq> 0"
    using n by (simp add: word_less_nat_alt unat_of_nat)
  have ok2: "rw_ok m (rw_advance r 2)"
    using ok False by (simp add: b_def len rw_ok_advance)
  have safe: "is_safe_access (rw_advance r 2) (of_nat n * of_nat REGISTER_SIZE)
      \<longleftrightarrow> n * REGISTER_SIZE \<le> length b - 2"
    by (simp add: is_safe_access_ok [OF ok2] un b_def len)
  have data: "take (n * REGISTER_SIZE) (drop (rw_cursor r + 2) m) = take (n * REGISTER_SIZE) (drop 2 b)"
    if "n * REGISTER_SIZE \<le> length b - 2"
    using that take_rest [of "n * REGISTER_SIZE" "rw_advance r 2" m]
    by (simp add: b_def len rw_rest_advance)
  have rd: "read_le_16 m r = Some (of_nat n, rw_advance r 2)"
    using False by (simp add: read_le_16_ok [OF ok] n_def b_def len)
  show ?thesis
    using False no
    by (auto simp: read_registers_def rd rc un pos safe data Let_def not_less of_nat_mult
        simp del: of_nat_mult add_2_eq_Suc') (simp_all add: rw_advance_def)
qed

text \<open>The same three stages of the reference parser, from the back.\<close>

definition parse_registers :: "byte list \<Rightarrow> ((nat \<times> byte list) \<times> byte list) option" where
  "parse_registers b =
     (if length b < 2 then None
      else let n = le_decode (take 2 b) in
        if length b - 2 < n * REGISTER_SIZE then None
        else Some ((n, take (n * REGISTER_SIZE) (drop 2 b)), drop (2 + n * REGISTER_SIZE) b))"

lemma parse_frame_stages:
  "parse_frame bs =
     (if length bs < 24 then None
      else do {
        (s, b1) \<leftarrow> split_cstr (drop 24 bs);
        (t, b2) \<leftarrow> split_cstr b1;
        ((n, regs), b3) \<leftarrow> parse_registers b2;
        Some (\<lparr>p_addr = le64_at bs 0, p_line_no = le64_at bs 8, p_offset = le64_at bs 16,
               p_symbol = s, p_filename = t, p_count = n, p_registers = regs\<rparr>, b3)
      })"
  by (simp add: parse_frame_def parse_registers_def Let_def if_distrib [of "\<lambda>x. Option.bind x _"]
      cong: if_cong)

definition set_registers :: "bun_frame \<Rightarrow> nat \<Rightarrow> byte list \<Rightarrow> bun_frame" where
  "set_registers f n regs =
     (if n = 0 then f\<lparr>register_count := of_nat n\<rparr>
      else f\<lparr>register_count := of_nat n, register_data := regs,
             register_buffer_size := of_nat (n * REGISTER_SIZE)\<rparr>)"

lemma read_registers_parse:
  assumes ok: "rw_ok m r"
  shows "case parse_registers (rw_rest m r) of
      Some ((n, regs), rest) \<Rightarrow>
        read_registers m c r f =
          Some (True, rw_advance r (rw_left r - length rest), set_registers f n regs) \<and>
        length rest \<le> rw_left r
    | None \<Rightarrow> \<exists>g. read_registers m c r f =
        Some (False, r\<lparr>rw_overflow := True, rw_cursor := c\<rparr>, g)"
proof -
  let ?b = "rw_rest m r"
  let ?n = "le_decode (take 2 ?b)"
  note len = length_rw_rest [OF ok]
  show ?thesis
  proof (cases "length ?b < 2 \<or> length ?b - 2 < ?n * REGISTER_SIZE")
    case True
    with read_registers_ok [OF ok, of c f] show ?thesis
      by (auto simp: parse_registers_def Let_def)
  next
    case False
    then have "parse_registers ?b =
        Some ((?n, take (?n * REGISTER_SIZE) (drop 2 ?b)), drop (2 + ?n * REGISTER_SIZE) ?b)"
      by (simp only: parse_registers_def Let_def not_less de_Morgan_disj) simp
    moreover have "rw_left r - length (drop (2 + ?n * REGISTER_SIZE) ?b) = 2 + ?n * REGISTER_SIZE"
      using False by (simp only: length_drop len not_less de_Morgan_disj) linarith
    ultimately show ?thesis
      using read_registers_ok [OF ok, of c f] False
      by (simp add: set_registers_def len del: add_2_eq_Suc')
  qed
qed

lemma rw_advance_ov:
  "(rw_advance r n)\<lparr>rw_overflow := True, rw_cursor := c\<rparr> = r\<lparr>rw_overflow := True, rw_cursor := c\<rparr>"
  by (simp add: rw_advance_def)

lemma advance_over_string:
  assumes ok: "rw_ok m r" and S: "split_cstr (rw_rest m r) = Some (s, b)"
  shows "safe_strlen m r = Some (int (length s), r)"
    and "take (length s) (drop (rw_cursor r) m) = s"
    and "rw_ok m (rw_advance r (length s + 1))"
    and "rw_rest m (rw_advance r (length s + 1)) = b"
    and "rw_left r = length s + 1 + length b"
proof -
  note str = string_at_cursor [OF ok S]
  show "safe_strlen m r = Some (int (length s), r)"
    by (simp add: safe_strlen_ok [OF ok] S)
  show "take (length s) (drop (rw_cursor r) m) = s"
    by (rule str)
  show "rw_ok m (rw_advance r (length s + 1))"
    using ok str(2) by (rule rw_ok_advance)
  show rest: "rw_rest m (rw_advance r (length s + 1)) = b"
    using str(3) by (simp add: rw_rest_advance)
  show "rw_left r = length s + 1 + length b"
    using split_cstr_SomeD(1) [OF S] length_rw_rest [OF ok] by simp
qed

lemma read_filename_parse:
  assumes ok: "rw_ok m r"
  shows "case do { (t, b) \<leftarrow> split_cstr (rw_rest m r); (nr, b') \<leftarrow> parse_registers b;
                   Some (t, nr, b') } of
      Some (t, (n, regs), rest) \<Rightarrow>
        read_filename m c r f =
          Some (True, rw_advance r (rw_left r - length rest),
                set_registers (f\<lparr>filename := Some t\<rparr>) n regs) \<and> length rest \<le> rw_left r
    | None \<Rightarrow> \<exists>g. read_filename m c r f =
        Some (False, r\<lparr>rw_overflow := True, rw_cursor := c\<rparr>, g)"
proof (cases "split_cstr (rw_rest m r)")
  case None
  then show ?thesis
    by (simp add: read_filename_def safe_strlen_ok [OF ok])
next
  case (Some p)
  then obtain t b where S: "split_cstr (rw_rest m r) = Some (t, b)"
    by (cases p) auto
  note adv = advance_over_string [OF ok S]
  have no: "\<not> rw_overflow r"
    using ok by (simp add: rw_ok_def)
  let ?r' = "rw_advance r (length t + 1)" and ?f' = "f\<lparr>filename := Some t\<rparr>"
  have step: "read_filename m c r f = read_registers m c ?r' ?f'"
    using adv(2) no by (simp add: read_filename_def adv(1)) (simp add: rw_advance_def)
  have "rw_left ?r' = length b"
    using adv(5) by simp
  moreover have "rw_advance ?r' (length b - k) = rw_advance r (rw_left r - k)" if "k \<le> length b" for k
    using that adv(5) by simp
  ultimately show ?thesis
    using read_registers_parse [OF adv(3), of c ?f', unfolded adv(4)] adv(5)
    by (cases "parse_registers b") (auto simp: S step rw_advance_ov)
qed

definition parse_filename ::
    "byte list \<Rightarrow> (cstr \<times> (nat \<times> byte list) \<times> byte list) option" where
  "parse_filename b1 =
     do { (t, b) \<leftarrow> split_cstr b1; (nr, b') \<leftarrow> parse_registers b; Some (t, nr, b') }"

definition parse_strings ::
    "byte list \<Rightarrow> (cstr \<times> cstr \<times> (nat \<times> byte list) \<times> byte list) option" where
  "parse_strings b0 =
     do {
       (s, b1) \<leftarrow> split_cstr b0;
       (t, nr, b3) \<leftarrow> parse_filename b1;
       Some (s, t, nr, b3)
     }"

lemma parse_frame_strings:
  "parse_frame bs =
     (if length bs < 24 then None
      else map_option (\<lambda>(s, t, (n, regs), b3).
        (\<lparr>p_addr = le64_at bs 0, p_line_no = le64_at bs 8, p_offset = le64_at bs 16,
          p_symbol = s, p_filename = t, p_count = n, p_registers = regs\<rparr>, b3))
        (parse_strings (drop 24 bs)))"
  by (auto simp: parse_frame_stages parse_strings_def parse_filename_def map_option_case split: bind_splits option.splits)

lemma read_symbol_parse:
  assumes ok: "rw_ok m r"
  shows "case parse_strings (rw_rest m r) of
      Some (s, t, (n, regs), rest) \<Rightarrow>
        read_symbol m c r f =
          Some (True, rw_advance r (rw_left r - length rest),
                set_registers (f\<lparr>symbol := Some s, filename := Some t\<rparr>) n regs) \<and>
        length rest \<le> rw_left r
    | None \<Rightarrow> \<exists>g. read_symbol m c r f =
        Some (False, r\<lparr>rw_overflow := True, rw_cursor := c\<rparr>, g)"
proof (cases "split_cstr (rw_rest m r)")
  case None
  then show ?thesis
    by (simp add: read_symbol_def safe_strlen_ok [OF ok] parse_strings_def)
next
  case (Some p)
  then obtain s b where S: "split_cstr (rw_rest m r) = Some (s, b)"
    by (cases p) auto
  note adv = advance_over_string [OF ok S]
  have no: "\<not> rw_overflow r"
    using ok by (simp add: rw_ok_def)
  let ?r' = "rw_advance r (length s + 1)" and ?f' = "f\<lparr>symbol := Some s\<rparr>"
  have step: "read_symbol m c r f = read_filename m c ?r' ?f'"
    using adv(2) no by (simp add: read_symbol_def adv(1)) (simp add: rw_advance_def)
  have "rw_left ?r' = length b"
    using adv(5) by simp
  moreover have "rw_advance ?r' (length b - k) = rw_advance r (rw_left r - k)" if "k \<le> length b" for k
    using that adv(5) by simp
  ultimately show ?thesis
    using read_filename_parse [OF adv(3), of c ?f', unfolded adv(4), folded parse_filename_def] adv(5)
    by (cases "parse_filename b") (auto simp: S step rw_advance_ov parse_strings_def)
qed

lemma bun_frame_read_parse:
  assumes ok: "rw_ok m r" and h: "header_size m r = Some h"
    and guard: "0 < rw_left r" "rw_cursor r - rw_buffer r < unat h"
  shows "case parse_frame (rw_rest m r) of
      Some (p, rest) \<Rightarrow>
        bun_frame_read m r f =
          Some (True, rw_advance r (rw_left r - length rest), frame_of_parsed p f)
    | None \<Rightarrow> \<exists>g. bun_frame_read m r f = Some (False, r\<lparr>rw_overflow := True\<rparr>, g)"
proof -
  let ?b = "rw_rest m r"
  obtain a l d r1 r2 r3 where r: "read_le_64 m r = Some (a, r1)" "read_le_64 m r1 = Some (l, r2)"
      "read_le_64 m r2 = Some (d, r3)"
    and full: "24 \<le> rw_left r \<longrightarrow> a = le64_at ?b 0 \<and> l = le64_at ?b 8 \<and> d = le64_at ?b 16 \<and>
      r3 = rw_advance r 24"
    and short: "rw_left r < 24 \<longrightarrow>
      rw_overflow r3 \<and> r3\<lparr>rw_cursor := rw_cursor r\<rparr> = r\<lparr>rw_overflow := True\<rparr>"
    using read_three [OF ok] by (elim exE conjE)
  have "rw_size r - (of_nat (rw_cursor r) - of_nat (rw_buffer r)) \<noteq> 0"
    using guard(1) by (simp add: read_guards(1) [OF ok])
  moreover have "0 < sint (ucast h - (of_nat (rw_cursor r) - of_nat (rw_buffer r)) :: u64)"
    using guard(2) by (simp only: read_guards(2) [OF ok])
  ultimately have read: "bun_frame_read m r f =
    (let f3 = f\<lparr>addr := a, line_no := l, offset := d\<rparr>
     in if rw_overflow r3 then Some (False, r3\<lparr>rw_cursor := rw_cursor r\<rparr>, f3)
        else read_symbol m (rw_cursor r) r3 f3)"
    by (rule bun_frame_read_stages [OF h r])
  show ?thesis
  proof (cases "rw_left r < 24")
    case True
    with short read show ?thesis
      by (simp add: parse_frame_def length_rw_rest [OF ok])
  next
    case False
    let ?r3 = "rw_advance r 24" and ?f3 = "f\<lparr>addr := a, line_no := l, offset := d\<rparr>"
    have ok3: "rw_ok m ?r3" and no: "\<not> rw_overflow r"
      using ok False by (simp_all add: rw_ok_advance not_less) (simp add: rw_ok_def)
    have step: "bun_frame_read m r f = read_symbol m (rw_cursor r) ?r3 ?f3"
      using read full False no by simp
    have adv: "rw_advance r (24 + (rw_left r - 24 - k)) = rw_advance r (rw_left r - k)"
      if "k \<le> rw_left r - 24" for k
      using that False by simp
    show ?thesis
      using read_symbol_parse [OF ok3, of "rw_cursor r" ?f3] full False
      by (cases "parse_strings (drop 24 ?b)")
        (auto simp: step parse_frame_strings length_rw_rest [OF ok] rw_rest_advance
          rw_advance_restore adv set_registers_def frame_of_parsed_def Let_def)
  qed
qed

text \<open>So the parser never leaves the buffer, whatever the bytes in it are.\<close>

lemma bun_frame_read_total:
  assumes ok: "rw_ok m r"
  obtains (guard) "bun_frame_read m r f = Some (False, r, f)"
    | (error) g where "bun_frame_read m r f = Some (False, r\<lparr>rw_overflow := True\<rparr>, g)"
        "parse_frame (rw_rest m r) = None"
    | (frame) p rest where "parse_frame (rw_rest m r) = Some (p, rest)"
        "bun_frame_read m r f =
          Some (True, rw_advance r (rw_left r - length rest), frame_of_parsed p f)"
proof -
  have "rw_buffer r + hdr_size + 4 \<le> length m"
    using ok by (auto simp: rw_ok_def hdr_size_def sizeof_bun_payload_header_def)
  then obtain h where h: "header_size m r = Some h"
    unfolding header_size_def using load_word_exists(2) by blast
  show thesis
  proof (cases "rw_left r = 0 \<or> unat h \<le> rw_cursor r - rw_buffer r")
    case True
    then show thesis
      by (rule guard [OF bun_frame_read_guard [OF ok h]])
  next
    case False
    then have "0 < rw_left r" "rw_cursor r - rw_buffer r < unat h"
      by auto
    from bun_frame_read_parse [OF ok h this, of f] show thesis
      by (cases "parse_frame (rw_rest m r)") (auto intro: error frame)
  qed
qed

subsection \<open>The parser inverts the serializer\<close>

definition parsed_of_frame :: "bun_frame \<Rightarrow> parsed_frame" where
  "parsed_of_frame f =
     \<lparr>p_addr = addr f, p_line_no = line_no f, p_offset = offset f,
      p_symbol = sym_bytes f, p_filename = file_bytes f,
      p_count = unat (register_count f), p_registers = reg_bytes f\<rparr>"

lemma frame_ok_cstr: "frame_ok f \<Longrightarrow> cstr_ok (sym_bytes f) \<and> cstr_ok (file_bytes f)"
  by (auto simp: frame_ok_def string_ok_def sym_bytes_def file_bytes_def cstr_ok_def
      split: option.splits)

lemma le64_at_enc: "take 8 (drop i bs) = enc64 v \<Longrightarrow> le64_at bs i = v"
  by (simp add: le64_at_def enc64_def le64.decode_encode)

lemma le_decode_enc16: "le_decode (enc16 v) = unat v"
  using unsigned_less [of v, where 'a = nat] by (simp add: enc16_def le_simps)

lemma parse_frame_bytes:
  assumes f: "frame_ok f"
  shows "parse_frame (frame_bytes f @ rest) = Some (parsed_of_frame f, rest)"
proof -
  let ?b = "frame_bytes f @ rest" and ?e = "enc16 (ucast (register_count f))"
  let ?tail = "?e @ reg_bytes f @ rest"
  note len = frame_ok_lengths [OF f]
  have n: "le_decode ?e = unat (register_count f)"
    using len(6) by (simp add: le_decode_enc16 unat_ucast_64_16)
  have d: "drop 24 ?b = sym_bytes f @ 0 # file_bytes f @ 0 # ?tail"
    by (simp add: frame_bytes_def fixed_bytes_def string_bytes_def)
  have regs: "parse_registers ?tail = Some ((unat (register_count f), reg_bytes f), rest)"
    using len(5) n by (simp add: parse_registers_def Let_def REGISTER_SIZE_def)
  have "le64_at ?b 0 = addr f" "le64_at ?b 8 = line_no f" "le64_at ?b 16 = offset f"
    by (intro le64_at_enc; simp add: frame_bytes_def fixed_bytes_def)+
  moreover have "\<not> length ?b < 24"
    by (simp add: frame_bytes_def fixed_bytes_def)
  ultimately show ?thesis
    using frame_ok_cstr [OF f]
    by (simp add: parse_frame_stages d split_cstr_append regs parsed_of_frame_def del: drop_append)
qed

subsection \<open>Properties\<close>

text \<open>
  C3: \<open>bun_frame_read\<close> implements the reference parser on the bytes between the cursor and
  the end of the buffer, whatever these bytes are: past the header's size it reports the
  end and changes nothing; otherwise it returns the frame the reference parser finds and
  moves the cursor past its bytes, or sets the overflow flag and leaves the cursor.
\<close>

theorem bun_frame_read_refines:
  assumes "rw_ok m r" and "header_size m r = Some h"
  shows "if rw_left r = 0 \<or> unat h \<le> rw_cursor r - rw_buffer r
    then bun_frame_read m r f = Some (False, r, f)
    else case parse_frame (rw_rest m r) of
        Some (p, rest) \<Rightarrow> bun_frame_read m r f =
          Some (True, rw_advance r (rw_left r - length rest), frame_of_parsed p f)
      | None \<Rightarrow> \<exists>g. bun_frame_read m r f = Some (False, r\<lparr>rw_overflow := True\<rparr>, g)"
  using bun_frame_read_guard [OF assms] bun_frame_read_parse [OF assms] by auto

text \<open>
  C10: no input makes \<open>bun_frame_read\<close> leave the buffer. From a well-formed cursor it always
  returns; after success the cursor is well-formed and at least 28 bytes further, after
  failure it is where it was.
\<close>

theorem bun_frame_read_safe:
  assumes "rw_ok m r"
  shows "\<exists>ok r' g. bun_frame_read m r f = Some (ok, r', g) \<and>
    (if ok then rw_ok m r' \<and> rw_cursor r + 28 \<le> rw_cursor r'
     else rw_cursor r' = rw_cursor r)"
proof (rule bun_frame_read_total [OF assms, of f])
  fix p rest
  assume parse: "parse_frame (rw_rest m r) = Some (p, rest)"
    and run: "bun_frame_read m r f =
      Some (True, rw_advance r (rw_left r - length rest), frame_of_parsed p f)"
  have "length rest + 28 \<le> rw_left r"
    using parse_frame_consumes(1) [OF parse] length_rw_rest [OF assms] by simp
  then have "rw_ok m (rw_advance r (rw_left r - length rest)) \<and>
      rw_cursor r + 28 \<le> rw_cursor (rw_advance r (rw_left r - length rest))"
    using assms by (simp add: rw_ok_advance)
  then show ?thesis
    using run by auto
qed auto

text \<open>
  The reference parser inverts the wire format: parsing the bytes of a well-formed
  frame followed by anything gives back the frame's contents and what followed.
\<close>

theorem parse_frame_inverts:
  assumes "frame_ok f"
  shows "parse_frame (frame_bytes f @ rest) = Some (parsed_of_frame f, rest)"
  using assms by (rule parse_frame_bytes)

definition sample_mem :: mem where
  "sample_mem = patch (replicate 100 0) 12 (enc32 100)"

lemma sample_mem_ok: "rw_ok sample_mem (sample_rw 100)" "header_size sample_mem (sample_rw 100) = Some 100"
proof -
  show "rw_ok sample_mem (sample_rw 100)"
    by (simp add: sample_mem_def rw_ok_patch sample_rw_ok)
  show "header_size sample_mem (sample_rw 100) = Some 100"
    by (simp add: sample_mem_def header_size_def sample_rw_def hdr_size_def load32_at
        at_mem_patch_same)
qed

theorem bun_frame_read_refines_witness:
  "if rw_left (sample_rw 100) = 0 \<or> unat (100 :: u32) \<le> rw_cursor (sample_rw 100) - rw_buffer (sample_rw 100)
    then bun_frame_read sample_mem (sample_rw 100) zero_frame = Some (False, sample_rw 100, zero_frame)
    else case parse_frame (rw_rest sample_mem (sample_rw 100)) of
        Some (p, rest) \<Rightarrow> bun_frame_read sample_mem (sample_rw 100) zero_frame =
          Some (True, rw_advance (sample_rw 100) (rw_left (sample_rw 100) - length rest),
            frame_of_parsed p zero_frame)
      | None \<Rightarrow> \<exists>g. bun_frame_read sample_mem (sample_rw 100) zero_frame =
          Some (False, (sample_rw 100)\<lparr>rw_overflow := True\<rparr>, g)"
  by (rule bun_frame_read_refines) (simp_all add: sample_mem_ok)

theorem bun_frame_read_safe_witness:
  "\<exists>ok r' g. bun_frame_read sample_mem (sample_rw 100) zero_frame = Some (ok, r', g) \<and>
    (if ok then rw_ok sample_mem r' \<and> rw_cursor (sample_rw 100) + 28 \<le> rw_cursor r'
     else rw_cursor r' = rw_cursor (sample_rw 100))"
  by (rule bun_frame_read_safe) (rule sample_mem_ok)

theorem parse_frame_inverts_witness:
  "parse_frame (frame_bytes sample_frame @ [1, 2]) = Some (parsed_of_frame sample_frame, [1, 2])"
  by (rule parse_frame_inverts) (rule sample_frame_ok)

end
