(* ===== verification/Bun_Registers.thy ===== *)
theory Bun_Registers
  imports Bun_Types
begin

text \<open>
  \<open>bun_frame_register_append\<close> and \<open>bun_frame_register_get\<close> (\<open>src/bun_stream.c\<close>): the
  register array of a frame, packed ten bytes a register. The locale \<open>bounded_log\<close> is the
  contract the unwinding backends rely on: appending adds at the end while there is room
  and afterwards leaves the array alone.
\<close>

subsection \<open>The contract\<close>

text \<open>The loop of a backend over its register map; the results of the calls are ignored.\<close>

fun append_all :: "('s \<Rightarrow> 'x \<Rightarrow> (bool \<times> 's) option) \<Rightarrow> 's \<Rightarrow> 'x list \<Rightarrow> 's option" where
  "append_all app s [] = Some s"
| "append_all app s (x # xs) = do { (_, s') \<leftarrow> app s x; append_all app s' xs }"

locale bounded_log =
  fixes inv :: "'s \<Rightarrow> bool"
    and cap :: "'s \<Rightarrow> nat"
    and content :: "'s \<Rightarrow> 'x list"
    and good :: "'x \<Rightarrow> bool"
    and app :: "'s \<Rightarrow> 'x \<Rightarrow> (bool \<times> 's) option"
  assumes app_room: "inv s \<Longrightarrow> length (content s) < cap s \<Longrightarrow> good x \<Longrightarrow>
      \<exists>s'. app s x = Some (True, s') \<and> inv s' \<and> cap s' = cap s \<and> content s' = content s @ [x]"
    and app_full: "inv s \<Longrightarrow> cap s \<le> length (content s) \<Longrightarrow> app s x = Some (False, s)"
    and content_cap: "inv s \<Longrightarrow> length (content s) \<le> cap s"
begin

lemma append_all_content:
  assumes "inv s" and "\<forall>x \<in> set xs. good x"
  shows "\<exists>s'. append_all app s xs = Some s' \<and> inv s' \<and> cap s' = cap s \<and>
    content s' = take (cap s) (content s @ xs)"
  using assms
proof (induction xs arbitrary: s)
  case Nil
  then show ?case
    using content_cap by simp
next
  case (Cons x xs)
  show ?case
  proof (cases "length (content s) < cap s")
    case True
    from app_room [OF Cons.prems(1) True, of x] Cons.prems(2) obtain s' where
      s': "app s x = Some (True, s')" "inv s'" "cap s' = cap s" "content s' = content s @ [x]"
      by auto
    from Cons.IH [OF s'(2)] Cons.prems(2) s' show ?thesis
      by simp
  next
    case False
    then have full: "app s x = Some (False, s)"
      using app_full [OF Cons.prems(1)] by simp
    from False have "take (cap s) (content s @ x # xs) = take (cap s) (content s @ xs)"
      by simp
    with Cons.IH [OF Cons.prems(1)] Cons.prems(2) full show ?thesis
      by simp
  qed
qed

end

subsection \<open>The operations\<close>

text \<open>A member of \<open>enum bun_register\<close> is passed as the 32-bit integer C makes of it.\<close>

definition bun_frame_register_append ::
    "bun_frame \<Rightarrow> u32 \<Rightarrow> u64 \<Rightarrow> (bool \<times> bun_frame) option" where
  "bun_frame_register_append f reg val =
     (let max_registers =
            (if register_buffer_size f > 0
             then register_buffer_size f div of_nat REGISTER_SIZE else 0)
      in if register_count f \<ge> max_registers then Some (False, f)
         else do {
           let p = REGISTER_SIZE * unat (register_count f);
           d1 \<leftarrow> store (register_data f) p (enc16 (ucast reg));
           d2 \<leftarrow> store d1 (p + 2) (enc64 val);
           Some (True, f\<lparr>register_data := d2, register_count := register_count f + 1\<rparr>)
         })"

text \<open>The result is the return value and what the two out-parameters receive.\<close>

definition bun_frame_register_get ::
    "bun_frame \<Rightarrow> u64 \<Rightarrow> (u32 \<times> u64) option option" where
  "bun_frame_register_get f index =
     (if index \<ge> register_count f then Some None
      else do {
        let p = REGISTER_SIZE * unat index;
        reg \<leftarrow> load16 (register_data f) p;
        val \<leftarrow> load64 (register_data f) (p + 2);
        Some (Some (ucast reg, val))
      })"

subsection \<open>Refinement of a list of registers\<close>

definition enc_reg :: "u32 \<times> u64 \<Rightarrow> byte list" where
  "enc_reg r = enc16 (ucast (fst r)) @ enc64 (snd r)"

definition dec_reg :: "byte list \<Rightarrow> u32 \<times> u64" where
  "dec_reg bs = (ucast (of_nat (le_decode (take 2 bs)) :: u16), of_nat (le_decode (take 8 (drop 2 bs))))"

definition frame_registers :: "bun_frame \<Rightarrow> (u32 \<times> u64) list" where
  "frame_registers f =
     map (\<lambda>i. dec_reg (take 10 (drop (10 * i) (register_data f)))) [0..<unat (register_count f)]"

definition register_cap :: "bun_frame \<Rightarrow> nat" where
  "register_cap f = unat (register_buffer_size f) div 10"

text \<open>The buffer size the frame claims is there, and the registers in it are within it.\<close>

definition registers_ok :: "bun_frame \<Rightarrow> bool" where
  "registers_ok f \<longleftrightarrow>
     unat (register_buffer_size f) \<le> length (register_data f) \<and>
     unat (register_count f) \<le> register_cap f"

text \<open>Register numbers that fit the two bytes they are stored in.\<close>

definition reg_ok :: "u32 \<times> u64 \<Rightarrow> bool" where
  "reg_ok r \<longleftrightarrow> unat (fst r) < 2 ^ 16"

lemma length_enc_reg [simp]: "length (enc_reg r) = 10"
  by (simp add: enc_reg_def)

lemma dec_enc_reg: "reg_ok r \<Longrightarrow> dec_reg (enc_reg r) = r"
proof -
  assume r: "reg_ok r"
  have "(of_nat (le_decode (enc16 (ucast (fst r)))) :: u16) = ucast (fst r)"
    by (simp add: enc16_def le16.decode_encode)
  moreover have "ucast (ucast (fst r) :: u16) = fst r"
    using r by (simp add: reg_ok_def word_unat_eq_iff unat_ucast_32_16 unat_ucast_16_32)
  moreover have "(of_nat (le_decode (enc64 (snd r))) :: u64) = snd r"
    by (simp add: enc64_def le64.decode_encode)
  ultimately show ?thesis
    by (simp add: dec_reg_def enc_reg_def)
qed

lemma length_frame_registers [simp]: "length (frame_registers f) = unat (register_count f)"
  by (simp add: frame_registers_def)

lemma max_registers_word:
  "unat (if register_buffer_size f > 0 then register_buffer_size f div of_nat REGISTER_SIZE else 0)
    = register_cap f"
  by (auto simp: register_cap_def REGISTER_SIZE_def unat_div word_neq_0_conv not_less)

lemma register_append_full:
  "register_cap f \<le> unat (register_count f) \<Longrightarrow>
    bun_frame_register_append f reg val = Some (False, f)"
  by (simp add: bun_frame_register_append_def Let_def word_le_nat_alt max_registers_word
      del: word_neq_0_conv)

lemma register_append_room:
  assumes ok: "registers_ok f" and room: "unat (register_count f) < register_cap f"
  shows "bun_frame_register_append f reg val =
    Some (True, f\<lparr>register_data := patch (register_data f) (10 * unat (register_count f))
                    (enc_reg (reg, val)),
                  register_count := register_count f + 1\<rparr>)"
proof -
  let ?p = "10 * unat (register_count f)"
  have p: "?p + 10 \<le> length (register_data f)"
    using ok room by (simp add: registers_ok_def register_cap_def)
  have "\<not> register_cap f \<le> unat (register_count f)"
    using room by simp
  then show ?thesis
    using p patch_patch_append [of ?p "enc16 (ucast reg)" "enc64 val" "register_data f"]
    by (simp add: bun_frame_register_append_def Let_def word_le_nat_alt max_registers_word
        REGISTER_SIZE_def store_patch enc_reg_def del: add_2_eq_Suc')
qed

lemma register_count_Suc:
  assumes "unat (c :: u64) < n div 10" and "n \<le> 2 ^ 64"
  shows "unat (c + 1) = Suc (unat c)"
proof -
  have "unat c + 1 < 2 ^ 64"
    using assms by simp
  then show ?thesis
    by (simp add: unat_word_ariths)
qed

lemma register_append_spec:
  assumes ok: "registers_ok f" and room: "unat (register_count f) < register_cap f"
    and r: "reg_ok r"
  shows "\<exists>f'. bun_frame_register_append f (fst r) (snd r) = Some (True, f') \<and> registers_ok f' \<and>
    register_cap f' = register_cap f \<and> frame_registers f' = frame_registers f @ [r]"
proof -
  let ?c = "unat (register_count f)" and ?d = "register_data f"
  let ?d' = "patch ?d (10 * ?c) (enc_reg r)"
  let ?f' = "f\<lparr>register_data := ?d', register_count := register_count f + 1\<rparr>"
  have p: "10 * ?c + 10 \<le> length ?d"
    using ok room by (simp add: registers_ok_def register_cap_def)
  have "unat (register_buffer_size f) \<le> 2 ^ 64"
    using unsigned_less [of "register_buffer_size f", where 'a = nat] by simp
  then have c: "unat (register_count f + 1) = Suc ?c"
    using room by (intro register_count_Suc [of _ "unat (register_buffer_size f)"])
      (simp_all add: register_cap_def)
  have old: "take 10 (drop (10 * i) ?d') = take 10 (drop (10 * i) ?d)" if "i < ?c" for i
    using that p by (intro take_drop_patch_before) auto
  have new: "take 10 (drop (10 * ?c) ?d') = enc_reg r"
    using p take_drop_patch_same [of "10 * ?c" "enc_reg r" ?d] by simp
  have "bun_frame_register_append f (fst r) (snd r) = Some (True, ?f')"
    using register_append_room [OF ok room, of "fst r" "snd r"] by simp
  moreover have "registers_ok ?f'"
    using ok room p c by (simp add: registers_ok_def register_cap_def)
  moreover have "frame_registers ?f' = frame_registers f @ [r]"
    using old new c dec_enc_reg [OF r] by (simp add: frame_registers_def)
  ultimately show ?thesis
    by (intro exI [of _ ?f']) (simp add: register_cap_def)
qed

definition append_register :: "bun_frame \<Rightarrow> u32 \<times> u64 \<Rightarrow> (bool \<times> bun_frame) option" where
  "append_register f r = bun_frame_register_append f (fst r) (snd r)"

interpretation frame_log: bounded_log registers_ok register_cap frame_registers reg_ok append_register
proof unfold_locales
  fix f :: bun_frame and r
  assume "registers_ok f"
  then show "length (frame_registers f) \<le> register_cap f"
    by (simp add: registers_ok_def)
  show "append_register f r = Some (False, f)" if "register_cap f \<le> length (frame_registers f)"
    using that by (simp add: append_register_def register_append_full)
  show "\<exists>f'. append_register f r = Some (True, f') \<and> registers_ok f' \<and>
      register_cap f' = register_cap f \<and> frame_registers f' = frame_registers f @ [r]"
    if "length (frame_registers f) < register_cap f" and "reg_ok r"
    using that \<open>registers_ok f\<close> by (simp add: append_register_def register_append_spec)
qed

lemma register_get_in_data:
  assumes "10 * unat (register_count f) \<le> length (register_data f)"
    and "unat i < unat (register_count f)"
  shows "bun_frame_register_get f i = Some (Some (frame_registers f ! unat i))"
proof -
  let ?d = "register_data f" and ?p = "10 * unat i"
  have p: "?p + 10 \<le> length ?d"
    using assms by simp
  have "load16 ?d ?p = Some (of_nat (le_decode (take 2 (take 10 (drop ?p ?d)))))"
    using p by (simp add: load16_def load_def)
  moreover have "load64 ?d (?p + 2) = Some (of_nat (le_decode (take 8 (drop 2 (take 10 (drop ?p ?d))))))"
    using p by (simp add: load64_def load_def drop_take)
  ultimately show ?thesis
    using assms(2)
    by (simp add: bun_frame_register_get_def word_le_nat_alt REGISTER_SIZE_def frame_registers_def
        dec_reg_def Let_def del: add_2_eq_Suc')
qed

lemma register_get_spec:
  assumes "registers_ok f"
  shows "bun_frame_register_get f i =
    (if unat i < length (frame_registers f) then Some (Some (frame_registers f ! unat i))
     else Some None)"
proof (cases "unat i < unat (register_count f)")
  case True
  have "10 * unat (register_count f) \<le> length (register_data f)"
    using assms unfolding registers_ok_def register_cap_def by linarith
  with True show ?thesis
    by (simp add: register_get_in_data)
next
  case False
  then show ?thesis
    by (simp add: bun_frame_register_get_def word_le_nat_alt)
qed

subsection \<open>Properties\<close>

text \<open>
  C28: a loop of \<open>bun_frame_register_append\<close> over a list of registers whose numbers fit two
  bytes leaves in the frame the registers it had followed by as many of the list as the
  register buffer has room for; no call leaves the buffer.
\<close>

theorem register_append_loop:
  assumes "registers_ok f" and "\<forall>r \<in> set rs. reg_ok r"
  shows "\<exists>f'. append_all append_register f rs = Some f' \<and> registers_ok f' \<and>
    register_cap f' = register_cap f \<and>
    frame_registers f' = take (register_cap f) (frame_registers f @ rs)"
  using assms by (rule frame_log.append_all_content)

text \<open>
  \<open>bun_frame_register_get\<close> returns the register at the index exactly for the indices
  below the register count, and fails for all others.
\<close>

theorem register_get_nth:
  assumes "registers_ok f"
  shows "bun_frame_register_get f i =
    (if unat i < length (frame_registers f) then Some (Some (frame_registers f ! unat i))
     else Some None)"
  using assms by (rule register_get_spec)

text \<open>
  The register that was appended last is the one \<open>bun_frame_register_get\<close> returns
  for the old register count, provided the register number fits two bytes.
\<close>

theorem register_append_then_get:
  assumes "registers_ok f" and "unat (register_count f) < register_cap f" and "unat reg < 2 ^ 16"
  shows "\<exists>f'. bun_frame_register_append f reg val = Some (True, f') \<and>
    bun_frame_register_get f' (register_count f) = Some (Some (reg, val))"
proof -
  from assms register_append_spec [of f "(reg, val)"] obtain f' where
    f': "bun_frame_register_append f reg val = Some (True, f')" "registers_ok f'"
      "frame_registers f' = frame_registers f @ [(reg, val)]"
    by (auto simp: reg_ok_def)
  then show ?thesis
    by (simp add: register_get_spec nth_append)
qed

definition sample_registers :: bun_frame where
  "sample_registers = zero_frame\<lparr>register_buffer_size := 25, register_data := replicate 25 0\<rparr>"

lemma sample_registers_ok: "registers_ok sample_registers" "register_count sample_registers = 0"
  "register_cap sample_registers = 2"
  by (simp_all add: sample_registers_def registers_ok_def zero_frame_def register_cap_def)

theorem register_append_loop_witness:
  "\<exists>f'. append_all append_register sample_registers [(3, 4), (5, 6), (7, 8)] = Some f' \<and>
    registers_ok f' \<and> register_cap f' = register_cap sample_registers \<and>
    frame_registers f' =
      take (register_cap sample_registers) (frame_registers sample_registers @ [(3, 4), (5, 6), (7, 8)])"
  by (rule register_append_loop) (simp_all add: sample_registers_ok reg_ok_def)

theorem register_get_nth_witness:
  "bun_frame_register_get sample_registers 0 =
    (if unat (0 :: u64) < length (frame_registers sample_registers)
     then Some (Some (frame_registers sample_registers ! unat (0 :: u64))) else Some None)"
  by (rule register_get_nth) (rule sample_registers_ok)

theorem register_append_then_get_witness:
  "\<exists>f'. bun_frame_register_append sample_registers 16 99 = Some (True, f') \<and>
    bun_frame_register_get f' (register_count sample_registers) = Some (Some (16, 99))"
  by (rule register_append_then_get) (simp_all add: sample_registers_ok)

end
