(* ===== verification/Bun_Register_Names.thy ===== *)
theory Bun_Register_Names
  imports Prelude "HOL-Library.Countable"
begin

text \<open>
  \<open>enum bun_register\<close> (\<open>include/bun/stream.h\<close>) with the values C gives its members, and
  \<open>bun_register_to_string\<close> (\<open>src/register_to_string.c\<close>), the table its \<open>switch\<close> is.
  The \<open>_BEGIN\<close> and \<open>_END\<close> members of the enumeration are aliases of the first and last
  register of their group.
\<close>

subsection \<open>The enumeration\<close>

datatype (plugins only: code) bun_register =
    BUN_REGISTER_X86_64_RAX
  | BUN_REGISTER_X86_64_RBX
  | BUN_REGISTER_X86_64_RCX
  | BUN_REGISTER_X86_64_RDX
  | BUN_REGISTER_X86_64_RSI
  | BUN_REGISTER_X86_64_RDI
  | BUN_REGISTER_X86_64_RBP
  | BUN_REGISTER_X86_64_RSP
  | BUN_REGISTER_X86_64_R8
  | BUN_REGISTER_X86_64_R9
  | BUN_REGISTER_X86_64_R10
  | BUN_REGISTER_X86_64_R11
  | BUN_REGISTER_X86_64_R12
  | BUN_REGISTER_X86_64_R13
  | BUN_REGISTER_X86_64_R14
  | BUN_REGISTER_X86_64_R15
  | BUN_REGISTER_X86_64_RIP
  | BUN_REGISTER_X86_EAX
  | BUN_REGISTER_X86_EBX
  | BUN_REGISTER_X86_ECX
  | BUN_REGISTER_X86_EDX
  | BUN_REGISTER_X86_ESI
  | BUN_REGISTER_X86_EDI
  | BUN_REGISTER_X86_EBP
  | BUN_REGISTER_X86_ESP
  | BUN_REGISTER_X86_EIP
  | BUN_REGISTER_AARCH64_X0
  | BUN_REGISTER_AARCH64_X1
  | BUN_REGISTER_AARCH64_X2
  | BUN_REGISTER_AARCH64_X3
  | BUN_REGISTER_AARCH64_X4
  | BUN_REGISTER_AARCH64_X5
  | BUN_REGISTER_AARCH64_X6
  | BUN_REGISTER_AARCH64_X7
  | BUN_REGISTER_AARCH64_X8
  | BUN_REGISTER_AARCH64_X9
  | BUN_REGISTER_AARCH64_X10
  | BUN_REGISTER_AARCH64_X11
  | BUN_REGISTER_AARCH64_X12
  | BUN_REGISTER_AARCH64_X13
  | BUN_REGISTER_AARCH64_X14
  | BUN_REGISTER_AARCH64_X15
  | BUN_REGISTER_AARCH64_X16
  | BUN_REGISTER_AARCH64_X17
  | BUN_REGISTER_AARCH64_X18
  | BUN_REGISTER_AARCH64_X19
  | BUN_REGISTER_AARCH64_X20
  | BUN_REGISTER_AARCH64_X21
  | BUN_REGISTER_AARCH64_X22
  | BUN_REGISTER_AARCH64_X23
  | BUN_REGISTER_AARCH64_X24
  | BUN_REGISTER_AARCH64_X25
  | BUN_REGISTER_AARCH64_X26
  | BUN_REGISTER_AARCH64_X27
  | BUN_REGISTER_AARCH64_X28
  | BUN_REGISTER_AARCH64_X29
  | BUN_REGISTER_AARCH64_X30
  | BUN_REGISTER_AARCH64_X31
  | BUN_REGISTER_AARCH64_PC
  | BUN_REGISTER_AARCH64_PSTATE
  | BUN_REGISTER_ARM_R0
  | BUN_REGISTER_ARM_R1
  | BUN_REGISTER_ARM_R2
  | BUN_REGISTER_ARM_R3
  | BUN_REGISTER_ARM_R4
  | BUN_REGISTER_ARM_R5
  | BUN_REGISTER_ARM_R6
  | BUN_REGISTER_ARM_R7
  | BUN_REGISTER_ARM_R8
  | BUN_REGISTER_ARM_R9
  | BUN_REGISTER_ARM_R10
  | BUN_REGISTER_ARM_R11
  | BUN_REGISTER_ARM_R12
  | BUN_REGISTER_ARM_R13
  | BUN_REGISTER_ARM_R14
  | BUN_REGISTER_ARM_R15
  | BUN_REGISTER_ARM_PSTATE

text \<open>The members in declaration order: the value of a member is its position.\<close>

definition bun_registers :: "bun_register list" where
  "bun_registers =
    [BUN_REGISTER_X86_64_RAX,
     BUN_REGISTER_X86_64_RBX,
     BUN_REGISTER_X86_64_RCX,
     BUN_REGISTER_X86_64_RDX,
     BUN_REGISTER_X86_64_RSI,
     BUN_REGISTER_X86_64_RDI,
     BUN_REGISTER_X86_64_RBP,
     BUN_REGISTER_X86_64_RSP,
     BUN_REGISTER_X86_64_R8,
     BUN_REGISTER_X86_64_R9,
     BUN_REGISTER_X86_64_R10,
     BUN_REGISTER_X86_64_R11,
     BUN_REGISTER_X86_64_R12,
     BUN_REGISTER_X86_64_R13,
     BUN_REGISTER_X86_64_R14,
     BUN_REGISTER_X86_64_R15,
     BUN_REGISTER_X86_64_RIP,
     BUN_REGISTER_X86_EAX,
     BUN_REGISTER_X86_EBX,
     BUN_REGISTER_X86_ECX,
     BUN_REGISTER_X86_EDX,
     BUN_REGISTER_X86_ESI,
     BUN_REGISTER_X86_EDI,
     BUN_REGISTER_X86_EBP,
     BUN_REGISTER_X86_ESP,
     BUN_REGISTER_X86_EIP,
     BUN_REGISTER_AARCH64_X0,
     BUN_REGISTER_AARCH64_X1,
     BUN_REGISTER_AARCH64_X2,
     BUN_REGISTER_AARCH64_X3,
     BUN_REGISTER_AARCH64_X4,
     BUN_REGISTER_AARCH64_X5,
     BUN_REGISTER_AARCH64_X6,
     BUN_REGISTER_AARCH64_X7,
     BUN_REGISTER_AARCH64_X8,
     BUN_REGISTER_AARCH64_X9,
     BUN_REGISTER_AARCH64_X10,
     BUN_REGISTER_AARCH64_X11,
     BUN_REGISTER_AARCH64_X12,
     BUN_REGISTER_AARCH64_X13,
     BUN_REGISTER_AARCH64_X14,
     BUN_REGISTER_AARCH64_X15,
     BUN_REGISTER_AARCH64_X16,
     BUN_REGISTER_AARCH64_X17,
     BUN_REGISTER_AARCH64_X18,
     BUN_REGISTER_AARCH64_X19,
     BUN_REGISTER_AARCH64_X20,
     BUN_REGISTER_AARCH64_X21,
     BUN_REGISTER_AARCH64_X22,
     BUN_REGISTER_AARCH64_X23,
     BUN_REGISTER_AARCH64_X24,
     BUN_REGISTER_AARCH64_X25,
     BUN_REGISTER_AARCH64_X26,
     BUN_REGISTER_AARCH64_X27,
     BUN_REGISTER_AARCH64_X28,
     BUN_REGISTER_AARCH64_X29,
     BUN_REGISTER_AARCH64_X30,
     BUN_REGISTER_AARCH64_X31,
     BUN_REGISTER_AARCH64_PC,
     BUN_REGISTER_AARCH64_PSTATE,
     BUN_REGISTER_ARM_R0,
     BUN_REGISTER_ARM_R1,
     BUN_REGISTER_ARM_R2,
     BUN_REGISTER_ARM_R3,
     BUN_REGISTER_ARM_R4,
     BUN_REGISTER_ARM_R5,
     BUN_REGISTER_ARM_R6,
     BUN_REGISTER_ARM_R7,
     BUN_REGISTER_ARM_R8,
     BUN_REGISTER_ARM_R9,
     BUN_REGISTER_ARM_R10,
     BUN_REGISTER_ARM_R11,
     BUN_REGISTER_ARM_R12,
     BUN_REGISTER_ARM_R13,
     BUN_REGISTER_ARM_R14,
     BUN_REGISTER_ARM_R15,
     BUN_REGISTER_ARM_PSTATE]"

primrec reg_value :: "bun_register \<Rightarrow> nat" where
  "reg_value BUN_REGISTER_X86_64_RAX = 0"
| "reg_value BUN_REGISTER_X86_64_RBX = 1"
| "reg_value BUN_REGISTER_X86_64_RCX = 2"
| "reg_value BUN_REGISTER_X86_64_RDX = 3"
| "reg_value BUN_REGISTER_X86_64_RSI = 4"
| "reg_value BUN_REGISTER_X86_64_RDI = 5"
| "reg_value BUN_REGISTER_X86_64_RBP = 6"
| "reg_value BUN_REGISTER_X86_64_RSP = 7"
| "reg_value BUN_REGISTER_X86_64_R8 = 8"
| "reg_value BUN_REGISTER_X86_64_R9 = 9"
| "reg_value BUN_REGISTER_X86_64_R10 = 10"
| "reg_value BUN_REGISTER_X86_64_R11 = 11"
| "reg_value BUN_REGISTER_X86_64_R12 = 12"
| "reg_value BUN_REGISTER_X86_64_R13 = 13"
| "reg_value BUN_REGISTER_X86_64_R14 = 14"
| "reg_value BUN_REGISTER_X86_64_R15 = 15"
| "reg_value BUN_REGISTER_X86_64_RIP = 16"
| "reg_value BUN_REGISTER_X86_EAX = 17"
| "reg_value BUN_REGISTER_X86_EBX = 18"
| "reg_value BUN_REGISTER_X86_ECX = 19"
| "reg_value BUN_REGISTER_X86_EDX = 20"
| "reg_value BUN_REGISTER_X86_ESI = 21"
| "reg_value BUN_REGISTER_X86_EDI = 22"
| "reg_value BUN_REGISTER_X86_EBP = 23"
| "reg_value BUN_REGISTER_X86_ESP = 24"
| "reg_value BUN_REGISTER_X86_EIP = 25"
| "reg_value BUN_REGISTER_AARCH64_X0 = 26"
| "reg_value BUN_REGISTER_AARCH64_X1 = 27"
| "reg_value BUN_REGISTER_AARCH64_X2 = 28"
| "reg_value BUN_REGISTER_AARCH64_X3 = 29"
| "reg_value BUN_REGISTER_AARCH64_X4 = 30"
| "reg_value BUN_REGISTER_AARCH64_X5 = 31"
| "reg_value BUN_REGISTER_AARCH64_X6 = 32"
| "reg_value BUN_REGISTER_AARCH64_X7 = 33"
| "reg_value BUN_REGISTER_AARCH64_X8 = 34"
| "reg_value BUN_REGISTER_AARCH64_X9 = 35"
| "reg_value BUN_REGISTER_AARCH64_X10 = 36"
| "reg_value BUN_REGISTER_AARCH64_X11 = 37"
| "reg_value BUN_REGISTER_AARCH64_X12 = 38"
| "reg_value BUN_REGISTER_AARCH64_X13 = 39"
| "reg_value BUN_REGISTER_AARCH64_X14 = 40"
| "reg_value BUN_REGISTER_AARCH64_X15 = 41"
| "reg_value BUN_REGISTER_AARCH64_X16 = 42"
| "reg_value BUN_REGISTER_AARCH64_X17 = 43"
| "reg_value BUN_REGISTER_AARCH64_X18 = 44"
| "reg_value BUN_REGISTER_AARCH64_X19 = 45"
| "reg_value BUN_REGISTER_AARCH64_X20 = 46"
| "reg_value BUN_REGISTER_AARCH64_X21 = 47"
| "reg_value BUN_REGISTER_AARCH64_X22 = 48"
| "reg_value BUN_REGISTER_AARCH64_X23 = 49"
| "reg_value BUN_REGISTER_AARCH64_X24 = 50"
| "reg_value BUN_REGISTER_AARCH64_X25 = 51"
| "reg_value BUN_REGISTER_AARCH64_X26 = 52"
| "reg_value BUN_REGISTER_AARCH64_X27 = 53"
| "reg_value BUN_REGISTER_AARCH64_X28 = 54"
| "reg_value BUN_REGISTER_AARCH64_X29 = 55"
| "reg_value BUN_REGISTER_AARCH64_X30 = 56"
| "reg_value BUN_REGISTER_AARCH64_X31 = 57"
| "reg_value BUN_REGISTER_AARCH64_PC = 58"
| "reg_value BUN_REGISTER_AARCH64_PSTATE = 59"
| "reg_value BUN_REGISTER_ARM_R0 = 60"
| "reg_value BUN_REGISTER_ARM_R1 = 61"
| "reg_value BUN_REGISTER_ARM_R2 = 62"
| "reg_value BUN_REGISTER_ARM_R3 = 63"
| "reg_value BUN_REGISTER_ARM_R4 = 64"
| "reg_value BUN_REGISTER_ARM_R5 = 65"
| "reg_value BUN_REGISTER_ARM_R6 = 66"
| "reg_value BUN_REGISTER_ARM_R7 = 67"
| "reg_value BUN_REGISTER_ARM_R8 = 68"
| "reg_value BUN_REGISTER_ARM_R9 = 69"
| "reg_value BUN_REGISTER_ARM_R10 = 70"
| "reg_value BUN_REGISTER_ARM_R11 = 71"
| "reg_value BUN_REGISTER_ARM_R12 = 72"
| "reg_value BUN_REGISTER_ARM_R13 = 73"
| "reg_value BUN_REGISTER_ARM_R14 = 74"
| "reg_value BUN_REGISTER_ARM_R15 = 75"
| "reg_value BUN_REGISTER_ARM_PSTATE = 76"

definition BUN_REGISTER_COUNT :: nat where
  "BUN_REGISTER_COUNT = 77"

lemma reg_value_nth: "map reg_value bun_registers = [0..<BUN_REGISTER_COUNT]"
  by (simp add: bun_registers_def BUN_REGISTER_COUNT_def upt_conv_Cons)

lemma length_bun_registers: "length bun_registers = BUN_REGISTER_COUNT"
  by (simp add: bun_registers_def BUN_REGISTER_COUNT_def)

lemma bun_registers_complete: "r \<in> set bun_registers"
  by (cases r) (simp_all add: bun_registers_def)

lemma reg_value_bound: "reg_value r < BUN_REGISTER_COUNT"
proof -
  have "reg_value r \<in> set (map reg_value bun_registers)"
    using bun_registers_complete by simp
  then show ?thesis
    by (simp add: reg_value_nth)
qed

lemma distinct_reg_values: "distinct (map reg_value bun_registers)"
  by (simp add: reg_value_nth)

lemma reg_value_inject: "reg_value r = reg_value s \<Longrightarrow> r = s"
  using distinct_reg_values bun_registers_complete
  by (auto simp: distinct_map inj_on_def)

text \<open>Registers are ordered by their value, as the integers C makes of them.\<close>

instantiation bun_register :: linorder
begin

definition less_eq_bun_register :: "bun_register \<Rightarrow> bun_register \<Rightarrow> bool" where
  "r \<le> s \<longleftrightarrow> reg_value r \<le> reg_value s"

definition less_bun_register :: "bun_register \<Rightarrow> bun_register \<Rightarrow> bool" where
  "r < s \<longleftrightarrow> reg_value r < reg_value s"

instance
  by standard (auto simp: less_eq_bun_register_def less_bun_register_def dest: reg_value_inject)

end

subsection \<open>Names\<close>

text \<open>The \<open>CASE\<close> lines of the \<open>switch\<close>, in order.\<close>

definition register_cases :: "(bun_register \<times> string) list" where
  "register_cases =
    [(BUN_REGISTER_X86_64_RAX, ''BUN_REGISTER_X86_64_RAX''),
     (BUN_REGISTER_X86_64_RBX, ''BUN_REGISTER_X86_64_RBX''),
     (BUN_REGISTER_X86_64_RCX, ''BUN_REGISTER_X86_64_RCX''),
     (BUN_REGISTER_X86_64_RDX, ''BUN_REGISTER_X86_64_RDX''),
     (BUN_REGISTER_X86_64_RSI, ''BUN_REGISTER_X86_64_RSI''),
     (BUN_REGISTER_X86_64_RDI, ''BUN_REGISTER_X86_64_RDI''),
     (BUN_REGISTER_X86_64_RBP, ''BUN_REGISTER_X86_64_RBP''),
     (BUN_REGISTER_X86_64_RSP, ''BUN_REGISTER_X86_64_RSP''),
     (BUN_REGISTER_X86_64_R8, ''BUN_REGISTER_X86_64_R8''),
     (BUN_REGISTER_X86_64_R9, ''BUN_REGISTER_X86_64_R9''),
     (BUN_REGISTER_X86_64_R10, ''BUN_REGISTER_X86_64_R10''),
     (BUN_REGISTER_X86_64_R11, ''BUN_REGISTER_X86_64_R11''),
     (BUN_REGISTER_X86_64_R12, ''BUN_REGISTER_X86_64_R12''),
     (BUN_REGISTER_X86_64_R13, ''BUN_REGISTER_X86_64_R13''),
     (BUN_REGISTER_X86_64_R14, ''BUN_REGISTER_X86_64_R14''),
     (BUN_REGISTER_X86_64_R15, ''BUN_REGISTER_X86_64_R15''),
     (BUN_REGISTER_X86_64_RIP, ''BUN_REGISTER_X86_64_RIP''),
     (BUN_REGISTER_X86_EAX, ''BUN_REGISTER_X86_EAX''),
     (BUN_REGISTER_X86_EBX, ''BUN_REGISTER_X86_EBX''),
     (BUN_REGISTER_X86_ECX, ''BUN_REGISTER_X86_ECX''),
     (BUN_REGISTER_X86_EDX, ''BUN_REGISTER_X86_EDX''),
     (BUN_REGISTER_X86_ESI, ''BUN_REGISTER_X86_ESI''),
     (BUN_REGISTER_X86_EDI, ''BUN_REGISTER_X86_EDI''),
     (BUN_REGISTER_X86_EBP, ''BUN_REGISTER_X86_EBP''),
     (BUN_REGISTER_X86_ESP, ''BUN_REGISTER_X86_ESP''),
     (BUN_REGISTER_X86_EIP, ''BUN_REGISTER_X86_EIP''),
     (BUN_REGISTER_AARCH64_X0, ''BUN_REGISTER_AARCH64_X0''),
     (BUN_REGISTER_AARCH64_X1, ''BUN_REGISTER_AARCH64_X1''),
     (BUN_REGISTER_AARCH64_X2, ''BUN_REGISTER_AARCH64_X2''),
     (BUN_REGISTER_AARCH64_X3, ''BUN_REGISTER_AARCH64_X3''),
     (BUN_REGISTER_AARCH64_X4, ''BUN_REGISTER_AARCH64_X4''),
     (BUN_REGISTER_AARCH64_X5, ''BUN_REGISTER_AARCH64_X5''),
     (BUN_REGISTER_AARCH64_X6, ''BUN_REGISTER_AARCH64_X6''),
     (BUN_REGISTER_AARCH64_X7, ''BUN_REGISTER_AARCH64_X7''),
     (BUN_REGISTER_AARCH64_X8, ''BUN_REGISTER_AARCH64_X8''),
     (BUN_REGISTER_AARCH64_X9, ''BUN_REGISTER_AARCH64_X9''),
     (BUN_REGISTER_AARCH64_X10, ''BUN_REGISTER_AARCH64_X10''),
     (BUN_REGISTER_AARCH64_X11, ''BUN_REGISTER_AARCH64_X11''),
     (BUN_REGISTER_AARCH64_X12, ''BUN_REGISTER_AARCH64_X12''),
     (BUN_REGISTER_AARCH64_X13, ''BUN_REGISTER_AARCH64_X13''),
     (BUN_REGISTER_AARCH64_X14, ''BUN_REGISTER_AARCH64_X14''),
     (BUN_REGISTER_AARCH64_X15, ''BUN_REGISTER_AARCH64_X15''),
     (BUN_REGISTER_AARCH64_X16, ''BUN_REGISTER_AARCH64_X16''),
     (BUN_REGISTER_AARCH64_X17, ''BUN_REGISTER_AARCH64_X17''),
     (BUN_REGISTER_AARCH64_X18, ''BUN_REGISTER_AARCH64_X18''),
     (BUN_REGISTER_AARCH64_X19, ''BUN_REGISTER_AARCH64_X19''),
     (BUN_REGISTER_AARCH64_X20, ''BUN_REGISTER_AARCH64_X20''),
     (BUN_REGISTER_AARCH64_X21, ''BUN_REGISTER_AARCH64_X21''),
     (BUN_REGISTER_AARCH64_X22, ''BUN_REGISTER_AARCH64_X22''),
     (BUN_REGISTER_AARCH64_X23, ''BUN_REGISTER_AARCH64_X23''),
     (BUN_REGISTER_AARCH64_X24, ''BUN_REGISTER_AARCH64_X24''),
     (BUN_REGISTER_AARCH64_X25, ''BUN_REGISTER_AARCH64_X25''),
     (BUN_REGISTER_AARCH64_X26, ''BUN_REGISTER_AARCH64_X26''),
     (BUN_REGISTER_AARCH64_X27, ''BUN_REGISTER_AARCH64_X27''),
     (BUN_REGISTER_AARCH64_X28, ''BUN_REGISTER_AARCH64_X28''),
     (BUN_REGISTER_AARCH64_X29, ''BUN_REGISTER_AARCH64_X29''),
     (BUN_REGISTER_AARCH64_X30, ''BUN_REGISTER_AARCH64_X30''),
     (BUN_REGISTER_AARCH64_X31, ''BUN_REGISTER_AARCH64_X31''),
     (BUN_REGISTER_AARCH64_PC, ''BUN_REGISTER_AARCH64_PC''),
     (BUN_REGISTER_AARCH64_PSTATE, ''BUN_REGISTER_AARCH64_PSTATE''),
     (BUN_REGISTER_ARM_R0, ''BUN_REGISTER_ARM_R0''),
     (BUN_REGISTER_ARM_R1, ''BUN_REGISTER_ARM_R1''),
     (BUN_REGISTER_ARM_R2, ''BUN_REGISTER_ARM_R2''),
     (BUN_REGISTER_ARM_R3, ''BUN_REGISTER_ARM_R3''),
     (BUN_REGISTER_ARM_R4, ''BUN_REGISTER_ARM_R4''),
     (BUN_REGISTER_ARM_R5, ''BUN_REGISTER_ARM_R5''),
     (BUN_REGISTER_ARM_R6, ''BUN_REGISTER_ARM_R6''),
     (BUN_REGISTER_ARM_R7, ''BUN_REGISTER_ARM_R7''),
     (BUN_REGISTER_ARM_R8, ''BUN_REGISTER_ARM_R8''),
     (BUN_REGISTER_ARM_R9, ''BUN_REGISTER_ARM_R9''),
     (BUN_REGISTER_ARM_R10, ''BUN_REGISTER_ARM_R10''),
     (BUN_REGISTER_ARM_R11, ''BUN_REGISTER_ARM_R11''),
     (BUN_REGISTER_ARM_R12, ''BUN_REGISTER_ARM_R12''),
     (BUN_REGISTER_ARM_R13, ''BUN_REGISTER_ARM_R13''),
     (BUN_REGISTER_ARM_R14, ''BUN_REGISTER_ARM_R14''),
     (BUN_REGISTER_ARM_R15, ''BUN_REGISTER_ARM_R15''),
     (BUN_REGISTER_ARM_PSTATE, ''BUN_REGISTER_ARM_PSTATE'')]"

definition bun_register_to_string :: "u16 \<Rightarrow> string" where
  "bun_register_to_string val =
     (case find (\<lambda>(r, s). of_nat (reg_value r) = val) register_cases of
        Some (r, s) \<Rightarrow> s
      | None \<Rightarrow> ''<unknown>'')"

lemma register_cases_keys: "map fst register_cases = bun_registers"
  by (simp add: register_cases_def bun_registers_def)

lemma register_cases_values: "map (\<lambda>(r, s). reg_value r) register_cases = [0..<BUN_REGISTER_COUNT]"
proof -
  have "map (\<lambda>(r, s). reg_value r) register_cases = map reg_value (map fst register_cases)"
    by (simp add: case_prod_beta)
  then show ?thesis
    by (simp add: register_cases_keys reg_value_nth)
qed

lemma length_register_cases: "length register_cases = BUN_REGISTER_COUNT"
  using arg_cong [OF register_cases_values, of length] by simp

lemma register_cases_nth: "i < BUN_REGISTER_COUNT \<Longrightarrow> reg_value (fst (register_cases ! i)) = i"
  using arg_cong [OF register_cases_values, of "\<lambda>xs. xs ! i"]
  by (simp add: length_register_cases case_prod_beta)

lemma register_names_distinct: "distinct (map snd register_cases)"
  by code_simp

lemma register_names_known: "''<unknown>'' \<notin> set (map snd register_cases)"
  by code_simp

lemma reg_word_eq:
  assumes "n < BUN_REGISTER_COUNT"
  shows "(of_nat n :: u16) = v \<longleftrightarrow> unat v = n"
  using assms by (auto simp: BUN_REGISTER_COUNT_def unat_of_nat)

lemma find_register:
  "find (\<lambda>(r, s). of_nat (reg_value r) = (v :: u16)) register_cases =
     (if unat v < BUN_REGISTER_COUNT then Some (register_cases ! unat v) else None)"
proof (cases "unat v < BUN_REGISTER_COUNT")
  case True
  have hit: "(case register_cases ! j of (r, s) \<Rightarrow> of_nat (reg_value r) = v) \<longleftrightarrow> j = unat v"
    if "j \<le> unat v" for j
    using that True register_cases_nth [of j] by (auto simp: case_prod_beta reg_word_eq)
  show ?thesis
    using True unfolding if_P [OF True] find_Some_iff
    by (intro exI [of _ "unat v"] conjI allI impI)
      (simp_all only: hit length_register_cases less_imp_le nat_less_le order_refl simp_thms)
next
  case False
  then show ?thesis
    using reg_value_bound
    by (auto simp: find_None_iff reg_word_eq)
qed

lemma register_to_string_nth:
  "bun_register_to_string v =
     (if unat v < BUN_REGISTER_COUNT then snd (register_cases ! unat v) else ''<unknown>'')"
  by (simp add: bun_register_to_string_def find_register case_prod_beta)

subsection \<open>Properties\<close>

text \<open>
  \<open>bun_register_to_string\<close> names every member of \<open>enum bun_register\<close> with a name of
  its own, distinct from the answer for values outside the enumeration.
\<close>

theorem register_names_injective:
  "bun_register_to_string v = bun_register_to_string w \<longleftrightarrow>
    v = w \<or> (BUN_REGISTER_COUNT \<le> unat v \<and> BUN_REGISTER_COUNT \<le> unat w)"
proof -
  have nth: "snd (register_cases ! i) = map snd register_cases ! i"
    and mem: "snd (register_cases ! i) \<noteq> ''<unknown>''" if "i < BUN_REGISTER_COUNT" for i
  proof -
    show nth: "snd (register_cases ! i) = map snd register_cases ! i"
      using that by (simp add: length_register_cases)
    have "map snd register_cases ! i \<in> set (map snd register_cases)"
      using that by (intro nth_mem) (simp add: length_register_cases)
    with register_names_known nth show "snd (register_cases ! i) \<noteq> ''<unknown>''"
      by metis
  qed
  have inj: "snd (register_cases ! i) = snd (register_cases ! j) \<longleftrightarrow> i = j"
    if "i < BUN_REGISTER_COUNT" "j < BUN_REGISTER_COUNT" for i j
    using that nth_eq_iff_index_eq [OF register_names_distinct, of i j]
    by (simp only: nth length_map length_register_cases)
  consider (both) "unat v < BUN_REGISTER_COUNT" "unat w < BUN_REGISTER_COUNT"
    | (left) "unat v < BUN_REGISTER_COUNT" "\<not> unat w < BUN_REGISTER_COUNT"
    | (right) "\<not> unat v < BUN_REGISTER_COUNT" "unat w < BUN_REGISTER_COUNT"
    | (none) "\<not> unat v < BUN_REGISTER_COUNT" "\<not> unat w < BUN_REGISTER_COUNT"
    by blast
  then show ?thesis
  proof cases
    case both
    with inj [OF both] show ?thesis
      by (simp add: register_to_string_nth word_unat_eq_iff)
  next
    case left
    with mem [OF left(1)] show ?thesis
      by (simp add: register_to_string_nth) metis
  next
    case right
    with mem [OF right(2), symmetric] show ?thesis
      by (simp add: register_to_string_nth) metis
  next
    case none
    then show ?thesis
      by (simp add: register_to_string_nth)
  qed
qed

end
