(* ===== verification/Bun_Print.thy ===== *)
theory Bun_Print
  imports Bun_Parse Bun_Registers Bun_Register_Names
begin

text \<open>
  \<open>bun_reader_print\<close> (\<open>src/bun_stream.c\<close>) and \<open>parse_and_print\<close> of the tool
  \<open>tools/stream_parser/main.c\<close>. The loop over the frames ends on every input: each frame
  moves the cursor forward in memory. What is printed is a list of \<open>fprintf\<close> calls,
  \<open>format_item\<close> gives their text.
\<close>

subsection \<open>Progress of the reader\<close>

lemma read_le_64_progress:
  "read_le_64 m r = Some (v, r') \<Longrightarrow>
    (rw_overflow r' \<and> rw_cursor r' = rw_cursor r) \<or>
    (rw_cursor r' = rw_cursor r + 8 \<and> rw_cursor r + 8 \<le> length m \<and> rw_overflow r' = rw_overflow r)"
  by (auto simp: read_le_64_def split: if_splits bind_splits dest: load_word_SomeD)

lemma read_le_16_cursor: "read_le_16 m r = Some (v, r') \<Longrightarrow> rw_cursor r \<le> rw_cursor r'"
  by (auto simp: read_le_16_def split: if_splits bind_splits)

lemma safe_strlen_cursor: "safe_strlen m r = Some (v, r') \<Longrightarrow> rw_cursor r' = rw_cursor r"
  by (auto simp: safe_strlen_def Let_def split: if_splits bind_splits)

lemma read_registers_cursor:
  "read_registers m c r f = Some (True, r', f') \<Longrightarrow> rw_cursor r \<le> rw_cursor r'"
  by (auto simp: read_registers_def Let_def split: if_splits bind_splits dest!: read_le_16_cursor)

lemma read_filename_cursor:
  "read_filename m c r f = Some (True, r', f') \<Longrightarrow> rw_cursor r \<le> rw_cursor r'"
  by (auto simp: read_filename_def split: if_splits bind_splits
      dest!: read_registers_cursor safe_strlen_cursor)

lemma read_symbol_cursor:
  "read_symbol m c r f = Some (True, r', f') \<Longrightarrow> rw_cursor r \<le> rw_cursor r'"
  by (auto simp: read_symbol_def split: if_splits bind_splits
      dest!: read_filename_cursor safe_strlen_cursor)

lemma bun_frame_read_unfold:
  "bun_frame_read m r f =
     do {
       h \<leftarrow> header_size m r;
       if rw_size r - (of_nat (rw_cursor r) - of_nat (rw_buffer r)) = 0 then Some (False, r, f)
       else if sint (ucast h - (of_nat (rw_cursor r) - of_nat (rw_buffer r)) :: u64) \<le> 0
       then Some (False, r, f)
       else do {
         (a, r1) \<leftarrow> read_le_64 m r;
         (l, r2) \<leftarrow> read_le_64 m r1;
         (d, r3) \<leftarrow> read_le_64 m r2;
         if rw_overflow r3
         then Some (False, r3\<lparr>rw_cursor := rw_cursor r\<rparr>, f\<lparr>addr := a, line_no := l, offset := d\<rparr>)
         else read_symbol m (rw_cursor r) r3 (f\<lparr>addr := a, line_no := l, offset := d\<rparr>)
       }
     }"
  by (simp add: bun_frame_read_def header_size_def read_symbol_def read_filename_def
      read_registers_def Let_def cong: if_cong)

lemma bun_frame_read_progress:
  assumes "bun_frame_read m r f = Some (True, r', f')"
  shows "rw_cursor r < rw_cursor r'" and "rw_cursor r < length m"
  using assms
  by (auto simp: bun_frame_read_unfold split: if_splits bind_splits
      dest!: read_symbol_cursor read_le_64_progress)

lemma bun_frame_read_decreases:
  "bun_frame_read m r f = Some (True, r', f') \<Longrightarrow>
    length m - rw_cursor r' < length m - rw_cursor r"
  using bun_frame_read_progress [of m r f r' f'] by linarith

text \<open>The loop \<open>while (bun_frame_read(&reader, &frame))\<close> of the library's clients.\<close>

function read_all ::
    "mem \<Rightarrow> bun_reader \<Rightarrow> bun_frame \<Rightarrow> (bun_frame list \<times> bun_reader) option" where
  "read_all m r f =
     (case bun_frame_read m r f of
        None \<Rightarrow> None
      | Some (ok, r', f') \<Rightarrow>
          if ok then do { (fs, r'') \<leftarrow> read_all m r' f'; Some (f' # fs, r'') }
          else Some ([], r'))"
  by pat_completeness auto
termination
  by (relation "measure (\<lambda>(m, r, f). length m - rw_cursor r)")
    (auto dest: bun_frame_read_decreases)

declare read_all.simps [simp del]

subsection \<open>Printing\<close>

datatype print_item =
    Print_frame cstr
  | Print_pc u64
  | Print_registers u64
  | Print_register string u32 u64

text \<open>The body of the inner loop, for the indices given.\<close>

fun print_registers :: "bun_frame \<Rightarrow> nat list \<Rightarrow> print_item list option" where
  "print_registers f [] = Some []"
| "print_registers f (i # is) =
     do {
       got \<leftarrow> bun_frame_register_get f (of_nat i);
       (reg, val) \<leftarrow> got;
       rest \<leftarrow> print_registers f is;
       Some (Print_register (bun_register_to_string (ucast reg)) reg val # rest)
     }"

definition print_frame :: "bun_frame \<Rightarrow> print_item list option" where
  "print_frame f =
     do {
       s \<leftarrow> symbol f;
       regs \<leftarrow> print_registers f [0..<unat (register_count f)];
       Some (Print_frame s # Print_pc (addr f) # Print_registers (register_count f) # regs)
     }"

text \<open>The local \<open>struct bun_frame\<close> is an argument: it is not initialized by the code.\<close>

function bun_reader_print ::
    "mem \<Rightarrow> bun_reader \<Rightarrow> bun_frame \<Rightarrow> (print_item list \<times> bun_reader) option" where
  "bun_reader_print m r f =
     (case bun_frame_read m r f of
        None \<Rightarrow> None
      | Some (ok, r', f') \<Rightarrow>
          if ok then do {
            items \<leftarrow> print_frame f';
            (rest, r'') \<leftarrow> bun_reader_print m r' f';
            Some (items @ rest, r'')
          } else Some ([], r'))"
  by pat_completeness auto
termination
  by (relation "measure (\<lambda>(m, r, f). length m - rw_cursor r)")
    (auto dest: bun_frame_read_decreases)

declare bun_reader_print.simps [simp del]

text \<open>The formats of the four \<open>fprintf\<close> calls; \<open>fmt_p\<close> is the C library's \<open>%p\<close>.\<close>

definition hex_digit :: "nat \<Rightarrow> char" where
  "hex_digit d = ''0123456789ABCDEF'' ! (d mod 16)"

fun hex_string :: "nat \<Rightarrow> string" where
  "hex_string n = (if n < 16 then [hex_digit n] else hex_string (n div 16) @ [hex_digit n])"

declare hex_string.simps [simp del]

definition pad4 :: "string \<Rightarrow> string" where
  "pad4 s = replicate (4 - length s) CHR ''0'' @ s"

fun format_item :: "(u64 \<Rightarrow> string) \<Rightarrow> print_item \<Rightarrow> string" where
  "format_item fmt_p (Print_frame s) =
     ''Frame: '' @ map (\<lambda>b. char_of (unat b)) s @ [CHR 0x0A]"
| "format_item fmt_p (Print_pc a) = ''  PC: '' @ fmt_p a @ [CHR 0x0A]"
| "format_item fmt_p (Print_registers n) = ''  Registers: '' @ dec_string (unat n) @ [CHR 0x0A]"
| "format_item fmt_p (Print_register s reg val) =
     ''    Register '' @ s @ ''('' @ pad4 (hex_string (unat reg)) @ ''): '' @
     hex_string (unat val) @ [CHR 0x0A]"

subsection \<open>The stream parser tool\<close>

text \<open>
  \<open>parse_and_print(data, len)\<close> on a file's contents. \<open>b0\<close>, \<open>r0\<close> and \<open>f0\<close> are the
  uninitialized locals. The result is what is printed; the function has no return
  statement after the print.
\<close>

definition parse_and_print ::
    "bun_buffer \<Rightarrow> bun_reader \<Rightarrow> bun_frame \<Rightarrow> byte list \<Rightarrow> print_item list option" where
  "parse_and_print b0 r0 f0 data =
     do {
       (ok, b, m) \<leftarrow> bun_buffer_init data b0 0 (of_nat (length data));
       if \<not> ok then Some []
       else do {
         (ok', r) \<leftarrow> bun_reader_init m r0 b NULL;
         if \<not> ok' then Some []
         else do {
           (items, r') \<leftarrow> bun_reader_print m r f0;
           Some items
         }
       }
     }"

text \<open>
  The tool's \<open>main\<close>: whether the file opens, what \<open>ftell\<close> says of its end, the block \<open>malloc\<close>
  returns for a size and the bytes \<open>fread\<close> stores into it. When the file does not open the
  code frees a pointer it never set (\<open>None\<close>).
\<close>

record tool_env =
  te_fopen :: bool
  te_ftell :: int
  te_malloc :: "u64 \<Rightarrow> byte list option"
  te_fread :: "byte list"

datatype tool_output = Usage | Error_message | Printed "print_item list"

definition stream_parser_main ::
    "int \<Rightarrow> tool_env \<Rightarrow> bun_buffer \<Rightarrow> bun_reader \<Rightarrow> bun_frame \<Rightarrow> (int \<times> tool_output) option" where
  "stream_parser_main argc E b0 r0 f0 =
     (if argc \<noteq> 2 then Some (1, Usage)
      else if \<not> te_fopen E then None
      else
        (case te_malloc E (word_of_int (te_ftell E)) of
           None \<Rightarrow> Some (2, Error_message)
         | Some block \<Rightarrow>
             do {
               let n = min (length (te_fread E)) (length block);
               items \<leftarrow> parse_and_print b0 r0 f0 (take n (te_fread E) @ drop n block);
               Some (0, Printed items)
             }))"

subsection \<open>Printing is reading\<close>

text \<open>What is printed in terms of the frames \<open>read_all\<close> gives.\<close>

fun print_frames :: "bun_frame list \<Rightarrow> print_item list option" where
  "print_frames [] = Some []"
| "print_frames (f # fs) =
     do { a \<leftarrow> print_frame f; b \<leftarrow> print_frames fs; Some (a @ b) }"

lemma bun_reader_print_read_all:
  assumes "read_all m r f = Some (fs, r')"
  shows "bun_reader_print m r f = do { items \<leftarrow> print_frames fs; Some (items, r') }"
  using assms
proof (induction m r f arbitrary: fs r' rule: read_all.induct)
  case (1 m r f)
  from "1.prems" obtain ok r1 f1 where rd: "bun_frame_read m r f = Some (ok, r1, f1)"
    by (subst (asm) read_all.simps) (auto split: option.splits)
  show ?case
  proof (cases ok)
    case True
    with rd "1.prems" obtain gs where gs: "read_all m r1 f1 = Some (gs, r')" "fs = f1 # gs"
      by (subst (asm) read_all.simps) (auto split: bind_splits)
    have "bun_reader_print m r1 f1 = do { items \<leftarrow> print_frames gs; Some (items, r') }"
      using "1.IH" [OF rd refl refl True gs(1)] .
    with rd True gs show ?thesis
      by (subst bun_reader_print.simps) (auto split: bind_splits)
  next
    case False
    with rd "1.prems" show ?thesis
      by (subst bun_reader_print.simps) (simp add: read_all.simps [of m r f])
  qed
qed

subsection \<open>Properties\<close>

text \<open>The registers of a frame the parser returns lie in its register array.\<close>

lemma frame_of_parsed_registers_ok:
  assumes "parse_frame bs = Some (p, rest)"
  shows "unat (register_count (frame_of_parsed p f)) * 10 \<le>
    length (register_data (frame_of_parsed p f)) \<or> register_count (frame_of_parsed p f) = 0"
proof -
  from assms obtain n b where n: "p_count p = n" "n = le_decode (take 2 b)"
    "p_registers p = take (n * REGISTER_SIZE) (drop 2 b)" "\<not> length b < 2"
    "\<not> length b - 2 < n * REGISTER_SIZE"
    by (auto simp: parse_frame_def Let_def split: if_splits bind_splits)
  have "n < 2 ^ 16"
    using n le_decode_two [of "take 2 b"] by simp
  then have "unat (of_nat n :: u64) = n"
    by (simp add: unat_of_nat)
  then show ?thesis
    using n by (auto simp: frame_of_parsed_def REGISTER_SIZE_def Let_def)
qed

lemma print_registers_total:
  assumes "unat (register_count f) * 10 \<le> length (register_data f)"
    and "\<forall>i \<in> set is. i < unat (register_count f)"
  shows "\<exists>items. print_registers f is = Some items"
  using assms(2)
proof (induction "is")
  case Nil
  then show ?case by simp
next
  case (Cons i "is")
  then have i: "i < unat (register_count f)"
    by simp
  then have "i < 2 ^ 64"
    using unsigned_less [of "register_count f", where 'a = nat] by simp
  then have ui: "unat (of_nat i :: u64) = i"
    by (simp add: unat_of_nat)
  have "10 * i + 10 \<le> length (register_data f)"
    using i assms(1) by linarith
  then have "10 * i + 2 \<le> length (register_data f)" "10 * i + 2 + 8 \<le> length (register_data f)"
    by linarith+
  then obtain a b where "load16 (register_data f) (10 * i) = Some a"
    "load64 (register_data f) (10 * i + 2) = Some b"
    using load_word_exists(1,3) by blast
  then have "bun_frame_register_get f (of_nat i) = Some (Some (ucast a, b))"
    using i ui
    by (simp add: bun_frame_register_get_def word_le_nat_alt REGISTER_SIZE_def Let_def
        del: add_2_eq_Suc')
  with Cons show ?case
    by auto
qed

lemma print_parsed_frame:
  assumes "parse_frame bs = Some (p, rest)"
  shows "\<exists>items. print_frame (frame_of_parsed p f) = Some items"
proof -
  let ?f = "frame_of_parsed p f"
  have "\<exists>items. print_registers ?f [0..<unat (register_count ?f)] = Some items"
    using frame_of_parsed_registers_ok [OF assms, of f]
    by (elim disjE) (auto intro: print_registers_total)
  moreover have "symbol ?f = Some (p_symbol p)"
    by (simp add: frame_of_parsed_def Let_def)
  ultimately show ?thesis
    by (auto simp: print_frame_def)
qed

lemma bun_reader_print_ends:
  assumes "rw_ok m r"
  shows "\<exists>items r'. bun_reader_print m r f = Some (items, r')"
  using assms
proof (induction m r f rule: bun_reader_print.induct)
  case (1 m r f)
  show ?case
  proof (rule bun_frame_read_total [OF "1.prems", of f])
    fix p rest
    assume parse: "parse_frame (rw_rest m r) = Some (p, rest)"
      and run: "bun_frame_read m r f =
        Some (True, rw_advance r (rw_left r - length rest), frame_of_parsed p f)"
    have ok: "rw_ok m (rw_advance r (rw_left r - length rest))"
      using "1.prems" by (simp add: rw_ok_advance)
    obtain items where items: "print_frame (frame_of_parsed p f) = Some items"
      using print_parsed_frame [OF parse] by blast
    from "1.IH" [OF run refl refl] items ok show ?thesis
      by (subst bun_reader_print.simps) (auto simp: run)
  qed (subst bun_reader_print.simps; simp)+
qed

text \<open>
  C22: \<open>bun_reader_print\<close> ends on every input, without leaving the buffer and without
  using a pointer or a value no frame has set, whatever the bytes of the stream are.
\<close>

theorem bun_reader_print_total:
  assumes "rw_ok m r"
  shows "\<exists>items r'. bun_reader_print m r f = Some (items, r')"
  using assms by (rule bun_reader_print_ends)

text \<open>
  What the report of a frame is to say: the symbol, the program counter, the number of
  registers, and each register by name, number and value, in order. The frame a reader gets
  for a written frame is reported as the written one.
\<close>

definition frame_report :: "bun_frame \<Rightarrow> print_item list" where
  "frame_report f =
     Print_frame (sym_bytes f) # Print_pc (addr f) # Print_registers (register_count f) #
     map (\<lambda>(reg, val). Print_register (bun_register_to_string (ucast reg)) reg val) (frame_registers f)"

lemma frame_registers_reg_bytes:
  "frame_registers f =
    map (\<lambda>i. dec_reg (take 10 (drop (10 * i) (reg_bytes f)))) [0..<unat (register_count f)]"
proof -
  have "take 10 (drop (10 * i) (reg_bytes f)) = take 10 (drop (10 * i) (register_data f))"
    if "i < unat (register_count f)" for i
  proof -
    have "min 10 (10 * unat (register_count f) - 10 * i) = 10"
      using that by simp
    then show ?thesis
      by (simp add: reg_bytes_def REGISTER_SIZE_def drop_take mult.commute)
  qed
  then show ?thesis
    by (simp add: frame_registers_def)
qed

lemma print_registers_report:
  assumes "10 * unat (register_count f) \<le> length (register_data f)"
    and "\<forall>i \<in> set is. i < unat (register_count f)"
  shows "print_registers f is = Some (map (\<lambda>i. case frame_registers f ! i of
    (reg, val) \<Rightarrow> Print_register (bun_register_to_string (ucast reg)) reg val) is)"
  using assms(2)
proof (induction "is")
  case (Cons i "is")
  then have "unat (of_nat i :: u64) = i"
    using unsigned_less [of "register_count f", where 'a = nat] by (simp add: unat_of_nat)
  with Cons show ?case
    by (simp add: register_get_in_data [OF assms(1)] case_prod_beta)
qed simp

lemma print_frame_report:
  assumes same: "parsed_of_frame g = parsed_of_frame f" and f: "frame_ok f"
    and print: "print_frame g = Some items"
  shows "items = frame_report f"
proof -
  have parts: "sym_bytes g = sym_bytes f" "addr g = addr f" "reg_bytes g = reg_bytes f"
    "register_count g = register_count f"
    using same by (simp_all add: parsed_of_frame_def word_unat_eq_iff)
  have len: "10 * unat (register_count f) \<le> length (register_data f)"
    using f by (simp add: frame_ok_def REGISTER_SIZE_def)
  then have "length (reg_bytes f) = 10 * unat (register_count f)"
    by (simp add: reg_bytes_def REGISTER_SIZE_def)
  then have "length (reg_bytes g) = 10 * unat (register_count g)"
    by (simp only: parts)
  then have len': "10 * unat (register_count g) \<le> length (register_data g)"
    by (simp add: reg_bytes_def REGISTER_SIZE_def)
  have regs: "frame_registers g = frame_registers f"
    using parts(3,4) by (simp add: frame_registers_reg_bytes)
  obtain s where s: "symbol g = Some s"
    using print by (auto simp: print_frame_def split: bind_splits)
  have "print_registers g [0..<unat (register_count g)] = Some (map (\<lambda>i. case frame_registers g ! i of
      (reg, val) \<Rightarrow> Print_register (bun_register_to_string (ucast reg)) reg val)
      [0..<length (frame_registers g)])"
    using print_registers_report [OF len'] by simp
  also have "\<dots> = Some (map (\<lambda>(reg, val). Print_register (bun_register_to_string (ucast reg)) reg val)
      (frame_registers g))"
    by (simp add: list_eq_iff_nth_eq case_prod_beta)
  finally have "print_frame g = Some (Print_frame s # Print_pc (addr g) # Print_registers (register_count g) #
      map (\<lambda>(reg, val). Print_register (bun_register_to_string (ucast reg)) reg val) (frame_registers g))"
    using s by (simp add: print_frame_def)
  moreover have "s = sym_bytes g"
    using s by (simp add: sym_bytes_def)
  ultimately show ?thesis
    using print parts regs by (simp add: frame_report_def)
qed

lemma print_frames_report:
  assumes "map parsed_of_frame gs = map parsed_of_frame fs" and "\<forall>f \<in> set fs. frame_ok f"
    and "print_frames gs = Some items"
  shows "items = concat (map frame_report fs)"
  using assms
proof (induction gs arbitrary: fs items)
  case (Cons g gs)
  then obtain f fs' where fs: "fs = f # fs'" "parsed_of_frame g = parsed_of_frame f"
    "map parsed_of_frame gs = map parsed_of_frame fs'"
    by auto
  obtain a b where ab: "print_frame g = Some a" "print_frames gs = Some b" "items = a @ b"
    using Cons.prems(3) by (auto split: bind_splits)
  then show ?case
    using Cons.IH [OF fs(3) _ ab(2)] print_frame_report [OF fs(2) _ ab(1)] Cons.prems(2) fs(1) by simp
qed simp

lemma parse_and_print_zeroed:
  assumes "length data < 2 ^ 64"
  shows "parse_and_print b0 r0 f0 data = Some []"
proof (cases "length data < 40")
  case True
  then have "(of_nat (length data) :: u64) < 40"
    using assms by (simp add: word_less_nat_alt unat_of_nat)
  then show ?thesis
    by (simp add: parse_and_print_def bun_buffer_init_def layout_defs)
next
  case False
  let ?n = "of_nat (length data) :: u64"
  let ?m = "patch data 0 (replicate 40 0)"
  have n: "unat ?n = length data"
    using assms by (simp add: unat_of_nat)
  have "take 8 (drop 16 ?m) = replicate 8 0"
    using False by (intro nth_equalityI) (auto simp: nth_patch)
  then have "at_mem ?m 16 (enc64 0)"
    using False by (simp add: at_mem_def enc64_def le_encode_zero)
  then have "load64 ?m 16 = Some 0"
    by (rule load64_at)
  moreover have "bun_buffer_init data b0 0 ?n = Some (True, \<lparr>buf_data = 0, buf_size = ?n\<rparr>, ?m)"
    using False n by (simp add: bun_buffer_init_def layout_defs store_patch word_less_nat_alt)
  ultimately show ?thesis
    by (simp add: parse_and_print_def bun_reader_init_def bun_buffer_payload_def off_header_def
        hdr_magic_def BUN_HEADER_MAGIC_def)
qed

text \<open>
  The stream parser tool prints nothing, for any file: it initializes the buffer
  before it looks at it, and that clears the header it then looks for.
\<close>

theorem parse_and_print_nothing:
  assumes "length data < 2 ^ 64"
  shows "parse_and_print b0 r0 f0 data = Some []"
  using assms by (rule parse_and_print_zeroed)

text \<open>So the tool prints nothing for any file: it succeeds on every file it can load.\<close>

lemma stream_parser_prints_nothing:
  assumes "te_fopen E" and "te_malloc E (word_of_int (te_ftell E)) = Some block"
    and "length block < 2 ^ 64"
  shows "stream_parser_main 2 E b0 r0 f0 = Some (0, Printed [])"
  using assms by (simp add: stream_parser_main_def parse_and_print_zeroed Let_def)

theorem bun_reader_print_total_witness:
  "\<exists>items r'. bun_reader_print sample_mem (sample_rw 100) zero_frame = Some (items, r')"
  by (rule bun_reader_print_total) (rule sample_mem_ok)

theorem parse_and_print_nothing_witness:
  "parse_and_print \<lparr>buf_data = 0, buf_size = 0\<rparr> (sample_rw 0) zero_frame [1, 2, 3] = Some []"
  by (rule parse_and_print_nothing) simp

end
