(* ===== verification/Bun_Roundtrip.thy ===== *)
theory Bun_Roundtrip
  imports Bun_Print
begin

text \<open>
  From a raw memory area to the frames read back: initialization, a sequence of
  \<open>bun_frame_write\<close>, a second initialization as a reader and the client's read loop.
  \<open>readable\<close> is what the two-byte deficit of the header's size lets the reader see.
\<close>

subsection \<open>Initialization\<close>

text \<open>What \<open>bun_buffer_init\<close> leaves: an area of at least 40 bytes that lies in memory.\<close>

definition buffer_ok :: "mem \<Rightarrow> bun_buffer \<Rightarrow> bool" where
  "buffer_ok m b \<longleftrightarrow>
     BUN_BUFFER_PAYLOAD_HEADER_SIZE \<le> unat (buf_size b) \<and>
     buf_data b + unat (buf_size b) \<le> length m \<and> length m < 2 ^ 63"

definition header_bytes :: "bun_architecture \<Rightarrow> u32 \<Rightarrow> byte list" where
  "header_bytes arch tid =
     enc64 BUN_HEADER_MAGIC @ enc16 1 @ enc16 (arch_value arch) @ enc32 24 @ enc32 tid @
     enc16 (word_of_int (backend_value BUN_BACKEND_NONE))"

lemma length_header_bytes [simp]: "length (header_bytes arch tid) = 22"
  by (simp add: header_bytes_def)

lemma write_header_patch:
  assumes "h + 24 \<le> length m"
  shows "write_header m h arch tid = Some (patch m h (header_bytes arch tid))"
proof -
  let ?a = "enc64 BUN_HEADER_MAGIC"
  let ?b = "?a @ enc16 1"
  let ?c = "?b @ enc16 (arch_value arch)"
  let ?d = "?c @ enc32 24"
  let ?e = "?d @ enc32 tid"
  have "store m h ?a = Some (patch m h ?a)"
    and "store (patch m h ?a) (h + 8) (enc16 1) = Some (patch m h ?b)"
    and "store (patch m h ?b) (h + 10) (enc16 (arch_value arch)) = Some (patch m h ?c)"
    and "store (patch m h ?c) (h + 12) (enc32 24) = Some (patch m h ?d)"
    and "store (patch m h ?d) (h + 16) (enc32 tid) = Some (patch m h ?e)"
    and "store (patch m h ?e) (h + 20) (enc16 (word_of_int (backend_value BUN_BACKEND_NONE)))
      = Some (patch m h (header_bytes arch tid))"
    using assms
      patch_patch_append [of h ?a "enc16 1" m]
      patch_patch_append [of h ?b "enc16 (arch_value arch)" m]
      patch_patch_append [of h ?c "enc32 24" m]
      patch_patch_append [of h ?d "enc32 tid" m]
      patch_patch_append [of h ?e "enc16 (word_of_int (backend_value BUN_BACKEND_NONE))" m]
    by (simp_all add: store_patch header_bytes_def)
  then show ?thesis
    by (simp add: write_header_def layout_defs)
qed

lemma payload_words:
  assumes "buffer_ok m b"
  shows "unat (bun_buffer_payload_size b) = unat (buf_size b) - 16"
    and "bun_buffer_payload b = buf_data b + 16"
proof -
  have "(16 :: u64) \<le> buf_size b"
    using assms by (simp add: buffer_ok_def layout_defs word_le_nat_alt)
  then show "unat (bun_buffer_payload_size b) = unat (buf_size b) - 16"
    by (simp add: bun_buffer_payload_size_def bun_buffer_payload_def off_header_def unat_sub)
  show "bun_buffer_payload b = buf_data b + 16"
    by (simp add: bun_buffer_payload_def off_header_def)
qed

text \<open>The cursor at the first frame of the buffer.\<close>

definition rw_start :: "bun_buffer \<Rightarrow> ptr \<Rightarrow> bun_writer_reader_base" where
  "rw_start b handle =
     \<lparr>rw_buffer = buf_data b + 16, rw_cursor = buf_data b + 40,
      rw_size = bun_buffer_payload_size b, rw_handle = handle, rw_overflow = False\<rparr>"

lemma rw_start_ok:
  assumes "buffer_ok m b"
  shows "rw_ok m (rw_start b handle)"
    and "rw_left (rw_start b handle) = unat (buf_size b) - 40"
  using assms payload_words [OF assms]
  by (auto simp: rw_ok_def rw_left_def rw_start_def buffer_ok_def layout_defs)

lemma bun_buffer_init_ok:
  assumes "40 \<le> unat sz" and "d + 40 \<le> length m"
  shows "bun_buffer_init m b d sz =
    Some (True, \<lparr>buf_data = d, buf_size = sz\<rparr>, patch m d (replicate 40 0))"
  using assms
  by (simp add: bun_buffer_init_def layout_defs store_patch word_less_nat_alt not_less)

text \<open>
  Whenever \<open>bun_writer_init\<close> succeeds it leaves the cursor at the first frame and the
  header of an empty stream.
\<close>

lemma length_write_once_enter:
  "write_once_enter m p = Some (ok, m') \<Longrightarrow> length m' = length m"
  by (auto simp: write_once_enter_def dest!: length_store split: bind_splits)

lemma bun_writer_init_stages:
  assumes "bun_writer_init hs tid m w b arch handle = Some (True, w', m')"
  shows "\<exists>m2. length m2 = length m \<and> write_header m2 (bun_buffer_payload b) arch tid = Some m' \<and>
    w' = \<lparr>rw_buffer = bun_buffer_payload b,
          rw_cursor = bun_buffer_payload b + sizeof_bun_payload_header,
          rw_size = bun_buffer_payload_size b, rw_handle = handle, rw_overflow = False\<rparr>"
  using assms
  by (auto simp: bun_writer_init_def split: if_splits bind_splits
      dest!: length_store length_write_once_enter)

lemma bun_writer_init_success:
  assumes ok: "buffer_ok m b"
    and init: "bun_writer_init hs tid m w b arch handle = Some (True, w', m')"
  shows "w' = rw_start b handle" and "length m' = length m"
    and "at_mem m' (buf_data b + 16) (header_bytes arch tid)"
proof -
  from bun_writer_init_stages [OF init] obtain m2 where
    len2: "length m2 = length m"
    and m3: "write_header m2 (bun_buffer_payload b) arch tid = Some m'"
    and w': "w' = \<lparr>rw_buffer = bun_buffer_payload b,
               rw_cursor = bun_buffer_payload b + sizeof_bun_payload_header,
               rw_size = bun_buffer_payload_size b, rw_handle = handle, rw_overflow = False\<rparr>"
    by (elim exE conjE)
  show "w' = rw_start b handle"
    using w' payload_words [OF ok] by (simp add: rw_start_def layout_defs)
  have fits: "buf_data b + 16 + 24 \<le> length m2"
    using ok len2 by (simp add: buffer_ok_def layout_defs)
  then have m': "m' = patch m2 (buf_data b + 16) (header_bytes arch tid)"
    using m3 payload_words(2) [OF ok] by (simp add: write_header_patch)
  show "length m' = length m" and "at_mem m' (buf_data b + 16) (header_bytes arch tid)"
    using fits len2 by (simp_all add: m' at_mem_patch_same)
qed

lemma header_bytes_fields:
  assumes "at_mem m h (header_bytes arch tid)"
  shows "load64 m (h + hdr_magic) = Some BUN_HEADER_MAGIC"
    and "load16 m (h + hdr_version) = Some 1"
    and "load16 m (h + hdr_architecture) = Some (arch_value arch)"
    and "load32 m (h + hdr_size) = Some 24"
    and "load32 m (h + hdr_tid) = Some tid"
    and "load16 m (h + hdr_backend) = Some (word_of_int (backend_value BUN_BACKEND_NONE))"
  using assms by (simp_all add: header_bytes_def at_mem_append layout_defs load64_at load32_at
      load16_at add.commute)

lemma bun_reader_init_ok:
  assumes ok: "buffer_ok m b" and magic: "load64 m (buf_data b + 16) = Some BUN_HEADER_MAGIC"
  shows "bun_reader_init m r b handle = Some (True, rw_start b handle)"
proof -
  have "40 \<le> unat (buf_size b)"
    using ok by (simp add: buffer_ok_def layout_defs)
  then have "\<not> bun_buffer_payload_size b < 24"
    by (simp only: word_less_nat_alt payload_words [OF ok]) simp
  then show ?thesis
    using magic payload_words(2) [OF ok]
    by (simp add: bun_reader_init_def layout_defs rw_start_def)
qed

text \<open>
  On a freshly initialized buffer the handle field and the write count are zero, so
  \<open>bun_writer_init\<close> succeeds for every handle that exists (or none).
\<close>

lemma load_zeros:
  assumes "p + n \<le> length m" and "i + 4 \<le> n"
  shows "load32 (patch m p (replicate n 0)) (p + i) = Some 0"
proof -
  have "take 4 (drop (p + i) (patch m p (replicate n 0))) = replicate 4 0"
    using assms by (intro nth_equalityI) (auto simp: nth_patch)
  then have "at_mem (patch m p (replicate n 0)) (p + i) (enc32 0)"
    using assms by (simp add: at_mem_def enc32_def le_encode_zero)
  then show ?thesis by (rule load32_at)
qed

lemma load_zeros_64:
  assumes "p + n \<le> length m" and "i + 8 \<le> n"
  shows "load64 (patch m p (replicate n 0)) (p + i) = Some 0"
proof -
  have "take 8 (drop (p + i) (patch m p (replicate n 0))) = replicate 8 0"
    using assms by (intro nth_equalityI) (auto simp: nth_patch)
  then have "at_mem (patch m p (replicate n 0)) (p + i) (enc64 0)"
    using assms by (simp add: at_mem_def enc64_def le_encode_zero)
  then show ?thesis by (rule load64_at)
qed

lemma store_exists: "p + length bs \<le> length m \<Longrightarrow> \<exists>m'. store m p bs = Some m' \<and> length m' = length m"
  by (simp add: store_patch)

lemma write_header_exists:
  "h + 24 \<le> length m \<Longrightarrow> \<exists>m'. write_header m h arch tid = Some m'"
  by (simp add: write_header_patch)

lemma bun_writer_init_fresh:
  fixes m :: mem and sz :: u64
  assumes sz: "40 \<le> unat sz" and mem: "d + unat sz \<le> length m" "length m < 2 ^ 63"
    and handle: "handle = NULL \<or> hs handle \<noteq> None"
  defines "b \<equiv> \<lparr>buf_data = d, buf_size = sz\<rparr>"
  defines "m0 \<equiv> patch m d (replicate 40 0)"
  shows "\<exists>m'. bun_writer_init hs tid m0 w b arch handle = Some (True, rw_start b handle, m')"
proof -
  have len0: "length m0 = length m"
    using sz mem by (simp add: m0_def)
  have ok: "buffer_ok m0 b"
    using sz mem len0 by (simp add: buffer_ok_def b_def layout_defs)
  have h0: "load64 m0 (d + off_handle) = Some 0"
    using sz mem by (simp add: m0_def off_handle_def load_zeros_64)
  have size: "\<not> buf_size b < 24"
    using sz by (simp add: b_def word_less_nat_alt)
  let ?m1 = "if handle = NULL then m0 else patch m0 (d + off_handle) (enc64 handle)"
  have len1: "length ?m1 = length m"
    using sz mem len0 by (simp add: off_handle_def)
  have h1: "load64 ?m1 (d + off_handle) = Some handle"
    using sz mem len0 h0 by (simp add: off_handle_def load64_at at_mem_patch_same)
  have c1: "load32 ?m1 (d + off_write_count) = Some 0"
    using sz mem len0 load_zeros [of d 40 m 0]
    by (simp add: off_write_count_def off_handle_def load32_patch m0_def)
  have guard: "\<exists>m2. length m2 = length m \<and>
    (if handle \<noteq> NULL then do {
       hd \<leftarrow> hs handle;
       if flags hd AND BUN_HANDLE_WRITE_ONCE \<noteq> 0
       then write_once_enter ?m1 (d + off_write_count)
       else Some (True, ?m1)
     } else Some (True, ?m1)) = Some (True, m2)"
    using handle len1 c1 sz mem
    by (auto simp: write_once_enter_def store_patch off_write_count_def)
  then obtain m2 where len2: "length m2 = length m" and
    g: "(if handle \<noteq> NULL then do {
       hd \<leftarrow> hs handle;
       if flags hd AND BUN_HANDLE_WRITE_ONCE \<noteq> 0
       then write_once_enter ?m1 (d + off_write_count)
       else Some (True, ?m1)
     } else Some (True, ?m1)) = Some (True, m2)"
    by (elim exE conjE)
  have st: "(if handle \<noteq> NULL then store m0 (d + off_handle) (enc64 handle) else Some m0)
      = Some ?m1"
    using sz mem len0 by (simp add: store_patch off_handle_def)
  have "bun_buffer_payload b + 24 \<le> length m2"
    using sz mem len2 by (simp add: bun_buffer_payload_def off_header_def b_def)
  then obtain m3 where m3: "write_header m2 (bun_buffer_payload b) arch tid = Some m3"
    using write_header_exists by blast
  have w: "\<lparr>rw_buffer = bun_buffer_payload b,
      rw_cursor = bun_buffer_payload b + sizeof_bun_payload_header,
      rw_size = bun_buffer_payload_size b, rw_handle = handle, rw_overflow = False\<rparr>
      = rw_start b handle"
    using payload_words(2) [OF ok] by (simp add: rw_start_def layout_defs)
  have data: "buf_data b = d"
    by (simp add: b_def)
  show ?thesis
    using size h0 h1 g st m3 unfolding bun_writer_init_def data w
    by (simp add: sizeof_bun_payload_header_def)
qed

subsection \<open>Writing a sequence of frames\<close>

text \<open>
  The backends' loop over frames: it stops at the first frame that does not fit, for which
  \<open>bun_frame_write\<close> returns 0.
\<close>

fun write_frames ::
    "mem \<Rightarrow> bun_writer \<Rightarrow> bun_frame list \<Rightarrow> (bool \<times> bun_writer \<times> mem) option" where
  "write_frames m w [] = Some (True, w, m)"
| "write_frames m w (f # fs) =
     do {
       (n, w1, m1) \<leftarrow> bun_frame_write m w f;
       if n = 0 then Some (False, w1, m1) else write_frames m1 w1 fs
     }"

definition total_size :: "bun_frame list \<Rightarrow> nat" where
  "total_size fs = sum_list (map (\<lambda>f. frame_size f + 2) fs)"

definition accounted :: "bun_frame list \<Rightarrow> nat" where
  "accounted fs = sum_list (map frame_size fs)"

definition stream_bytes :: "bun_frame list \<Rightarrow> byte list" where
  "stream_bytes fs = concat (map frame_bytes fs)"

lemma sizes_simps [simp]:
  "total_size [] = 0" "total_size (f # fs) = frame_size f + 2 + total_size fs"
  "accounted [] = 0" "accounted (f # fs) = frame_size f + accounted fs"
  "stream_bytes [] = []" "stream_bytes (f # fs) = frame_bytes f @ stream_bytes fs"
  by (simp_all add: total_size_def accounted_def stream_bytes_def)

lemma length_stream_bytes:
  "\<forall>f \<in> set fs. frame_ok f \<Longrightarrow> length (stream_bytes fs) = total_size fs"
  by (induction fs) (auto simp: length_frame_bytes)

lemma patch_overwrite:
  "length bs = length cs \<Longrightarrow> p + length bs \<le> length m \<Longrightarrow> patch (patch m p bs) p cs = patch m p cs"
  by (intro nth_equalityI) (auto simp: nth_patch)

lemma patch_same: "load32 m p = Some v \<Longrightarrow> patch m p (enc32 v) = m"
proof -
  assume l: "load32 m p = Some v"
  then have len: "p + 4 \<le> length m"
    by (rule load_word_SomeD)
  from l have v: "v = of_nat (le_decode (take 4 (drop p m)))"
    using len by (simp add: load32_def load_def)
  have "le_decode (take 4 (drop p m)) < 2 ^ 32"
    using le_decode_bound [of "take 4 (drop p m)"] len by simp
  then have "enc32 v = take 4 (drop p m)"
    using len by (simp add: v enc32_def unat_of_nat le_simps)
  then show ?thesis
    using len by (simp add: patch_def) (metis append_take_drop_id drop_drop add.commute)
qed

text \<open>The memory after the frames, \<open>h\<close> being the header's size before.\<close>

definition frames_written ::
    "mem \<Rightarrow> bun_writer \<Rightarrow> bun_frame list \<Rightarrow> u32 \<Rightarrow> mem" where
  "frames_written m w fs h =
     set_header_size (patch m (rw_cursor w) (stream_bytes fs)) w (h + of_nat (accounted fs))"

lemma frames_written_Nil:
  assumes "rw_ok m w" and "header_size m w = Some h"
  shows "frames_written m w [] h = m"
  using assms
  by (auto simp: frames_written_def set_header_size_def header_size_def rw_ok_def patch_same)

lemma patch_under_field:
  assumes "p + 4 \<le> c" and "c + length as + length bs \<le> length m"
  shows "patch (patch (patch (patch m c as) p (enc32 u)) (c + length as) bs) p (enc32 v)
    = patch (patch m c (as @ bs)) p (enc32 v)"
proof -
  have "patch (patch (patch m c as) p (enc32 u)) (c + length as) bs
      = patch (patch (patch m c as) (c + length as) bs) p (enc32 u)"
    using assms by (intro patch_commute) auto
  also have "\<dots> = patch (patch m c (as @ bs)) p (enc32 u)"
    using assms by (subst patch_patch_append) auto
  finally show ?thesis
    using assms by (simp add: patch_overwrite)
qed

lemma frames_written_Cons:
  assumes ok: "rw_ok m w" and f: "frame_ok f" and fs: "\<forall>g \<in> set fs. frame_ok g"
    and fits: "total_size (f # fs) \<le> rw_left w"
  shows "frames_written (frame_written m w f h) (rw_advance w (frame_size f + 2)) fs
      (h + of_nat (frame_size f)) = frames_written m w (f # fs) h"
proof -
  have "rw_cursor w + (frame_size f + 2 + total_size fs) \<le> length m"
    using cursor_in_mem [OF ok fits] by simp
  moreover have "rw_buffer w + hdr_size + 4 \<le> rw_cursor w"
    using header_before_cursor [OF ok] by (simp add: hdr_size_def)
  ultimately show ?thesis
    using patch_under_field [of "rw_buffer w + hdr_size" "rw_cursor w" "frame_bytes f"
        "stream_bytes fs" m "h + of_nat (frame_size f)"
        "h + of_nat (frame_size f) + of_nat (accounted fs)"]
      length_frame_bytes [OF f] length_stream_bytes [OF fs]
    by (simp add: frames_written_def frame_written_def set_header_size_def add.assoc
        del: add_2_eq_Suc')
qed

lemma header_size_frame_written:
  assumes "rw_ok m w" and "frame_ok f" and "frame_size f + 2 \<le> rw_left w"
  shows "header_size (frame_written m w f h) (rw_advance w n) = Some (h + of_nat (frame_size f))"
proof -
  have "rw_cursor w + (frame_size f + 2) \<le> length m"
    using assms by (intro cursor_in_mem)
  then have "rw_buffer w + 16 \<le> length (patch m (rw_cursor w) (frame_bytes f))"
    using header_before_cursor [OF assms(1)] assms(2) by (simp add: length_frame_bytes)
  then have "header_size (frame_written m w f h) w = Some (h + of_nat (frame_size f))"
    by (simp add: frame_written_def)
  then show ?thesis
    by (simp add: header_size_def)
qed

lemma frame_size_word_nonzero: "frame_ok f \<Longrightarrow> (of_nat (frame_size f) :: u64) \<noteq> 0"
proof
  assume f: "frame_ok f" and "(of_nat (frame_size f) :: u64) = 0"
  then have "unat (of_nat (frame_size f) :: u64) = 0" by simp
  moreover have "unat (of_nat (frame_size f) :: u64) = frame_size f"
    using frame_size_bound [OF f] by (simp add: unat_of_nat)
  ultimately show False by (simp add: frame_size_def)
qed

lemma write_frames_ok:
  assumes "rw_ok m w" and "\<forall>f \<in> set fs. frame_ok f" and "header_size m w = Some h"
    and "total_size fs \<le> rw_left w"
  shows "write_frames m w fs =
    Some (True, rw_advance w (total_size fs), frames_written m w fs h)"
  using assms
proof (induction fs arbitrary: m w h)
  case Nil
  then show ?case by (simp add: frames_written_Nil)
next
  case (Cons f fs)
  let ?w1 = "rw_advance w (frame_size f + 2)" and ?m1 = "frame_written m w f h"
  have f: "frame_ok f" and fs: "\<forall>g \<in> set fs. frame_ok g"
    and fit: "frame_size f + 2 \<le> rw_left w"
    using Cons.prems by auto
  have wr: "bun_frame_write m w f = Some (of_nat (frame_size f), ?w1, ?m1)"
    using Cons.prems f fit by (intro bun_frame_write_ok)
  have "write_frames ?m1 ?w1 fs = Some (True, rw_advance ?w1 (total_size fs),
      frames_written ?m1 ?w1 fs (h + of_nat (frame_size f)))"
    using Cons.prems f fs fit
    by (intro Cons.IH rw_ok_frame_written header_size_frame_written) auto
  then show ?case
    using wr frame_size_word_nonzero [OF f] frames_written_Cons [OF Cons.prems(1) f fs Cons.prems(4)]
    by (simp add: add.assoc del: add_2_eq_Suc')
qed

subsection \<open>Reading them back\<close>

text \<open>
  The frames the reader reaches before the header's size \<open>h\<close> tells it to stop; \<open>pos\<close> is
  the cursor's distance from the header.
\<close>

fun readable :: "nat \<Rightarrow> nat \<Rightarrow> bun_frame list \<Rightarrow> bun_frame list" where
  "readable h pos [] = []"
| "readable h pos (f # fs) =
     (if pos < h then f # readable h (pos + frame_size f + 2) fs else [])"

lemma readable_prefix: "readable h pos fs = take (length (readable h pos fs)) fs"
  by (induction h pos fs rule: readable.induct) auto

lemma frame_size_pos: "26 \<le> frame_size f"
  by (simp add: frame_size_def)

lemma accounted_last: "fs \<noteq> [] \<Longrightarrow> frame_size (last fs) \<le> accounted fs"
  by (induction fs) auto

text \<open>
  Everything is read back exactly when the last frame is larger than the deficit of the
  frames before it; \<open>d\<close> is the deficit accumulated so far.
\<close>

lemma readable_all_iff:
  assumes "h + d = pos + accounted fs" and "fs \<noteq> []"
  shows "readable h pos fs = fs \<longleftrightarrow> d + 2 * (length fs - 1) < frame_size (last fs)"
  using assms
proof (induction fs arbitrary: pos d)
  case Nil
  then show ?case by simp
next
  case (Cons f fs)
  show ?case
  proof (cases "fs = []")
    case True
    with Cons.prems show ?thesis by auto
  next
    case False
    have IH: "readable h (pos + frame_size f + 2) fs = fs \<longleftrightarrow>
        (d + 2) + 2 * (length fs - 1) < frame_size (last fs)"
      using Cons.prems False by (intro Cons.IH) auto
    have len: "(d + 2) + 2 * (length fs - 1) = d + 2 * length fs"
      using False by (cases fs) auto
    have "pos < h" if "d + 2 * length fs < frame_size (last fs)"
      using that accounted_last [OF False] Cons.prems(1) by simp
    with IH len False show ?thesis by auto
  qed
qed

lemma readable_short:
  assumes "h + d = pos + accounted fs" and "d + 2 * length fs \<le> 26"
  shows "readable h pos fs = fs"
proof (cases "fs = []")
  case False
  have "2 * (length fs - 1) + 2 = 2 * length fs"
    using False by (cases fs) auto
  with assms(2) have "d + 2 * (length fs - 1) < frame_size (last fs)"
    using frame_size_pos [of "last fs"] by linarith
  with readable_all_iff [OF assms(1) False] show ?thesis by simp
qed simp

lemma parsed_of_frame_of_parsed:
  assumes f: "frame_ok f"
  shows "parsed_of_frame (frame_of_parsed (parsed_of_frame f) g) = parsed_of_frame f"
proof -
  note len = frame_ok_lengths [OF f]
  have "unat (of_nat (unat (register_count f)) :: u64) = unat (register_count f)"
    by simp
  then show ?thesis
    using len by (cases "unat (register_count f) = 0")
      (auto simp: parsed_of_frame_def frame_of_parsed_def sym_bytes_def file_bytes_def
        reg_bytes_def REGISTER_SIZE_def)
qed

lemma rw_pos_advance:
  "rw_ok m r \<Longrightarrow> rw_cursor r + n - rw_buffer r = rw_cursor r - rw_buffer r + n"
  by (simp add: rw_ok_def)

lemma read_all_frames:
  assumes "rw_ok m r" and "header_size m r = Some h" and "\<forall>f \<in> set fs. frame_ok f"
    and "rw_rest m r = stream_bytes fs @ tail"
    and "unat h \<le> rw_cursor r - rw_buffer r + total_size fs"
  shows "\<exists>gs. read_all m r g =
      Some (gs, rw_advance r (total_size (readable (unat h) (rw_cursor r - rw_buffer r) fs))) \<and>
    map parsed_of_frame gs =
      map parsed_of_frame (readable (unat h) (rw_cursor r - rw_buffer r) fs)"
  using assms
proof (induction fs arbitrary: r g)
  case Nil
  then have "bun_frame_read m r g = Some (False, r, g)"
    by (intro bun_frame_read_guard) auto
  then show ?case
    by (simp add: read_all.simps [of m r g])
next
  case (Cons f fs)
  let ?pos = "rw_cursor r - rw_buffer r"
  let ?n = "frame_size f + 2"
  let ?r1 = "rw_advance r ?n"
  let ?g1 = "frame_of_parsed (parsed_of_frame f) g"
  have f: "frame_ok f" and fs: "\<forall>f \<in> set fs. frame_ok f"
    using Cons.prems by auto
  show ?case
  proof (cases "?pos < unat h")
    case False
    then have "bun_frame_read m r g = Some (False, r, g)"
      using Cons.prems by (intro bun_frame_read_guard) auto
    with False show ?thesis
      by (simp add: read_all.simps [of m r g])
  next
    case True
    have lf: "length (frame_bytes f) = ?n"
      using f by (rule length_frame_bytes)
    have rest: "rw_rest m r = frame_bytes f @ stream_bytes fs @ tail"
      using Cons.prems by simp
    have left: "rw_left r = ?n + length (stream_bytes fs @ tail)"
      using length_rw_rest [OF Cons.prems(1)] rest lf by simp
    have "bun_frame_read m r g = Some (True, ?r1, ?g1)"
      using bun_frame_read_parse [OF Cons.prems(1,2), of g] True left parse_frame_bytes [OF f]
      by (simp add: rest)
    moreover have "\<exists>gs. read_all m ?r1 ?g1 =
        Some (gs, rw_advance ?r1 (total_size (readable (unat h) (rw_cursor ?r1 - rw_buffer ?r1) fs)))
        \<and> map parsed_of_frame gs =
          map parsed_of_frame (readable (unat h) (rw_cursor ?r1 - rw_buffer ?r1) fs)"
    proof (rule Cons.IH)
      show "rw_ok m ?r1"
        using Cons.prems(1) left by (intro rw_ok_advance) auto
      show "header_size m ?r1 = Some h"
        using Cons.prems(2) by (simp add: header_size_def)
      show "\<forall>f \<in> set fs. frame_ok f"
        by (rule fs)
      show "rw_rest m ?r1 = stream_bytes fs @ tail"
        using rest lf by (simp add: rw_rest_advance)
      show "unat h \<le> rw_cursor ?r1 - rw_buffer ?r1 + total_size fs"
        using Cons.prems(1,5) rw_pos_advance [of m r ?n] by simp
    qed
    moreover have "rw_cursor ?r1 - rw_buffer ?r1 = ?pos + frame_size f + 2"
      using rw_pos_advance [OF Cons.prems(1), of ?n] by simp
    ultimately obtain gs where
      "read_all m r g = Some (?g1 # gs,
        rw_advance r (?n + total_size (readable (unat h) (?pos + frame_size f + 2) fs)))"
      "map parsed_of_frame gs = map parsed_of_frame (readable (unat h) (?pos + frame_size f + 2) fs)"
      by (auto simp: read_all.simps [of m r g])
    with True parsed_of_frame_of_parsed [OF f, of g] show ?thesis
      by (intro exI [of _ "?g1 # gs"]) simp
  qed
qed

subsection \<open>End to end\<close>

text \<open>
  What a backend does with a buffer (\<open>record_stream\<close>: initialize a writer, write the
  frames) and what a client does with the memory it leaves (\<open>replay_stream\<close>: initialize
  a reader, read until there is no frame). \<open>w\<close>, \<open>r\<close> and \<open>g\<close> are uninitialized locals.
\<close>

definition record_stream ::
    "handle_heap \<Rightarrow> u32 \<Rightarrow> mem \<Rightarrow> bun_writer \<Rightarrow> bun_buffer \<Rightarrow> bun_architecture \<Rightarrow> ptr
      \<Rightarrow> bun_frame list \<Rightarrow> (bool \<times> mem) option" where
  "record_stream hs tid m w b arch handle fs =
     do {
       (ok, w1, m1) \<leftarrow> bun_writer_init hs tid m w b arch handle;
       if \<not> ok then Some (False, m1)
       else do { (done, w2, m2) \<leftarrow> write_frames m1 w1 fs; Some (done, m2) }
     }"

definition replay_stream ::
    "mem \<Rightarrow> bun_reader \<Rightarrow> bun_buffer \<Rightarrow> ptr \<Rightarrow> bun_frame \<Rightarrow> bun_frame list option" where
  "replay_stream m r b handle g =
     do {
       (ok, r1) \<leftarrow> bun_reader_init m r b handle;
       if \<not> ok then Some [] else map_option fst (read_all m r1 g)
     }"

lemma rw_start_sel [simp]:
  "rw_buffer (rw_start b handle) = buf_data b + 16"
  "rw_cursor (rw_start b handle) = buf_data b + 40"
  "rw_handle (rw_start b handle) = handle"
  by (simp_all add: rw_start_def)

lemma header_size_start: "header_size m (rw_start b handle) = load32 m (buf_data b + 16 + hdr_size)"
  by (simp add: header_size_def)

lemma rw_rest_start:
  "rw_rest m (rw_start b handle) = take (rw_left (rw_start b handle)) (drop (buf_data b + 40) m)"
  by (simp add: rw_rest_def)

text \<open>The memory of the finished stream, as the reader finds it.\<close>

lemma take_prefix: "take n xs = ys \<Longrightarrow> \<exists>zs. xs = ys @ zs"
  by (metis append_take_drop_id)

lemma frames_written_start:
  fixes handle :: ptr
  assumes ok: "buffer_ok m b" and fs: "\<forall>f \<in> set fs. frame_ok f"
    and fits: "40 + total_size fs \<le> unat (buf_size b)"
    and magic: "load64 m (buf_data b + 16) = Some BUN_HEADER_MAGIC"
  defines "m' \<equiv> frames_written m (rw_start b handle) fs 24"
  shows "length m' = length m"
    and "load64 m' (buf_data b + 16) = Some BUN_HEADER_MAGIC"
    and "header_size m' (rw_start b handle') = Some (24 + of_nat (accounted fs))"
    and "\<exists>tail. rw_rest m' (rw_start b handle') = stream_bytes fs @ tail"
    and "load32 m' (buf_data b + 32) = load32 m (buf_data b + 32)"
    and "load16 m' (buf_data b + 36) = load16 m (buf_data b + 36)"
    and "load64 m' (buf_data b + 8) = load64 m (buf_data b + 8)"
proof -
  let ?d = "buf_data b"
  have ls: "length (stream_bytes fs) = total_size fs"
    using fs by (rule length_stream_bytes)
  have room: "?d + 40 + total_size fs \<le> length m"
    using ok fits by (simp add: buffer_ok_def)
  have m': "m' = patch (patch m (?d + 40) (stream_bytes fs)) (?d + 28)
      (enc32 (24 + of_nat (accounted fs)))"
    by (simp add: m'_def frames_written_def set_header_size_def hdr_size_def add.commute)
  show len: "length m' = length m"
    using room ls by (simp add: m')
  show "load64 m' (?d + 16) = Some BUN_HEADER_MAGIC"
    using magic room ls by (simp add: m' load64_patch)
  show "load64 m' (?d + 8) = load64 m (?d + 8)"
    using room ls by (simp add: m' load64_patch)
  show "load32 m' (?d + 32) = load32 m (?d + 32)"
    using room ls by (simp add: m' load32_patch)
  show "load16 m' (?d + 36) = load16 m (?d + 36)"
    using room ls by (simp add: m' load16_patch)
  show "header_size m' (rw_start b handle') = Some (24 + of_nat (accounted fs))"
    using room ls by (simp add: m' header_size_start hdr_size_def load32_at at_mem_patch_same
        add.commute [of 28])
  have "at_mem m' (?d + 40) (stream_bytes fs)"
    using room ls by (simp add: m' at_mem_patch_other at_mem_patch_same)
  then have "take (total_size fs) (drop (?d + 40) m') = stream_bytes fs"
    by (simp add: at_mem_def ls)
  moreover have "total_size fs \<le> rw_left (rw_start b handle')"
    using fits rw_start_ok(2) [OF ok, of handle'] by simp
  ultimately have "take (total_size fs) (rw_rest m' (rw_start b handle')) = stream_bytes fs"
    by (simp add: rw_rest_start min_absorb1)
  then show "\<exists>tail. rw_rest m' (rw_start b handle') = stream_bytes fs @ tail"
    by (rule take_prefix)
qed

lemma buffer_ok_length: "length m' = length m \<Longrightarrow> buffer_ok m' b = buffer_ok m b"
  by (simp add: buffer_ok_def)

lemma record_stream_ok:
  assumes ok: "buffer_ok m b"
    and init: "bun_writer_init hs tid m w b arch handle = Some (True, w1, m1)"
    and fs: "\<forall>f \<in> set fs. frame_ok f" and fits: "40 + total_size fs \<le> unat (buf_size b)"
  shows "record_stream hs tid m w b arch handle fs =
    Some (True, frames_written m1 (rw_start b handle) fs 24)"
proof -
  note w1 = bun_writer_init_success [OF ok init]
  have ok1: "buffer_ok m1 b"
    using ok buffer_ok_length [OF w1(2)] by blast
  have "header_size m1 (rw_start b handle) = Some 24"
    using header_bytes_fields(4) [OF w1(3)] by (simp add: header_size_start)
  then have "write_frames m1 (rw_start b handle) fs = Some (True,
      rw_advance (rw_start b handle) (total_size fs), frames_written m1 (rw_start b handle) fs 24)"
    using rw_start_ok [OF ok1, of handle] fs fits by (intro write_frames_ok) auto
  with init w1(1) show ?thesis
    by (simp add: record_stream_def)
qed

lemma stream_read_ok:
  assumes ok: "buffer_ok m b" and magic: "load64 m (buf_data b + 16) = Some BUN_HEADER_MAGIC"
    and size: "header_size m (rw_start b handle) = Some (24 + of_nat (accounted fs))"
    and rest: "rw_rest m (rw_start b handle) = stream_bytes fs @ tail"
    and fs: "\<forall>f \<in> set fs. frame_ok f" and small: "24 + accounted fs < 2 ^ 32"
  shows "\<exists>gs r'. bun_reader_init m r b handle = Some (True, rw_start b handle) \<and>
    read_all m (rw_start b handle) g = Some (gs, r') \<and>
    map parsed_of_frame gs = map parsed_of_frame (readable (24 + accounted fs) 24 fs)"
proof -
  let ?h = "24 + of_nat (accounted fs) :: u32"
  have h: "unat ?h = 24 + accounted fs"
    using small by (simp add: unat_of_nat unat_word_ariths)
  have "accounted fs \<le> total_size fs"
    by (induction fs) auto
  then have "\<exists>gs. read_all m (rw_start b handle) g = Some (gs, rw_advance (rw_start b handle)
        (total_size (readable (unat ?h) 24 fs))) \<and>
      map parsed_of_frame gs = map parsed_of_frame (readable (unat ?h) 24 fs)"
    using read_all_frames [OF rw_start_ok(1) [OF ok] size fs rest, of g] h by simp
  with bun_reader_init_ok [OF ok magic] h show ?thesis
    by auto
qed

lemma replay_stream_ok:
  assumes "buffer_ok m b" and "load64 m (buf_data b + 16) = Some BUN_HEADER_MAGIC"
    and "header_size m (rw_start b handle) = Some (24 + of_nat (accounted fs))"
    and "rw_rest m (rw_start b handle) = stream_bytes fs @ tail"
    and "\<forall>f \<in> set fs. frame_ok f" and "24 + accounted fs < 2 ^ 32"
  shows "\<exists>gs. replay_stream m r b handle g = Some gs \<and>
    map parsed_of_frame gs = map parsed_of_frame (readable (24 + accounted fs) 24 fs)"
  using stream_read_ok [OF assms, of r g] by (auto simp: replay_stream_def)

text \<open>Recording into a fresh buffer, and what a reader of it starts from and gets.\<close>

lemma stream_read:
  assumes mem: "d + unat sz \<le> length m0" "length m0 < 2 ^ 63"
    and init: "bun_buffer_init m0 b0 d sz = Some (True, b, m)"
    and handle: "handle = NULL \<or> hs handle \<noteq> None"
    and fs: "\<forall>f \<in> set fs. frame_ok f" and fits: "40 + total_size fs \<le> unat sz"
    and small: "24 + accounted fs < 2 ^ 32"
  shows "\<exists>m' gs r'. record_stream hs tid m w b arch handle fs = Some (True, m') \<and>
    rw_ok m' (rw_start b handle') \<and>
    bun_reader_init m' r b handle' = Some (True, rw_start b handle') \<and>
    read_all m' (rw_start b handle') g = Some (gs, r') \<and>
    map parsed_of_frame gs = map parsed_of_frame (readable (24 + accounted fs) 24 fs)"
proof -
  have sz: "40 \<le> unat sz"
    using fits by simp
  have "bun_buffer_init m0 b0 d sz =
      Some (True, \<lparr>buf_data = d, buf_size = sz\<rparr>, patch m0 d (replicate 40 0))"
    using sz mem by (intro bun_buffer_init_ok) auto
  then have b: "b = \<lparr>buf_data = d, buf_size = sz\<rparr>" and m: "m = patch m0 d (replicate 40 0)"
    using init by simp_all
  have ok: "buffer_ok m b"
    using sz mem by (simp add: buffer_ok_def b m layout_defs)
  obtain m1 where wi: "bun_writer_init hs tid m w b arch handle = Some (True, rw_start b handle, m1)"
    using bun_writer_init_fresh [where hs = hs and tid = tid and w = w and arch = arch,
        OF sz mem handle] unfolding b m by blast
  note w1 = bun_writer_init_success [OF ok wi]
  let ?m' = "frames_written m1 (rw_start b handle) fs 24"
  have ok1: "buffer_ok m1 b"
    using ok buffer_ok_length [OF w1(2)] by blast
  have fits': "40 + total_size fs \<le> unat (buf_size b)"
    using fits by (simp add: b)
  have magic: "load64 m1 (buf_data b + 16) = Some BUN_HEADER_MAGIC"
    using header_bytes_fields(1) [OF w1(3)] by (simp add: hdr_magic_def)
  note fin = frames_written_start [OF ok1 fs fits' magic, where handle = handle]
  obtain tail where tail: "rw_rest ?m' (rw_start b handle') = stream_bytes fs @ tail"
    using fin(4) by blast
  have ok': "buffer_ok ?m' b"
    using ok1 buffer_ok_length [OF fin(1)] by blast
  from stream_read_ok [OF ok' fin(2,3) tail fs small, of r g] rw_start_ok(1) [OF ok']
    record_stream_ok [OF ok wi fs fits']
  show ?thesis by blast
qed

lemma stream_replay:
  assumes "d + unat sz \<le> length m0" and "length m0 < 2 ^ 63"
    and "bun_buffer_init m0 b0 d sz = Some (True, b, m)"
    and "handle = NULL \<or> hs handle \<noteq> None"
    and "\<forall>f \<in> set fs. frame_ok f" and "40 + total_size fs \<le> unat sz"
    and "24 + accounted fs < 2 ^ 32"
  shows "\<exists>m' gs. record_stream hs tid m w b arch handle fs = Some (True, m') \<and>
    replay_stream m' r b handle' g = Some gs \<and>
    map parsed_of_frame gs = map parsed_of_frame (readable (24 + accounted fs) 24 fs)"
  using stream_read [where hs = hs and handle = handle, OF assms, of tid w arch handle' r g]
  by (auto simp: replay_stream_def)

subsection \<open>Properties\<close>

lemma map_parsed_prefix:
  assumes "map parsed_of_frame gs = map parsed_of_frame (readable h pos fs)"
  shows "map parsed_of_frame gs = map parsed_of_frame (take (length gs) fs)"
    and "length gs = length fs \<longleftrightarrow> readable h pos fs = fs"
proof -
  have len: "length gs = length (readable h pos fs)"
    using assms by (rule map_eq_imp_length_eq)
  show "map parsed_of_frame gs = map parsed_of_frame (take (length gs) fs)"
    using assms readable_prefix [of h pos fs] by (simp add: len)
  show "length gs = length fs \<longleftrightarrow> readable h pos fs = fs"
    using readable_prefix [of h pos fs] by (auto simp: len)
qed

text \<open>
  C1: write, then read. Frames recorded into a freshly initialized buffer that is large
  enough are read back by a client as exactly the recorded frames (address, line,
  offset, both strings, registers), as long as there are at most 13 of them, whatever
  the memory held before and whatever handles and uninitialized locals are involved.
\<close>

theorem stream_roundtrip:
  assumes "d + unat sz \<le> length m0" and "length m0 < 2 ^ 63"
    and "bun_buffer_init m0 b0 d sz = Some (True, b, m)"
    and "handle = NULL \<or> hs handle \<noteq> None"
    and "\<forall>f \<in> set fs. frame_ok f" and "40 + total_size fs \<le> unat sz"
    and "24 + accounted fs < 2 ^ 32" and "length fs \<le> 13"
  shows "\<exists>m' gs. record_stream hs tid m w b arch handle fs = Some (True, m') \<and>
    replay_stream m' r b handle' g = Some gs \<and>
    map parsed_of_frame gs = map parsed_of_frame fs"
proof -
  have "readable (24 + accounted fs) 24 fs = fs"
    using assms(8) by (intro readable_short [where d = 0]) auto
  with stream_replay [where hs = hs and handle = handle, OF assms(1-7), of tid w arch r handle' g]
  show ?thesis by simp
qed

text \<open>
  C23: without the bound on their number, what comes back is a prefix of what was
  recorded; it is all of it exactly when twice the number of earlier frames is less than
  the size counted for the last one, because the size in the header falls behind by two
  bytes with every frame.
\<close>

theorem stream_complete_iff:
  assumes "d + unat sz \<le> length m0" and "length m0 < 2 ^ 63"
    and "bun_buffer_init m0 b0 d sz = Some (True, b, m)"
    and "handle = NULL \<or> hs handle \<noteq> None"
    and "\<forall>f \<in> set fs. frame_ok f" and "40 + total_size fs \<le> unat sz"
    and "24 + accounted fs < 2 ^ 32" and "fs \<noteq> []"
  shows "\<exists>m' gs. record_stream hs tid m w b arch handle fs = Some (True, m') \<and>
    replay_stream m' r b handle' g = Some gs \<and>
    map parsed_of_frame gs = map parsed_of_frame (take (length gs) fs) \<and>
    (length gs = length fs \<longleftrightarrow> 2 * (length fs - 1) < frame_size (last fs))"
proof -
  have iff: "readable (24 + accounted fs) 24 fs = fs \<longleftrightarrow>
      2 * (length fs - 1) < frame_size (last fs)"
    using readable_all_iff [of "24 + accounted fs" 0 24 fs] assms(8) by simp
  obtain m' gs where run: "record_stream hs tid m w b arch handle fs = Some (True, m')"
    "replay_stream m' r b handle' g = Some gs"
    and gs: "map parsed_of_frame gs = map parsed_of_frame (readable (24 + accounted fs) 24 fs)"
    using stream_replay [where hs = hs and handle = handle, OF assms(1-7), of tid w arch r handle' g]
    by (elim exE conjE)
  show ?thesis
    using run map_parsed_prefix [OF gs] iff by (intro exI [of _ m'] exI [of _ gs]) simp
qed

lemma stream_printed:
  assumes "d + unat sz \<le> length m0" and "length m0 < 2 ^ 63"
    and "bun_buffer_init m0 b0 d sz = Some (True, b, m)"
    and "handle = NULL \<or> hs handle \<noteq> None"
    and fs: "\<forall>f \<in> set fs. frame_ok f" and "40 + total_size fs \<le> unat sz"
    and "24 + accounted fs < 2 ^ 32"
  shows "\<exists>m' r1 r'. record_stream hs tid m w b arch handle fs = Some (True, m') \<and>
    bun_reader_init m' r b handle' = Some (True, r1) \<and>
    bun_reader_print m' r1 g =
      Some (concat (map frame_report (readable (24 + accounted fs) 24 fs)), r')"
proof -
  obtain m' gs r' where run: "record_stream hs tid m w b arch handle fs = Some (True, m')"
    "bun_reader_init m' r b handle' = Some (True, rw_start b handle')"
    and ok: "rw_ok m' (rw_start b handle')"
    and rd: "read_all m' (rw_start b handle') g = Some (gs, r')"
    and gs: "map parsed_of_frame gs = map parsed_of_frame (readable (24 + accounted fs) 24 fs)"
    using stream_read [where hs = hs and handle = handle, OF assms, of tid w arch handle' r g]
    by (elim exE conjE)
  obtain items where items: "print_frames gs = Some items"
    and print: "bun_reader_print m' (rw_start b handle') g = Some (items, r')"
    using bun_reader_print_ends [OF ok, of g] bun_reader_print_read_all [OF rd]
    by (auto split: bind_splits)
  have "\<forall>f \<in> set (readable (24 + accounted fs) 24 fs). frame_ok f"
    using fs readable_prefix [of "24 + accounted fs" 24 fs] by (metis in_set_takeD)
  from print_frames_report [OF gs this items] print run show ?thesis by blast
qed

text \<open>
  C29: what \<open>bun_reader_print\<close> prints for a stream of well-formed frames recorded into a fresh
  buffer they fit: for each frame the
  header's size lets the reader see (all of them when there are at most 13), in order, the
  recorded symbol, program counter and register count, and every recorded register with its
  name, number and value.
\<close>

theorem print_written_stream:
  assumes "d + unat sz \<le> length m0" and "length m0 < 2 ^ 63"
    and "bun_buffer_init m0 b0 d sz = Some (True, b, m)"
    and "handle = NULL \<or> hs handle \<noteq> None"
    and "\<forall>f \<in> set fs. frame_ok f" and "40 + total_size fs \<le> unat sz"
    and "24 + accounted fs < 2 ^ 32"
  shows "\<exists>m' r1 r'. record_stream hs tid m w b arch handle fs = Some (True, m') \<and>
    bun_reader_init m' r b handle' = Some (True, r1) \<and>
    bun_reader_print m' r1 g =
      Some (concat (map frame_report (readable (24 + accounted fs) 24 fs)), r') \<and>
    (length fs \<le> 13 \<longrightarrow> readable (24 + accounted fs) 24 fs = fs)"
proof -
  have "readable (24 + accounted fs) 24 fs = fs" if "length fs \<le> 13"
    using that by (intro readable_short [where d = 0]) auto
  with stream_printed [where hs = hs and handle = handle, OF assms, of tid w arch r handle' g]
  show ?thesis by blast
qed

theorem print_written_stream_witness:
  "\<exists>m' r1 r'. record_stream (\<lambda>_. None) 5 (replicate 200 0) (rw_start \<lparr>buf_data = 0, buf_size = 0\<rparr> 0)
      \<lparr>buf_data = 0, buf_size = 200\<rparr> BUN_ARCH_X86_64 0 [sample_frame] = Some (True, m') \<and>
    bun_reader_init m' (rw_start \<lparr>buf_data = 0, buf_size = 0\<rparr> 0) \<lparr>buf_data = 0, buf_size = 200\<rparr> 0 =
      Some (True, r1) \<and>
    bun_reader_print m' r1 zero_frame = Some (frame_report sample_frame, r') \<and>
    frame_report sample_frame \<noteq> []"
  using print_written_stream [where d = 0 and sz = 200 and ?m0.0 = "replicate 200 0" and
      ?b0.0 = "\<lparr>buf_data = 0, buf_size = 0\<rparr>" and fs = "[sample_frame]" and handle = 0 and
      b = "\<lparr>buf_data = 0, buf_size = 200\<rparr>" and m = "replicate 200 0" and hs = "\<lambda>_. None" and
      tid = 5 and w = "rw_start \<lparr>buf_data = 0, buf_size = 0\<rparr> 0" and arch = BUN_ARCH_X86_64 and
      r = "rw_start \<lparr>buf_data = 0, buf_size = 0\<rparr> 0" and handle' = 0 and g = zero_frame]
  by (simp add: bun_buffer_init_ok patch_def sample_frame_ok sample_frame_size frame_report_def
      flip: replicate_add)

theorem stream_roundtrip_witness:
  "\<exists>m' gs. record_stream (\<lambda>_. None) 5 (replicate 200 0) (rw_start \<lparr>buf_data = 0, buf_size = 0\<rparr> 0)
      \<lparr>buf_data = 0, buf_size = 200\<rparr> BUN_ARCH_X86_64 0 [sample_frame, zero_frame] = Some (True, m') \<and>
    replay_stream m' (rw_start \<lparr>buf_data = 0, buf_size = 0\<rparr> 0) \<lparr>buf_data = 0, buf_size = 200\<rparr> 0
      zero_frame = Some gs \<and>
    map parsed_of_frame gs = map parsed_of_frame [sample_frame, zero_frame]"
  by (rule stream_roundtrip [where d = 0 and sz = 200 and ?m0.0 = "replicate 200 0" and ?b0.0 = "\<lparr>buf_data = 0, buf_size = 0\<rparr>"])
    (simp_all add: bun_buffer_init_ok patch_def sample_frame_ok sample_frame_size flip: replicate_add)

theorem stream_complete_iff_witness:
  "\<exists>m' gs. record_stream (\<lambda>_. None) 5 (replicate 200 0) (rw_start \<lparr>buf_data = 0, buf_size = 0\<rparr> 0)
      \<lparr>buf_data = 0, buf_size = 200\<rparr> BUN_ARCH_X86_64 0 [sample_frame, zero_frame] = Some (True, m') \<and>
    replay_stream m' (rw_start \<lparr>buf_data = 0, buf_size = 0\<rparr> 0) \<lparr>buf_data = 0, buf_size = 200\<rparr> 0
      zero_frame = Some gs \<and>
    map parsed_of_frame gs = map parsed_of_frame (take (length gs) [sample_frame, zero_frame]) \<and>
    (length gs = length [sample_frame, zero_frame] \<longleftrightarrow>
      2 * (length [sample_frame, zero_frame] - 1) < frame_size (last [sample_frame, zero_frame]))"
  by (rule stream_complete_iff [where d = 0 and sz = 200 and ?m0.0 = "replicate 200 0" and ?b0.0 = "\<lparr>buf_data = 0, buf_size = 0\<rparr>"])
    (simp_all add: bun_buffer_init_ok patch_def sample_frame_ok sample_frame_size flip: replicate_add)

text \<open>
  Fourteen minimal frames are the first loss: all of them are recorded, and the
  client reads back thirteen.
\<close>

theorem stream_loses_frame:
  "\<exists>m' gs. record_stream hs tid (patch (replicate 1000 x) 0 (replicate 40 0)) w
      \<lparr>buf_data = 0, buf_size = 1000\<rparr> arch 0 (replicate 14 zero_frame) = Some (True, m') \<and>
    replay_stream m' r \<lparr>buf_data = 0, buf_size = 1000\<rparr> handle' g = Some gs \<and> length gs = 13"
proof -
  let ?fs = "replicate 14 zero_frame"
  have sizes: "total_size ?fs = 392" "accounted ?fs = 364"
    by (simp_all add: total_size_def accounted_def sum_list_replicate sample_frame_size)
  have "\<exists>m' gs. record_stream hs tid (patch (replicate 1000 x) 0 (replicate 40 0)) w
      \<lparr>buf_data = 0, buf_size = 1000\<rparr> arch 0 ?fs = Some (True, m') \<and>
    replay_stream m' r \<lparr>buf_data = 0, buf_size = 1000\<rparr> handle' g = Some gs \<and>
    map parsed_of_frame gs = map parsed_of_frame (readable (24 + accounted ?fs) 24 ?fs)"
    by (rule stream_replay [where d = 0 and sz = 1000 and ?m0.0 = "replicate 1000 x" and
          ?b0.0 = "\<lparr>buf_data = 0, buf_size = 0\<rparr>"])
      (simp_all add: bun_buffer_init_ok sample_frame_ok sizes)
  moreover have "length (readable (24 + accounted ?fs) 24 ?fs) = 13"
    by (simp add: sizes) (simp add: numeral_eq_Suc sample_frame_size)
  ultimately show ?thesis
    by (metis length_map)
qed

end
