(* ===== verification/Bun_WriteOnce.thy ===== *)
theory Bun_WriteOnce
  imports Bun_Roundtrip
begin

text \<open>
  The write-once guard of \<open>bun_writer_init\<close> (\<open>src/bun_stream.c\<close>) under concurrency. Several
  threads initialize a writer on the same buffer for the same handle; the accesses to the
  shared fields of the buffer's payload are the steps, and \<open>atomic_fetch_add\<close> is one of
  them. A sequential call of \<open>bun_writer_init\<close> is one of the schedules.
\<close>

subsection \<open>The step relation\<close>

text \<open>Where a thread stands in \<open>bun_writer_init\<close>.\<close>

datatype once_pc = Start | Set_handle | Guard | Entered | Refused

text \<open>The shared fields of \<open>struct bun_buffer_payload\<close> and the threads' positions.\<close>

record once_state =
  sh_handle :: ptr
  sh_count :: u32
  pcs :: "nat \<Rightarrow> once_pc"

definition goto :: "once_state \<Rightarrow> nat \<Rightarrow> once_pc \<Rightarrow> once_state" where
  "goto s i pc = s\<lparr>pcs := (pcs s)(i := pc)\<rparr>"

text \<open>
  \<open>wo p\<close>: the handle at \<open>p\<close> has the flag \<open>BUN_HANDLE_WRITE_ONCE\<close>; \<open>arg\<close> is the handle the
  threads pass.
\<close>

inductive once_step :: "(ptr \<Rightarrow> bool) \<Rightarrow> ptr \<Rightarrow> nat \<Rightarrow> once_state \<Rightarrow> once_state \<Rightarrow> bool"
  for wo arg i where
    mismatch: "pcs s i = Start \<Longrightarrow> sh_handle s \<noteq> NULL \<Longrightarrow> arg \<noteq> NULL \<Longrightarrow> arg \<noteq> sh_handle s \<Longrightarrow>
      once_step wo arg i s (goto s i Refused)"
  | match: "pcs s i = Start \<Longrightarrow> sh_handle s \<noteq> NULL \<Longrightarrow> arg = NULL \<or> arg = sh_handle s \<Longrightarrow>
      once_step wo arg i s (goto s i Guard)"
  | unset: "pcs s i = Start \<Longrightarrow> sh_handle s = NULL \<Longrightarrow>
      once_step wo arg i s (goto s i (if arg = NULL then Guard else Set_handle))"
  | set_handle: "pcs s i = Set_handle \<Longrightarrow>
      once_step wo arg i s ((goto s i Guard)\<lparr>sh_handle := arg\<rparr>)"
  | unguarded: "pcs s i = Guard \<Longrightarrow> sh_handle s = NULL \<or> \<not> wo (sh_handle s) \<Longrightarrow>
      once_step wo arg i s (goto s i Entered)"
  | fetch_add: "pcs s i = Guard \<Longrightarrow> sh_handle s \<noteq> NULL \<Longrightarrow> wo (sh_handle s) \<Longrightarrow>
      once_step wo arg i s
        ((goto s i (if 0 < sint (sh_count s) then Refused else Entered))\<lparr>sh_count := sh_count s + 1\<rparr>)"

inductive_cases once_stepE: "once_step wo arg i s s'"

text \<open>The states that threads below \<open>n\<close> can reach, whatever the schedule.\<close>

inductive once_reach :: "(ptr \<Rightarrow> bool) \<Rightarrow> ptr \<Rightarrow> nat \<Rightarrow> once_state \<Rightarrow> once_state \<Rightarrow> bool"
  for wo arg n s0 where
    init: "once_reach wo arg n s0 s0"
  | step: "once_reach wo arg n s0 s \<Longrightarrow> i < n \<Longrightarrow> once_step wo arg i s s' \<Longrightarrow>
      once_reach wo arg n s0 s'"

text \<open>A buffer after \<open>bun_buffer_init\<close>, no thread having begun.\<close>

definition once_init :: once_state where
  "once_init = \<lparr>sh_handle = NULL, sh_count = 0, pcs = (\<lambda>_. Start)\<rparr>"

subsection \<open>The invariant\<close>

definition at_pc :: "nat \<Rightarrow> once_state \<Rightarrow> once_pc set \<Rightarrow> nat set" where
  "at_pc n s P = {i. i < n \<and> pcs s i \<in> P}"

definition once_inv :: "ptr \<Rightarrow> nat \<Rightarrow> once_state \<Rightarrow> bool" where
  "once_inv arg n s \<longleftrightarrow>
     (sh_handle s = NULL \<or> sh_handle s = arg) \<and>
     (\<forall>i < n. pcs s i \<in> {Guard, Entered, Refused} \<longrightarrow> sh_handle s = arg) \<and>
     unat (sh_count s) = card (at_pc n s {Entered, Refused}) \<and>
     card (at_pc n s {Entered}) \<le> 1 \<and>
     (at_pc n s {Entered, Refused} \<noteq> {} \<longrightarrow> at_pc n s {Entered} \<noteq> {})"

lemma finite_at_pc [simp]: "finite (at_pc n s P)"
  by (simp add: at_pc_def)

lemma at_pc_goto:
  "i < n \<Longrightarrow> at_pc n (goto s i pc) P =
    (if pc \<in> P then insert i (at_pc n s P) else at_pc n s P - {i})"
  by (auto simp: at_pc_def goto_def)

lemma at_pc_handle [simp]:
  "at_pc n (s\<lparr>sh_handle := h\<rparr>) P = at_pc n s P"
  "at_pc n (s\<lparr>sh_count := c\<rparr>) P = at_pc n s P"
  by (simp_all add: at_pc_def)

lemma goto_sel [simp]:
  "sh_handle (goto s i pc) = sh_handle s" "sh_count (goto s i pc) = sh_count s"
  "pcs (goto s i pc) = (pcs s)(i := pc)"
  by (simp_all add: goto_def)

lemma sint_small: "unat (c :: u32) < 2 ^ 31 \<Longrightarrow> sint c = int (unat c)"
proof -
  assume c: "unat c < 2 ^ 31"
  have "sint c = sint (word_of_int (int (unat c)) :: u32)"
    by simp
  also have "\<dots> = (int (unat c) + 2 ^ 31) mod 2 ^ 32 - 2 ^ 31"
    by (simp only: int_word_sint) simp
  also have "(int (unat c) + 2 ^ 31) mod 2 ^ 32 = int (unat c) + 2 ^ 31"
  proof (rule mod_pos_pos_trivial)
    have "unat c < 2147483648"
      using c by simp
    then have "int (unat c) < 2147483648"
      by linarith
    then show "int (unat c) + 2 ^ 31 < 2 ^ 32"
      by (simp del: of_nat_unat int_nat_eq)
  qed (simp del: of_nat_unat int_nat_eq)
  finally show ?thesis by simp
qed

lemma sint_large: "2 ^ 31 \<le> unat (c :: u32) \<Longrightarrow> sint c < 0"
proof -
  assume "2 ^ 31 \<le> unat c"
  then have c: "2147483648 \<le> unat c"
    by simp
  let ?x = "int (unat c) - 2147483648"
  have "unat c < 4294967296"
    using unsigned_less [of c, where 'a = nat] by simp
  then have x: "0 \<le> ?x" "?x < 2147483648"
    using c by linarith+
  have "sint c = sint (word_of_int (int (unat c)) :: u32)"
    by simp
  also have "\<dots> = (int (unat c) + 2147483648) mod 4294967296 - 2147483648"
    by (simp only: int_word_sint) simp
  also have "int (unat c) + 2147483648 = ?x + 4294967296"
    by simp
  also have "(?x + 4294967296) mod 4294967296 = ?x"
    using x by (subst mod_add_self2) (intro mod_pos_pos_trivial; linarith)
  finally show ?thesis
    using x by linarith
qed

lemma once_inv_init: "once_inv arg n once_init"
  by (simp add: once_inv_def once_init_def at_pc_def)

lemma not_at_pc: "pcs s i \<notin> P \<Longrightarrow> i \<notin> at_pc n s P"
  by (simp add: at_pc_def)

lemma card_at_pc_less:
  assumes "i < n" and "pcs s i \<notin> P"
  shows "card (at_pc n s P) < n"
proof -
  have "at_pc n s P \<subseteq> {..<n} - {i}"
    using assms by (auto simp: at_pc_def)
  then have "card (at_pc n s P) \<le> card ({..<n} - {i})"
    by (intro card_mono) auto
  with assms show ?thesis by simp
qed

text \<open>The step that counts: the thread that finds the count zero enters, all others do not.\<close>

lemma once_inv_fetch_add:
  assumes inv: "once_inv arg n s" and i: "i < n" and n: "n \<le> 2 ^ 31" and pc: "pcs s i = Guard"
  shows "once_inv arg n
    ((goto s i (if 0 < sint (sh_count s) then Refused else Entered))\<lparr>sh_count := sh_count s + 1\<rparr>)"
proof -
  let ?A = "at_pc n s {Entered, Refused}"
  have count: "unat (sh_count s) = card ?A" and out: "i \<notin> ?A" and less: "card ?A < n"
    using inv i pc by (simp_all add: once_inv_def not_at_pc card_at_pc_less)
  have c: "unat (sh_count s + 1) = card ?A + 1"
    using count less n by (simp add: unat_word_ariths)
  have guard: "0 < sint (sh_count s) \<longleftrightarrow> ?A \<noteq> {}"
    using count less n by (simp add: sint_small card_gt_0_iff)
  have outE: "i \<notin> at_pc n s {Entered}"
    using pc by (simp add: not_at_pc)
  show ?thesis
  proof (cases "?A = {}")
    case True
    then have "at_pc n s {Entered} = {}"
      by (auto simp: at_pc_def)
    with True inv i pc c guard show ?thesis
      by (auto simp: once_inv_def at_pc_goto)
  next
    case False
    with inv i pc c guard out outE show ?thesis
      by (auto simp: once_inv_def at_pc_goto)
  qed
qed

lemma once_inv_step:
  assumes inv: "once_inv arg n s" and i: "i < n" and n: "n \<le> 2 ^ 31"
    and arg: "arg \<noteq> NULL" "wo arg" and step: "once_step wo arg i s s'"
  shows "once_inv arg n s'"
  using step
proof cases
  case mismatch
  with inv show ?thesis by (simp add: once_inv_def)
next
  case match
  with inv i not_at_pc [of s i] show ?thesis
    by (auto simp: once_inv_def at_pc_goto)
next
  case unset
  with inv i arg not_at_pc [of s i] show ?thesis
    by (auto simp: once_inv_def at_pc_goto)
next
  case set_handle
  with inv i not_at_pc [of s i] show ?thesis
    by (auto simp: once_inv_def at_pc_goto)
next
  case unguarded
  with inv i arg show ?thesis by (simp add: once_inv_def)
next
  case fetch_add
  with once_inv_fetch_add [OF inv i n] show ?thesis by simp
qed

lemma once_inv_reach:
  assumes "once_reach wo arg n once_init s" and "n \<le> 2 ^ 31" and "arg \<noteq> NULL" and "wo arg"
  shows "once_inv arg n s"
  using assms
proof (induction rule: once_reach.induct)
  case init
  then show ?case by (simp add: once_inv_init)
next
  case (step s i s')
  then show ?case by (blast intro: once_inv_step)
qed

subsection \<open>Properties\<close>

text \<open>
  C8: write once. However up to 2^31 threads that initialize a writer for the same
  write-once handle on a fresh buffer are interleaved, at most one of them gets the writer;
  and a thread is refused only after another one got it.
\<close>

theorem write_once_exclusive:
  assumes "once_reach wo arg n once_init s" and "n \<le> 2 ^ 31" and "arg \<noteq> NULL" and "wo arg"
    and "i < n" and "pcs s i = Entered"
  shows "(\<forall>j < n. pcs s j = Entered \<longrightarrow> j = i) \<and>
    (\<forall>j < n. pcs s j \<in> {Entered, Refused} \<longrightarrow> 0 < unat (sh_count s))"
proof -
  have inv: "once_inv arg n s"
    using assms(1-4) by (rule once_inv_reach)
  have i: "i \<in> at_pc n s {Entered}"
    using assms(5,6) by (simp add: at_pc_def)
  moreover have "card (at_pc n s {Entered}) \<le> Suc 0"
    using inv by (simp add: once_inv_def)
  ultimately have "\<forall>j \<in> at_pc n s {Entered}. j = i"
    by (simp add: card_le_Suc0_iff_eq)
  moreover have "i \<in> at_pc n s {Entered, Refused}"
    using i by (simp add: at_pc_def)
  then have "0 < card (at_pc n s {Entered, Refused})"
    by (auto simp: card_gt_0_iff)
  ultimately show ?thesis
    using inv by (simp add: once_inv_def at_pc_def)
qed

lemma once_progress:
  assumes "pcs s j \<noteq> Entered" and "pcs s j \<noteq> Refused"
  shows "\<exists>s'. once_step wo arg j s s'"
proof (cases "pcs s j")
  case Start
  then show ?thesis
    using once_step.mismatch [of s j arg wo] once_step.match [of s j arg wo]
      once_step.unset [of s j wo arg] by blast
next
  case Set_handle
  then show ?thesis
    using once_step.set_handle by blast
next
  case Guard
  then show ?thesis
    using once_step.unguarded [of s j wo arg] once_step.fetch_add [of s j wo arg] by blast
qed (use assms in simp_all)

text \<open>
  No thread is refused before one has got the writer, and a thread that is neither has
  a step to take.
\<close>

theorem write_once_refused:
  assumes "once_reach wo arg n once_init s" and "n \<le> 2 ^ 31" and "arg \<noteq> NULL" and "wo arg"
    and "j < n"
  shows "if pcs s j = Refused then \<exists>i < n. pcs s i = Entered
    else pcs s j = Entered \<or> (\<exists>s'. once_step wo arg j s s')"
proof (cases "pcs s j = Refused")
  case True
  have "once_inv arg n s"
    using assms(1-4) by (rule once_inv_reach)
  moreover have "j \<in> at_pc n s {Entered, Refused}"
    using True assms(5) by (simp add: at_pc_def)
  ultimately have "at_pc n s {Entered} \<noteq> {}"
    unfolding once_inv_def by blast
  with True show ?thesis
    by (auto simp: at_pc_def)
next
  case False
  then show ?thesis
    using once_progress [of s j wo arg] by auto
qed

text \<open>
  The guard reads the old count as a signed number: it lets a caller pass exactly when
  the count is zero or its top bit is set, so the handle is writable again after 2^31
  attempts.
\<close>

theorem write_once_enter_iff:
  assumes "load32 m p = Some c"
  shows "\<exists>m'. write_once_enter m p = Some (unat c = 0 \<or> 2 ^ 31 \<le> unat c, m') \<and>
    load32 m' p = Some (c + 1)"
proof -
  have p: "p + 4 \<le> length m"
    using assms by (rule load_word_SomeD)
  have "(0 < sint c) = (\<not> (unat c = 0 \<or> 2 ^ 31 \<le> unat c))"
  proof (cases "unat c < 2 ^ 31")
    case True
    with sint_small [OF True] show ?thesis by linarith
  next
    case False
    have "sint c < 0"
      using False by (intro sint_large) simp
    with False show ?thesis by simp
  qed
  with p assms show ?thesis
    by (simp add: write_once_enter_def store_patch load32_at at_mem_patch_same)
qed

subsection \<open>A sequential call is a schedule\<close>

definition is_write_once :: "handle_heap \<Rightarrow> ptr \<Rightarrow> bool" where
  "is_write_once hs p = (case hs p of None \<Rightarrow> False | Some h \<Rightarrow> flags h AND BUN_HANDLE_WRITE_ONCE \<noteq> 0)"

text \<open>The shared fields in memory.\<close>

definition once_abs :: "mem \<Rightarrow> bun_buffer \<Rightarrow> once_state \<Rightarrow> bool" where
  "once_abs m b s \<longleftrightarrow>
     load64 m (buf_data b + off_handle) = Some (sh_handle s) \<and>
     load32 m (buf_data b + off_write_count) = Some (sh_count s)"

text \<open>The first half: the handle is compared and stored.\<close>

lemma once_reach_handle:
  assumes "pcs s i = Start" and "i < n"
    and "\<not> (sh_handle s \<noteq> NULL \<and> arg \<noteq> NULL \<and> arg \<noteq> sh_handle s)"
  shows "\<exists>s'. once_reach wo arg n s s' \<and> pcs s' i = Guard \<and> sh_count s' = sh_count s \<and>
    sh_handle s' = (if sh_handle s = NULL \<and> arg \<noteq> NULL then arg else sh_handle s)"
proof (cases "sh_handle s = NULL \<and> arg \<noteq> NULL")
  case True
  let ?s1 = "goto s i Set_handle"
  have s1: "once_reach wo arg n s ?s1"
    using once_step.unset [of s i wo arg] assms True
    by (intro once_reach.step [OF once_reach.init]) auto
  have "once_step wo arg i ?s1 ((goto ?s1 i Guard)\<lparr>sh_handle := arg\<rparr>)"
    by (rule once_step.set_handle) simp
  with s1 assms(2) have "once_reach wo arg n s ((goto ?s1 i Guard)\<lparr>sh_handle := arg\<rparr>)"
    by (rule once_reach.step)
  with True show ?thesis
    by (intro exI [of _ "(goto ?s1 i Guard)\<lparr>sh_handle := arg\<rparr>"]) simp
next
  case False
  have "once_step wo arg i s (goto s i Guard)"
    using once_step.unset [of s i wo arg] once_step.match [of s i arg wo] assms False
    by (cases "sh_handle s = NULL") auto
  then have "once_reach wo arg n s (goto s i Guard)"
    using assms by (intro once_reach.step [OF once_reach.init])
  with False show ?thesis
    by (intro exI [of _ "goto s i Guard"]) simp
qed

lemma once_abs_header:
  assumes "once_abs m b s" and "buf_data b + 40 \<le> length m"
    and "write_header m (bun_buffer_payload b) arch tid = Some m'"
  shows "once_abs m' b s"
proof -
  have "m' = patch m (buf_data b + 16) (header_bytes arch tid)"
    using assms(2,3) write_header_patch [of "buf_data b + 16" m arch tid]
    by (simp add: bun_buffer_payload_def off_header_def)
  with assms(1,2) show ?thesis
    by (simp add: once_abs_def off_handle_def off_write_count_def load64_patch load32_patch)
qed

lemma once_abs_set_handle:
  assumes "once_abs m b s" and "buf_data b + 40 \<le> length m" and "sh_count s' = sh_count s"
    and "sh_handle s' = h"
  shows "once_abs (patch m (buf_data b + off_handle) (enc64 h)) b s'"
  using assms
  by (simp add: once_abs_def off_handle_def off_write_count_def load64_at at_mem_patch_same
      load32_patch)

lemma once_abs_cong: "once_abs m b s \<Longrightarrow> sh_handle s' = sh_handle s \<Longrightarrow> sh_count s' = sh_count s \<Longrightarrow>
    once_abs m b s'"
  by (simp add: once_abs_def)

text \<open>The second half: the guard and the header.\<close>

definition enter_writer ::
    "handle_heap \<Rightarrow> u32 \<Rightarrow> mem \<Rightarrow> bun_buffer \<Rightarrow> bun_architecture \<Rightarrow> (bool \<times> mem) option" where
  "enter_writer hs tid m1 b arch =
     do {
       h1 \<leftarrow> load64 m1 (buf_data b + off_handle);
       (ok, m2) \<leftarrow>
         (if h1 \<noteq> NULL then do {
            hd \<leftarrow> hs h1;
            if flags hd AND BUN_HANDLE_WRITE_ONCE \<noteq> 0
            then write_once_enter m1 (buf_data b + off_write_count)
            else Some (True, m1)
          } else Some (True, m1));
       if \<not> ok then Some (False, m2)
       else do { m3 \<leftarrow> write_header m2 (bun_buffer_payload b) arch tid; Some (True, m3) }
     }"

lemma enter_writer_step:
  assumes abs: "once_abs m b s" and mem: "buf_data b + 40 \<le> length m" and pc: "pcs s i = Guard"
    and run: "enter_writer hs tid m b arch = Some (ok, m')"
  shows "\<exists>s'. once_step (is_write_once hs) arg i s s' \<and>
    pcs s' i = (if ok then Entered else Refused) \<and> once_abs m' b s'"
proof (cases "sh_handle s \<noteq> NULL \<and> is_write_once hs (sh_handle s)")
  case True
  let ?c = "sh_count s"
  let ?m2 = "patch m (buf_data b + off_write_count) (enc32 (?c + 1))"
  let ?s' = "(goto s i (if 0 < sint ?c then Refused else Entered))\<lparr>sh_count := ?c + 1\<rparr>"
  obtain hd where hd: "hs (sh_handle s) = Some hd" "flags hd AND BUN_HANDLE_WRITE_ONCE \<noteq> 0"
    using True by (auto simp: is_write_once_def split: option.splits)
  have enter: "write_once_enter m (buf_data b + off_write_count) = Some (\<not> 0 < sint ?c, ?m2)"
    using abs mem by (simp add: write_once_enter_def once_abs_def store_patch off_write_count_def)
  have abs2: "once_abs ?m2 b ?s'"
    using abs mem
    by (simp add: once_abs_def off_handle_def off_write_count_def load64_patch load32_at
        at_mem_patch_same)
  have step: "once_step (is_write_once hs) arg i s ?s'"
    using pc True by (intro once_step.fetch_add) simp_all
  show ?thesis
  proof (cases "0 < sint ?c")
    case True
    with run hd enter abs \<open>sh_handle s \<noteq> NULL \<and> _\<close> have "\<not> ok \<and> m' = ?m2"
      by (simp add: enter_writer_def once_abs_def)
    with step True abs2 show ?thesis
      by (intro exI [of _ ?s']) simp
  next
    case False
    with run hd enter abs \<open>sh_handle s \<noteq> NULL \<and> _\<close> have
      "ok \<and> write_header ?m2 (bun_buffer_payload b) arch tid = Some m'"
      by (auto simp: enter_writer_def once_abs_def split: bind_splits)
    moreover have "buf_data b + 40 \<le> length ?m2"
      using mem by (simp add: off_write_count_def)
    ultimately have "ok \<and> once_abs m' b ?s'"
      using abs2 once_abs_header by blast
    with step False show ?thesis
      by (intro exI [of _ ?s']) simp
  qed
next
  case False
  let ?s' = "goto s i Entered"
  have "ok \<and> write_header m (bun_buffer_payload b) arch tid = Some m'"
    using run abs False
    by (auto simp: enter_writer_def once_abs_def is_write_once_def split: bind_splits if_splits)
  with abs mem have "ok" "once_abs m' b ?s'"
    using once_abs_header [of m b s arch tid m'] by (auto simp: once_abs_def)
  moreover have "once_step (is_write_once hs) arg i s ?s'"
    using pc False by (intro once_step.unguarded) auto
  ultimately show ?thesis
    by (intro exI [of _ ?s']) simp
qed

lemma bun_writer_init_enter:
  assumes "\<not> buf_size b < of_nat sizeof_bun_payload_header"
    and "load64 m (buf_data b + off_handle) = Some h0"
  shows "map_option (\<lambda>(ok, w', m'). (ok, m')) (bun_writer_init hs tid m w b arch handle) =
    (if h0 \<noteq> NULL \<and> handle \<noteq> NULL \<and> handle \<noteq> h0 then Some (False, m)
     else do {
       m1 \<leftarrow> (if h0 = NULL \<and> handle \<noteq> NULL
              then store m (buf_data b + off_handle) (enc64 handle) else Some m);
       enter_writer hs tid m1 b arch
     })"
proof (cases "h0 \<noteq> NULL \<and> handle \<noteq> NULL \<and> handle \<noteq> h0")
  case True
  with assms show ?thesis
    by (simp add: bun_writer_init_def)
next
  case False
  then have "\<not> (h0 \<noteq> NULL \<and> handle \<noteq> NULL \<and> handle \<noteq> h0)" .
  then show ?thesis
    unfolding bun_writer_init_def enter_writer_def map_conv_bind_option
    using assms by (simp only: if_False Option.bind_assoc bind.simps)
      (auto simp: case_prod_beta' intro!: Option.bind_cong)
qed

text \<open>
  C9: a call of \<open>bun_writer_init\<close> is one of the schedules: run alone by a thread it takes
  the shared fields through steps of the relation and ends entered when it returns true
  and refused when it returns false.
\<close>

theorem bun_writer_init_schedule:
  assumes "buffer_ok m b" and "once_abs m b s" and "pcs s i = Start" and "i < n"
    and "bun_writer_init hs tid m w b arch handle = Some (ok, w', m')"
  shows "\<exists>s'. once_reach (is_write_once hs) handle n s s' \<and>
    pcs s' i = (if ok then Entered else Refused) \<and> once_abs m' b s'"
proof -
  let ?wo = "is_write_once hs" and ?h = "sh_handle s"
  have mem: "buf_data b + 40 \<le> length m" and "40 \<le> unat (buf_size b)"
    using assms(1) by (simp_all add: buffer_ok_def layout_defs)
  then have size: "\<not> buf_size b < of_nat sizeof_bun_payload_header"
    by (simp add: word_less_nat_alt sizeof_bun_payload_header_def)
  have h0: "load64 m (buf_data b + off_handle) = Some ?h"
    using assms(2) by (simp add: once_abs_def)
  note init = bun_writer_init_enter [OF size h0, of hs tid w arch handle, unfolded assms(5), simplified]
  show ?thesis
  proof (cases "?h \<noteq> NULL \<and> handle \<noteq> NULL \<and> handle \<noteq> ?h")
    case True
    have "once_step ?wo handle i s (goto s i Refused)"
      using True assms(3) by (intro once_step.mismatch) auto
    with once_reach.init assms(4) have "once_reach ?wo handle n s (goto s i Refused)"
      by (rule once_reach.step)
    moreover have "\<not> ok" "m' = m"
      using init True by auto
    ultimately show ?thesis
      using assms(2) once_abs_cong [of m b s "goto s i Refused"]
      by (intro exI [of _ "goto s i Refused"]) simp
  next
    case False
    let ?m1 = "if ?h = NULL \<and> handle \<noteq> NULL
      then patch m (buf_data b + off_handle) (enc64 handle) else m"
    have len1: "buf_data b + 40 \<le> length ?m1"
      using mem by (simp add: off_handle_def)
    have run: "enter_writer hs tid ?m1 b arch = Some (ok, m')"
      using init False mem by (auto simp: store_patch off_handle_def split: if_splits)
    obtain s1 where s1: "once_reach ?wo handle n s s1" "pcs s1 i = Guard" "sh_count s1 = sh_count s"
      "sh_handle s1 = (if ?h = NULL \<and> handle \<noteq> NULL then handle else ?h)"
      using once_reach_handle [OF assms(3,4) False, where wo = ?wo] by blast
    have abs1: "once_abs ?m1 b s1"
    proof (cases "?h = NULL \<and> handle \<noteq> NULL")
      case True
      with once_abs_set_handle [OF assms(2) mem s1(3)] s1(4) show ?thesis by simp
    next
      case False
      with once_abs_cong [OF assms(2) _ s1(3)] s1(4) show ?thesis by auto
    qed
    obtain s' where "once_step ?wo handle i s1 s'" "pcs s' i = (if ok then Entered else Refused)"
      "once_abs m' b s'"
      using enter_writer_step [OF abs1 len1 s1(2) run] by blast
    with once_reach.step [OF s1(1) assms(4)] show ?thesis by blast
  qed
qed

text \<open>A schedule in which the first of two threads enters.\<close>

definition sample_entered :: once_state where
  "sample_entered = \<lparr>sh_handle = 5, sh_count = 1, pcs = (\<lambda>_. Start)(0 := Entered)\<rparr>"

lemma sample_schedule: "once_reach (\<lambda>_. True) 5 2 once_init sample_entered"
proof -
  let ?s1 = "goto once_init 0 Set_handle"
  let ?s2 = "(goto ?s1 0 Guard)\<lparr>sh_handle := 5\<rparr>"
  have "once_step (\<lambda>_. True) 5 0 once_init (goto once_init 0 (if (5 :: ptr) = NULL then Guard else Set_handle))"
    by (rule once_step.unset) (simp_all add: once_init_def)
  then have "once_step (\<lambda>_. True) 5 0 once_init ?s1"
    by simp
  then have r1: "once_reach (\<lambda>_. True) 5 2 once_init ?s1"
    by (intro once_reach.step [OF once_reach.init, of 0]) simp_all
  have "once_step (\<lambda>_. True) 5 0 ?s1 ?s2"
    by (rule once_step.set_handle) simp
  then have r2: "once_reach (\<lambda>_. True) 5 2 once_init ?s2"
    by (intro once_reach.step [OF r1, of 0]) simp_all
  have "once_step (\<lambda>_. True) 5 0 ?s2 ((goto ?s2 0 (if 0 < sint (sh_count ?s2) then Refused
      else Entered))\<lparr>sh_count := sh_count ?s2 + 1\<rparr>)"
    by (rule once_step.fetch_add) simp_all
  also have "((goto ?s2 0 (if 0 < sint (sh_count ?s2) then Refused
      else Entered))\<lparr>sh_count := sh_count ?s2 + 1\<rparr>) = sample_entered"
    by (simp add: goto_def once_init_def sample_entered_def)
  finally show ?thesis
    using r2 by (intro once_reach.step [OF r2, of 0]) simp_all
qed

theorem write_once_exclusive_witness:
  "pcs sample_entered 1 \<noteq> Entered \<and> 0 < unat (sh_count sample_entered)"
  using write_once_exclusive [OF sample_schedule, of 0] by (auto simp: sample_entered_def)

theorem write_once_refused_witness:
  "if pcs sample_entered 1 = Refused then \<exists>i < 2. pcs sample_entered i = Entered
    else pcs sample_entered 1 = Entered \<or> (\<exists>s'. once_step (\<lambda>_. True) 5 1 sample_entered s')"
  by (rule write_once_refused [OF sample_schedule]) simp_all

theorem write_once_enter_iff_witness:
  "\<exists>m'. write_once_enter (replicate 8 0) 2 =
      Some (unat (0 :: u32) = 0 \<or> 2 ^ 31 \<le> unat (0 :: u32), m') \<and> load32 m' 2 = Some (0 + 1)"
  by (rule write_once_enter_iff) (simp add: load_replicate_zero)

theorem bun_writer_init_schedule_witness:
  "\<exists>s'. once_reach (is_write_once (\<lambda>_. None)) 0 1 once_init s' \<and>
    pcs s' 0 = (if True then Entered else Refused) \<and>
    once_abs (patch (replicate 100 0) 16 (header_bytes BUN_ARCH_ARM 7))
      \<lparr>buf_data = 0, buf_size = 100\<rparr> s'"
proof (rule bun_writer_init_schedule)
  let ?b = "\<lparr>buf_data = 0, buf_size = 100 :: u64\<rparr>"
  show "buffer_ok (replicate 100 0) ?b"
    by (simp add: buffer_ok_def layout_defs)
  show "once_abs (replicate 100 0) ?b once_init"
    by (simp add: once_abs_def once_init_def load_replicate_zero layout_defs)
  show "bun_writer_init (\<lambda>_. None) 7 (replicate 100 0) (rw_start ?b 0) ?b BUN_ARCH_ARM 0 =
      Some (True, rw_start ?b 0, patch (replicate 100 0) 16 (header_bytes BUN_ARCH_ARM 7))"
    using payload_words [OF \<open>buffer_ok (replicate 100 0) ?b\<close>]
    by (simp add: bun_writer_init_def load_replicate_zero write_header_patch rw_start_def layout_defs)
qed (simp_all add: once_init_def)

end
