(* ===== verification/Bun_Backend.thy ===== *)
theory Bun_Backend
  imports Bun_Roundtrip
begin

text \<open>
  What every unwinding backend does with the buffer it is given: initialize a writer (and
  ignore whether that succeeded), put the backend's number and the thread into the header,
  write the frames until one does not fit, return the size in the header or 0. The locale
  \<open>backend\<close> is the contract between the unwinding entry points and the clients of the
  stream: an entry point that behaves like \<open>backend_record\<close> on the frames its library
  yields hands these frames to the reader.
\<close>

subsection \<open>The common shape\<close>

definition backend_start ::
    "handle_heap \<Rightarrow> u32 \<Rightarrow> mem \<Rightarrow> bun_writer \<Rightarrow> bun_buffer \<Rightarrow> bun_architecture \<Rightarrow> ptr
      \<Rightarrow> bun_unwind_backend \<Rightarrow> u32 option \<Rightarrow> (bun_writer \<times> mem) option" where
  "backend_start hs tid m w b arch handle kind t =
     do {
       (ok, w1, m1) \<leftarrow> bun_writer_init hs tid m w b arch handle;
       m2 \<leftarrow> bun_header_backend_set m1 w1 kind;
       m3 \<leftarrow> (case t of None \<Rightarrow> Some m2 | Some t' \<Rightarrow> bun_header_tid_set m2 w1 t');
       Some (w1, m3)
     }"

text \<open>\<open>return hdr->size\<close>, with \<open>hdr\<close> the buffer's payload.\<close>

definition written_size :: "mem \<Rightarrow> bun_buffer \<Rightarrow> u64 option" where
  "written_size m b = map_option ucast (load32 m (bun_buffer_payload b + hdr_size))"

definition frames_result :: "bun_buffer \<Rightarrow> bool \<times> bun_writer \<times> mem \<Rightarrow> (u64 \<times> mem) option" where
  "frames_result b x =
     (case x of (done, w, m) \<Rightarrow>
        if done then do { n \<leftarrow> written_size m b; Some (n, m) } else Some (0, m))"

definition backend_record ::
    "handle_heap \<Rightarrow> u32 \<Rightarrow> mem \<Rightarrow> bun_writer \<Rightarrow> bun_buffer \<Rightarrow> bun_architecture \<Rightarrow> ptr
      \<Rightarrow> bun_unwind_backend \<Rightarrow> u32 option \<Rightarrow> bun_frame list \<Rightarrow> (u64 \<times> mem) option" where
  "backend_record hs tid m w b arch handle kind t fs =
     do {
       (w1, m1) \<leftarrow> backend_start hs tid m w b arch handle kind t;
       x \<leftarrow> write_frames m1 w1 fs;
       frames_result b x
     }"

text \<open>What the stream's header tells the client after the reader is initialized.\<close>

definition stream_header :: "mem \<Rightarrow> bun_buffer \<Rightarrow> ptr \<Rightarrow> (u32 \<times> int) option" where
  "stream_header m b handle =
     do {
       (ok, r) \<leftarrow> bun_reader_init m (rw_start b handle) b handle;
       tid \<leftarrow> bun_header_tid_get m r;
       kind \<leftarrow> bun_header_backend_get m r;
       if ok then Some (tid, kind) else None
     }"

subsection \<open>The header of a started stream\<close>

lemma backend_start_ok:
  assumes ok: "buffer_ok m b"
    and init: "bun_writer_init hs tid m w b arch handle = Some (True, w1, m1)"
  shows "\<exists>m'. backend_start hs tid m w b arch handle kind t = Some (rw_start b handle, m') \<and>
    length m' = length m \<and>
    load64 m' (buf_data b + 16) = Some BUN_HEADER_MAGIC \<and>
    header_size m' (rw_start b handle) = Some 24 \<and>
    load32 m' (buf_data b + 32) = Some (case t of None \<Rightarrow> tid | Some t' \<Rightarrow> t') \<and>
    load16 m' (buf_data b + 36) = Some (word_of_int (backend_value kind)) \<and>
    load64 m' (buf_data b + 8) = load64 m1 (buf_data b + 8)"
proof -
  note w1 = bun_writer_init_success [OF ok init] and hdr = header_bytes_fields [OF
      bun_writer_init_success(3) [OF ok init]]
  let ?d = "buf_data b" and ?k = "enc16 (word_of_int (backend_value kind))"
  have room: "?d + 40 \<le> length m1"
    using ok w1(2) by (simp add: buffer_ok_def layout_defs)
  let ?m2 = "patch m1 (?d + 36) ?k"
  have s2: "bun_header_backend_set m1 (rw_start b handle) kind = Some ?m2"
    using room by (simp add: bun_header_backend_set_def hdr_backend_def store_patch add.commute)
  show ?thesis
  proof (cases t)
    case None
    have "backend_start hs tid m w b arch handle kind t = Some (rw_start b handle, ?m2)"
      using init w1(1) s2 None by (simp add: backend_start_def)
    with None room hdr w1(2) show ?thesis
      by (simp add: header_size_start layout_defs load64_patch load32_patch load16_at
          at_mem_patch_same add.commute [of _ ?d])
  next
    case (Some t')
    let ?m3 = "patch ?m2 (?d + 32) (enc32 t')"
    have "bun_header_tid_set ?m2 (rw_start b handle) t' = Some ?m3"
      using room by (simp add: bun_header_tid_set_def hdr_tid_def store_patch add.commute)
    then have "backend_start hs tid m w b arch handle kind t = Some (rw_start b handle, ?m3)"
      using init w1(1) s2 Some by (simp add: backend_start_def)
    with Some room hdr w1(2) show ?thesis
      by (simp add: header_size_start layout_defs load64_patch load32_patch load16_patch load16_at
          load32_at at_mem_patch_same add.commute [of _ ?d])
  qed
qed

subsection \<open>The result, and what a client reads\<close>

lemma written_size_start:
  "header_size m (rw_start b handle) = Some h \<Longrightarrow> written_size m b = Some (ucast h)"
  by (simp add: written_size_def header_size_start bun_buffer_payload_def off_header_def)

lemma ucast_size:
  "24 + n < 2 ^ 32 \<Longrightarrow> ucast (24 + of_nat n :: u32) = (24 + of_nat n :: u64)"
  by (simp add: word_unat_eq_iff unat_ucast_32_64 unat_word_ariths unat_of_nat)

text \<open>
  A writer on a fresh buffer, and on a buffer some other writer used before: with a handle
  that is not write-once it starts again, provided the buffer belongs to no handle or to the
  same one.
\<close>

lemma bun_writer_init_after:
  assumes sz: "40 \<le> unat sz" and mem: "d + unat sz \<le> length m0" "length m0 < 2 ^ 63"
    and init: "bun_buffer_init m0 b0 d sz = Some (True, b, m)"
    and handle: "handle = NULL \<or> hs handle \<noteq> None"
  shows "b = \<lparr>buf_data = d, buf_size = sz\<rparr>" and "buffer_ok m b"
    and "\<exists>m1. bun_writer_init hs tid m w b arch handle = Some (True, rw_start b handle, m1)"
proof -
  have run: "bun_buffer_init m0 b0 d sz =
      Some (True, \<lparr>buf_data = d, buf_size = sz\<rparr>, patch m0 d (replicate 40 0))"
    using sz mem by (intro bun_buffer_init_ok) auto
  then show b: "b = \<lparr>buf_data = d, buf_size = sz\<rparr>"
    using init by simp
  have m: "m = patch m0 d (replicate 40 0)"
    using init run by simp
  show "buffer_ok m b"
    using sz mem by (simp add: buffer_ok_def b m layout_defs)
  show "\<exists>m1. bun_writer_init hs tid m w b arch handle = Some (True, rw_start b handle, m1)"
    using bun_writer_init_fresh [where hs = hs and tid = tid and w = w and arch = arch,
        OF sz mem handle] unfolding b m by blast
qed

lemma bun_writer_init_again:
  assumes ok: "buffer_ok m b" and h: "handle \<noteq> NULL" "hs handle = Some bh" "flags bh = 0"
    and owner: "load64 m (buf_data b + off_handle) = Some h0" "h0 = NULL \<or> h0 = handle"
  shows "\<exists>m1. bun_writer_init hs tid m w b arch handle = Some (True, rw_start b handle, m1) \<and>
    load64 m1 (buf_data b + off_handle) = Some handle"
proof -
  let ?m1 = "if h0 = NULL then patch m (buf_data b + off_handle) (enc64 handle) else m"
  have room: "buf_data b + 40 \<le> length m"
    using ok by (simp add: buffer_ok_def layout_defs)
  have "40 \<le> unat (buf_size b)"
    using ok by (simp add: buffer_ok_def layout_defs)
  then have size: "\<not> buf_size b < 24"
    by (simp add: word_less_nat_alt)
  have h1: "load64 ?m1 (buf_data b + off_handle) = Some handle"
    using room owner by (auto simp: off_handle_def load64_at at_mem_patch_same)
  have st: "(if h0 = NULL \<and> handle \<noteq> NULL then store m (buf_data b + off_handle) (enc64 handle)
      else Some m) = Some ?m1"
    using room h(1) by (simp add: store_patch off_handle_def)
  have "bun_buffer_payload b + 24 \<le> length ?m1"
    using room by (simp add: bun_buffer_payload_def off_header_def off_handle_def)
  then have "write_header ?m1 (bun_buffer_payload b) arch tid =
      Some (patch ?m1 (bun_buffer_payload b) (header_bytes arch tid))"
    by (rule write_header_patch)
  moreover have "load64 (patch ?m1 (bun_buffer_payload b) (header_bytes arch tid))
      (buf_data b + off_handle) = Some handle"
    using room by (subst load64_patch)
      (simp_all add: h1 bun_buffer_payload_def off_header_def off_handle_def [symmetric] del: One_nat_def,
        simp_all add: off_handle_def)
  moreover have "\<lparr>rw_buffer = bun_buffer_payload b,
      rw_cursor = bun_buffer_payload b + sizeof_bun_payload_header,
      rw_size = bun_buffer_payload_size b, rw_handle = handle, rw_overflow = False\<rparr>
      = rw_start b handle"
    using payload_words(2) [OF ok] by (simp add: rw_start_def layout_defs)
  moreover have "\<not> (h0 \<noteq> NULL \<and> handle \<noteq> NULL \<and> handle \<noteq> h0)"
    using owner(2) by blast
  ultimately show ?thesis
    using size st h1 owner(1) h by (simp add: bun_writer_init_def sizeof_bun_payload_header_def)
qed

text \<open>A buffer that belongs to another handle is refused; nothing is written.\<close>

lemma bun_writer_init_foreign:
  assumes "buffer_ok m b" and "load64 m (buf_data b + off_handle) = Some h0"
    and "h0 \<noteq> NULL" and "handle \<noteq> NULL" and "handle \<noteq> h0"
  shows "bun_writer_init hs tid m w b arch handle = Some (False, w, m)"
  using assms by (simp add: bun_writer_init_def)

lemma stream_header_ok:
  assumes ok: "buffer_ok m b" and "load64 m (buf_data b + 16) = Some BUN_HEADER_MAGIC"
    and "load32 m (buf_data b + 32) = Some t" and "load16 m (buf_data b + 36) = Some k"
  shows "stream_header m b handle = Some (t, uint k)"
  using assms bun_reader_init_ok [OF ok]
  by (simp add: stream_header_def bun_header_tid_get_def bun_header_backend_get_def hdr_tid_def
      hdr_backend_def add.commute [of _ "buf_data b"])

text \<open>
  The frames that were written, seen from both sides: where the writer stands, and what a
  client reads.
\<close>

lemma backend_frames_written:
  assumes ok: "buffer_ok m b"
    and init: "bun_writer_init hs tid m w b arch handle = Some (True, rw_start b handle, mi)"
    and fs: "\<forall>f \<in> set fs. frame_ok f" and fits: "40 + total_size fs \<le> unat (buf_size b)"
    and small: "24 + accounted fs < 2 ^ 32"
  shows "\<exists>m1 m' gs. backend_start hs tid m w b arch handle kind t = Some (rw_start b handle, m1) \<and>
    write_frames m1 (rw_start b handle) fs =
      Some (True, rw_advance (rw_start b handle) (total_size fs), m') \<and>
    buffer_ok m' b \<and> written_size m' b = Some (24 + of_nat (accounted fs)) \<and>
    load64 m' (buf_data b + 8) = load64 mi (buf_data b + 8) \<and>
    stream_header m' b handle' =
      Some (case t of None \<Rightarrow> tid | Some t' \<Rightarrow> t',
        uint (word_of_int (backend_value kind) :: u16)) \<and>
    replay_stream m' r b handle' g = Some gs \<and>
    map parsed_of_frame gs = map parsed_of_frame (readable (24 + accounted fs) 24 fs)"
proof -
  obtain m1 where start: "backend_start hs tid m w b arch handle kind t = Some (rw_start b handle, m1)"
    and len1: "length m1 = length m"
    and magic: "load64 m1 (buf_data b + 16) = Some BUN_HEADER_MAGIC"
    and size: "header_size m1 (rw_start b handle) = Some 24"
    and tid: "load32 m1 (buf_data b + 32) = Some (case t of None \<Rightarrow> tid | Some t' \<Rightarrow> t')"
    and kind: "load16 m1 (buf_data b + 36) = Some (word_of_int (backend_value kind))"
    and owner: "load64 m1 (buf_data b + 8) = load64 mi (buf_data b + 8)"
    using backend_start_ok [OF ok init, of kind t] by (elim exE conjE)
  have ok1: "buffer_ok m1 b"
    using ok buffer_ok_length [OF len1] by blast
  let ?m' = "frames_written m1 (rw_start b handle) fs 24"
  note fin = frames_written_start [OF ok1 fs fits magic, where handle = handle]
  have wrote: "write_frames m1 (rw_start b handle) fs =
      Some (True, rw_advance (rw_start b handle) (total_size fs), ?m')"
    using rw_start_ok [OF ok1, of handle] fs fits size by (intro write_frames_ok) auto
  have sz: "written_size ?m' b = Some (24 + of_nat (accounted fs))"
    using written_size_start [OF fin(3)] ucast_size [OF small] by simp
  obtain tail where tail: "rw_rest ?m' (rw_start b handle') = stream_bytes fs @ tail"
    using fin(4) by blast
  have ok': "buffer_ok ?m' b"
    using ok1 buffer_ok_length [OF fin(1)] by blast
  have hdr: "stream_header ?m' b handle' = Some (case t of None \<Rightarrow> tid | Some t' \<Rightarrow> t',
      uint (word_of_int (backend_value kind) :: u16))"
    using fin(5,6) tid kind by (intro stream_header_ok [OF ok' fin(2)]) simp_all
  obtain gs where "replay_stream ?m' r b handle' g = Some gs"
    "map parsed_of_frame gs = map parsed_of_frame (readable (24 + accounted fs) 24 fs)"
    using replay_stream_ok [OF ok' fin(2,3) tail fs small, of r g] by (elim exE conjE)
  then show ?thesis
    by (intro exI [of _ m1] exI [of _ ?m'] exI [of _ gs] conjI start wrote ok' sz hdr
        trans [OF fin(7) owner])
qed

lemma backend_record_replay_init:
  assumes "buffer_ok m b"
    and "bun_writer_init hs tid m w b arch handle = Some (True, rw_start b handle, mi)"
    and "\<forall>f \<in> set fs. frame_ok f" and "40 + total_size fs \<le> unat (buf_size b)"
    and "24 + accounted fs < 2 ^ 32"
  shows "\<exists>m' gs. backend_record hs tid m w b arch handle kind t fs =
      Some (24 + of_nat (accounted fs), m') \<and>
    stream_header m' b handle' =
      Some (case t of None \<Rightarrow> tid | Some t' \<Rightarrow> t',
        uint (word_of_int (backend_value kind) :: u16)) \<and>
    replay_stream m' r b handle' g = Some gs \<and>
    map parsed_of_frame gs = map parsed_of_frame (readable (24 + accounted fs) 24 fs)"
  using backend_frames_written [OF assms, of kind t handle' r g]
  by (elim exE conjE) (simp add: backend_record_def frames_result_def)

text \<open>
  With a handle that is not write-once the buffer can be recorded into again and again: it
  belongs to the handle from the first time on.
\<close>

lemma backend_record_again:
  assumes ok: "buffer_ok m b" and h: "handle \<noteq> NULL" "hs handle = Some bh" "flags bh = 0"
    and owner: "load64 m (buf_data b + off_handle) = Some h0" "h0 = NULL \<or> h0 = handle"
    and fs: "\<forall>f \<in> set fs. frame_ok f" and fits: "40 + total_size fs \<le> unat (buf_size b)"
    and small: "24 + accounted fs < 2 ^ 32"
  shows "\<exists>m' gs. backend_record hs tid m w b arch handle kind t fs =
      Some (24 + of_nat (accounted fs), m') \<and>
    buffer_ok m' b \<and> load64 m' (buf_data b + off_handle) = Some handle \<and>
    stream_header m' b handle' =
      Some (case t of None \<Rightarrow> tid | Some t' \<Rightarrow> t',
        uint (word_of_int (backend_value kind) :: u16)) \<and>
    replay_stream m' r b handle' g = Some gs \<and>
    map parsed_of_frame gs = map parsed_of_frame (readable (24 + accounted fs) 24 fs)"
proof -
  obtain mi where init: "bun_writer_init hs tid m w b arch handle = Some (True, rw_start b handle, mi)"
    and mi: "load64 mi (buf_data b + off_handle) = Some handle"
    using bun_writer_init_again [where hs = hs and handle = handle, OF ok h owner] by blast
  from backend_frames_written [OF ok init fs fits small, of kind t handle' r g] mi show ?thesis
    by (elim exE conjE) (simp add: backend_record_def frames_result_def off_handle_def)
qed

lemma backend_record_replay:
  assumes mem: "d + unat sz \<le> length m0" "length m0 < 2 ^ 63"
    and init: "bun_buffer_init m0 b0 d sz = Some (True, b, m)"
    and handle: "handle = NULL \<or> hs handle \<noteq> None"
    and fs: "\<forall>f \<in> set fs. frame_ok f" and fits: "40 + total_size fs \<le> unat sz"
    and small: "24 + accounted fs < 2 ^ 32"
  shows "\<exists>m' gs. backend_record hs tid m w b arch handle kind t fs =
      Some (24 + of_nat (accounted fs), m') \<and>
    stream_header m' b handle' =
      Some (case t of None \<Rightarrow> tid | Some t' \<Rightarrow> t',
        uint (word_of_int (backend_value kind) :: u16)) \<and>
    replay_stream m' r b handle' g = Some gs \<and>
    map parsed_of_frame gs = map parsed_of_frame (readable (24 + accounted fs) 24 fs)"
proof -
  have sz: "40 \<le> unat sz"
    using fits by simp
  note after = bun_writer_init_after [where hs = hs and handle = handle, OF sz mem init handle]
  obtain mi where "bun_writer_init hs tid m w b arch handle = Some (True, rw_start b handle, mi)"
    using after(3) by blast
  from backend_record_replay_init [OF after(2) this fs _ small] show ?thesis
    using fits after(1) by simp
qed

text \<open>
  When a frame does not fit any more, the backend reports 0; the frames before it stay in the
  buffer, in a stream that can be read.
\<close>

lemma write_frames_append:
  "write_frames m w (fs @ gs) =
     do { (done, w1, m1) \<leftarrow> write_frames m w fs;
          if done then write_frames m1 w1 gs else Some (False, w1, m1) }"
  by (induction fs arbitrary: m w) (auto simp: case_prod_beta' split: bind_splits)

lemma backend_record_full_init:
  assumes ok: "buffer_ok m b"
    and init: "bun_writer_init hs tid m w b arch handle = Some (True, rw_start b handle, mi)"
    and fs: "\<forall>f \<in> set fs. frame_ok f" and f: "frame_ok f"
    and fits: "40 + total_size fs \<le> unat (buf_size b)"
    and full: "unat (buf_size b) < 40 + total_size fs + frame_size f"
    and small: "24 + accounted fs < 2 ^ 32"
  shows "\<exists>m' gs. backend_record hs tid m w b arch handle kind t (fs @ f # fs') = Some (0, m') \<and>
    stream_header m' b handle' =
      Some (case t of None \<Rightarrow> tid | Some t' \<Rightarrow> t',
        uint (word_of_int (backend_value kind) :: u16)) \<and>
    replay_stream m' r b handle' g = Some gs \<and>
    map parsed_of_frame gs = map parsed_of_frame (readable (24 + accounted fs) 24 fs)"
proof -
  let ?w = "rw_start b handle" and ?n = "total_size fs"
  obtain m1 m' gs where start: "backend_start hs tid m w b arch handle kind t = Some (?w, m1)"
    and wrote: "write_frames m1 ?w fs = Some (True, rw_advance ?w ?n, m')"
    and ok': "buffer_ok m' b"
    and client: "stream_header m' b handle' = Some (case t of None \<Rightarrow> tid | Some t' \<Rightarrow> t',
        uint (word_of_int (backend_value kind) :: u16))"
      "replay_stream m' r b handle' g = Some gs"
      "map parsed_of_frame gs = map parsed_of_frame (readable (24 + accounted fs) 24 fs)"
    using backend_frames_written [OF ok init fs fits small, of kind t handle' r g]
    by (elim exE conjE)
  note w = rw_start_ok [OF ok', of handle]
  have left: "?n \<le> rw_left ?w" "rw_left ?w - ?n < frame_size f"
    using fits full w(2) by simp_all
  have "bun_frame_write m' (rw_advance ?w ?n) f = Some (0, rw_advance ?w ?n, m')"
    using w(1) left f by (intro bun_frame_write_full) (auto simp: rw_ok_advance)
  then have "write_frames m1 ?w (fs @ f # fs') = Some (False, rw_advance ?w ?n, m')"
    by (simp add: write_frames_append wrote)
  with start client show ?thesis
    by (simp add: backend_record_def frames_result_def)
qed

lemma backend_record_full:
  assumes mem: "d + unat sz \<le> length m0" "length m0 < 2 ^ 63"
    and init: "bun_buffer_init m0 b0 d sz = Some (True, b, m)"
    and handle: "handle = NULL \<or> hs handle \<noteq> None"
    and fs: "\<forall>f \<in> set fs. frame_ok f" and f: "frame_ok f"
    and fits: "40 + total_size fs \<le> unat sz"
    and full: "unat sz < 40 + total_size fs + frame_size f"
    and small: "24 + accounted fs < 2 ^ 32"
  shows "\<exists>m' gs. backend_record hs tid m w b arch handle kind t (fs @ f # fs') = Some (0, m') \<and>
    stream_header m' b handle' =
      Some (case t of None \<Rightarrow> tid | Some t' \<Rightarrow> t',
        uint (word_of_int (backend_value kind) :: u16)) \<and>
    replay_stream m' r b handle' g = Some gs \<and>
    map parsed_of_frame gs = map parsed_of_frame (readable (24 + accounted fs) 24 fs)"
proof -
  have sz: "40 \<le> unat sz"
    using fits by simp
  note after = bun_writer_init_after [where hs = hs and handle = handle, OF sz mem init handle]
  obtain mi where "bun_writer_init hs tid m w b arch handle = Some (True, rw_start b handle, mi)"
    using after(3) by blast
  from backend_record_full_init [OF after(2) this fs f _ _ small] show ?thesis
    using fits full after(1) by simp
qed

subsection \<open>The contract\<close>

text \<open>
  \<open>yields u fs\<close>: the external library in state \<open>u\<close> produces the frames \<open>fs\<close>; \<open>run\<close> is the
  entry point of the backend, \<open>arch_of\<close> the architecture it was built for and \<open>owner\<close> the
  thread it names in the header, if it names one.
\<close>

locale backend =
  fixes kind :: bun_unwind_backend
    and yields :: "'u \<Rightarrow> bun_frame list \<Rightarrow> bool"
    and arch_of :: "'u \<Rightarrow> bun_architecture"
    and owner :: "'u \<Rightarrow> u32 option"
    and run :: "'u \<Rightarrow> handle_heap \<Rightarrow> u32 \<Rightarrow> mem \<Rightarrow> bun_writer \<Rightarrow> bun_buffer \<Rightarrow> ptr
      \<Rightarrow> (u64 \<times> mem) option"
  assumes run_records: "yields u fs \<Longrightarrow>
      run u hs tid m w b handle =
        backend_record hs tid m w b (arch_of u) handle kind (owner u) fs"
    and yields_ok: "yields u fs \<Longrightarrow> f \<in> set fs \<Longrightarrow> frame_ok f"
begin

lemma run_replay:
  assumes "d + unat sz \<le> length m0" "length m0 < 2 ^ 63"
    and "bun_buffer_init m0 b0 d sz = Some (True, b, m)"
    and "handle = NULL \<or> hs handle \<noteq> None"
    and "yields u fs" and "40 + total_size fs \<le> unat sz" and "24 + accounted fs < 2 ^ 32"
  shows "\<exists>m' gs. run u hs tid m w b handle = Some (24 + of_nat (accounted fs), m') \<and>
    stream_header m' b handle' =
      Some (case owner u of None \<Rightarrow> tid | Some t \<Rightarrow> t,
        uint (word_of_int (backend_value kind) :: u16)) \<and>
    replay_stream m' r b handle' g = Some gs \<and>
    map parsed_of_frame gs = map parsed_of_frame (readable (24 + accounted fs) 24 fs)"
  unfolding run_records [OF assms(5)]
  using yields_ok [OF assms(5)] assms by (intro backend_record_replay) auto

text \<open>The same on a buffer that was in use, once its writer has started.\<close>

lemma run_replay_init:
  assumes "buffer_ok m b"
    and "bun_writer_init hs tid m w b (arch_of u) handle = Some (True, rw_start b handle, mi)"
    and "yields u fs" and "40 + total_size fs \<le> unat (buf_size b)" and "24 + accounted fs < 2 ^ 32"
  shows "\<exists>m' gs. run u hs tid m w b handle = Some (24 + of_nat (accounted fs), m') \<and>
    stream_header m' b handle' =
      Some (case owner u of None \<Rightarrow> tid | Some t \<Rightarrow> t,
        uint (word_of_int (backend_value kind) :: u16)) \<and>
    replay_stream m' r b handle' g = Some gs \<and>
    map parsed_of_frame gs = map parsed_of_frame (readable (24 + accounted fs) 24 fs)"
  unfolding run_records [OF assms(3)]
  using yields_ok [OF assms(3)] assms by (intro backend_record_replay_init) auto

text \<open>Up to 13 frames the reader gets all of them.\<close>

lemma run_replay_short:
  assumes "d + unat sz \<le> length m0" "length m0 < 2 ^ 63"
    and "bun_buffer_init m0 b0 d sz = Some (True, b, m)"
    and "handle = NULL \<or> hs handle \<noteq> None"
    and "yields u fs" and "40 + total_size fs \<le> unat sz" and "24 + accounted fs < 2 ^ 32"
    and "length fs \<le> 13"
  shows "\<exists>m' gs. run u hs tid m w b handle = Some (24 + of_nat (accounted fs), m') \<and>
    stream_header m' b handle' =
      Some (case owner u of None \<Rightarrow> tid | Some t \<Rightarrow> t,
        uint (word_of_int (backend_value kind) :: u16)) \<and>
    replay_stream m' r b handle' g = Some gs \<and>
    map parsed_of_frame gs = map parsed_of_frame fs"
proof -
  have "readable (24 + accounted fs) 24 fs = fs"
    using assms(8) by (intro readable_short [where d = 0]) auto
  then show ?thesis
    using run_replay [where hs = hs and handle = handle, OF assms(1-7), of tid w handle' r g]
    by simp
qed

end

end
