(* ===== verification/Bun_Libbacktrace.thy ===== *)
theory Bun_Libbacktrace
  imports Bun_Backend
begin

text \<open>
  \<open>src/backend/libbacktrace/bun_libbacktrace.c\<close>. The library libbacktrace is an argument:
  the calls of the callback \<open>backtrace_full\<close> would make, and what \<open>backtrace_syminfo\<close>
  passes on for an address. \<open>backtrace_full\<close> is documented to stop at the first call that
  does not return 0 and to return that value.
\<close>

subsection \<open>The external library\<close>

text \<open>A call of the callback: address, file name, line number, function name.\<close>

type_synonym bt_call = "u64 \<times> cstr option \<times> int \<times> cstr option"

text \<open>
  \<open>bt_syminfo\<close>: \<open>None\<close> when the error callback is called, else the name (or \<open>NULL\<close>).
\<close>

record libbacktrace =
  bt_arch :: bun_architecture
  bt_calls :: "bt_call list"
  bt_syminfo :: "u64 \<Rightarrow> cstr option option"

definition LIBBACKTRACE_MAX_SYMBOL_NAME :: nat where
  "LIBBACKTRACE_MAX_SYMBOL_NAME = 256"

definition BUN_WRITE_ERROR :: int where
  "BUN_WRITE_ERROR = -1"

subsection \<open>The callbacks\<close>

text \<open>The destination's contents before and after.\<close>

definition syminfo_callback :: "cstr \<Rightarrow> cstr option \<Rightarrow> cstr" where
  "syminfo_callback str symname =
     (case symname of
        None \<Rightarrow> str
      | Some s \<Rightarrow> take (LIBBACKTRACE_MAX_SYMBOL_NAME - 1) s)"

definition function_name :: "libbacktrace \<Rightarrow> u64 \<Rightarrow> cstr" where
  "function_name B pc =
     (case bt_syminfo B pc of None \<Rightarrow> [] | Some name \<Rightarrow> syminfo_callback [] name)"

text \<open>The frame of one call; an \<open>int\<close> line number is converted to \<open>size_t\<close>.\<close>

definition libbacktrace_frame :: "libbacktrace \<Rightarrow> bt_call \<Rightarrow> bun_frame" where
  "libbacktrace_frame B call =
     (case call of (pc, file, lineno, func) \<Rightarrow>
        let frame = zero_frame\<lparr>addr := pc, line_no := word_of_int lineno, symbol := func,
                      filename := file\<rparr>
        in if func = None then frame
           else frame\<lparr>symbol := Some (function_name B pc),
                      symbol_length := of_nat (length (function_name B pc))\<rparr>)"

definition full_callback ::
    "libbacktrace \<Rightarrow> mem \<Rightarrow> bun_writer \<Rightarrow> bt_call \<Rightarrow> (int \<times> bun_writer \<times> mem) option" where
  "full_callback B m w call =
     do {
       (n, w', m') \<leftarrow> bun_frame_write m w (libbacktrace_frame B call);
       Some (if n = 0 then BUN_WRITE_ERROR else 0, w', m')
     }"

subsection \<open>The entry point\<close>

fun backtrace_full ::
    "libbacktrace \<Rightarrow> mem \<Rightarrow> bun_writer \<Rightarrow> bt_call list \<Rightarrow> (int \<times> bun_writer \<times> mem) option" where
  "backtrace_full B m w [] = Some (0, w, m)"
| "backtrace_full B m w (call # calls) =
     do {
       (ret, w', m') \<leftarrow> full_callback B m w call;
       if ret \<noteq> 0 then Some (ret, w', m') else backtrace_full B m' w' calls
     }"

definition libbacktrace_unwind ::
    "libbacktrace \<Rightarrow> handle_heap \<Rightarrow> u32 \<Rightarrow> mem \<Rightarrow> bun_writer \<Rightarrow> bun_buffer \<Rightarrow> ptr
      \<Rightarrow> (u64 \<times> mem) option" where
  "libbacktrace_unwind B hs tid m w b handle =
     do {
       (ok, w1, m1) \<leftarrow> bun_writer_init hs tid m w b (bt_arch B) handle;
       m2 \<leftarrow> bun_header_backend_set m1 w1 BUN_BACKEND_LIBBACKTRACE;
       (ret, w', m') \<leftarrow> backtrace_full B m2 w1 (bt_calls B);
       if ret \<noteq> 0 then Some (0, m')
       else do { n \<leftarrow> written_size m' b; Some (n, m') }
     }"

subsection \<open>The callbacks write the frames\<close>

text \<open>What libbacktrace documents: the strings it passes are C strings.\<close>

definition bt_ok :: "libbacktrace \<Rightarrow> bool" where
  "bt_ok B \<longleftrightarrow>
     (\<forall>(pc, file, lineno, func) \<in> set (bt_calls B). string_ok 0 file) \<and>
     (\<forall>pc s. bt_syminfo B pc = Some (Some s) \<longrightarrow> cstr_ok s)"

definition libbacktrace_frames :: "libbacktrace \<Rightarrow> bun_frame list" where
  "libbacktrace_frames B = map (libbacktrace_frame B) (bt_calls B)"

lemma function_name_ok:
  assumes "bt_ok B"
  shows "cstr_ok (function_name B pc)" and "length (function_name B pc) < 256"
proof -
  have "cstr_ok (take n s)" if "cstr_ok s" for s :: cstr and n
    using that by (auto simp: cstr_ok_def dest: in_set_takeD)
  then show "cstr_ok (function_name B pc)" and "length (function_name B pc) < 256"
    using assms
    by (auto simp: function_name_def syminfo_callback_def LIBBACKTRACE_MAX_SYMBOL_NAME_def bt_ok_def
        cstr_ok_def split: option.splits)
qed

lemma libbacktrace_frame_ok:
  assumes "bt_ok B" and "call \<in> set (bt_calls B)"
  shows "frame_ok (libbacktrace_frame B call)"
proof -
  obtain pc fname lineno func where call: "call = (pc, fname, lineno, func)"
    by (cases call)
  have "string_ok 0 fname"
    using assms unfolding bt_ok_def call by blast
  moreover have "string_ok (of_nat (length (function_name B pc))) (Some (function_name B pc))"
    using function_name_ok [OF assms(1), of pc]
    by (simp add: string_ok_def unat_of_nat)
  ultimately show ?thesis
    by (simp add: call libbacktrace_frame_def frame_ok_def zero_frame_def Let_def)
      (simp add: string_ok_def)
qed

lemma backtrace_full_write_frames:
  "backtrace_full B m w calls =
     do {
       (done, w', m') \<leftarrow> write_frames m w (map (libbacktrace_frame B) calls);
       Some (if done then 0 else BUN_WRITE_ERROR, w', m')
     }"
  by (induction calls arbitrary: m w)
    (auto simp: full_callback_def BUN_WRITE_ERROR_def case_prod_beta' split: bind_splits)

definition libbacktrace_yields :: "libbacktrace \<Rightarrow> bun_frame list \<Rightarrow> bool" where
  "libbacktrace_yields B fs \<longleftrightarrow> bt_ok B \<and> fs = libbacktrace_frames B"

interpretation libbacktrace: backend BUN_BACKEND_LIBBACKTRACE libbacktrace_yields bt_arch
  "\<lambda>_. None" libbacktrace_unwind
proof unfold_locales
  fix B fs hs tid m w b handle
  assume "libbacktrace_yields B fs"
  then have fs: "fs = map (libbacktrace_frame B) (bt_calls B)"
    by (simp add: libbacktrace_yields_def libbacktrace_frames_def)
  show "libbacktrace_unwind B hs tid m w b handle =
      backend_record hs tid m w b (bt_arch B) handle BUN_BACKEND_LIBBACKTRACE None fs"
    unfolding fs libbacktrace_unwind_def backend_record_def backend_start_def
      backtrace_full_write_frames
    by (auto simp: frames_result_def BUN_WRITE_ERROR_def case_prod_beta' Option.bind_assoc
        split: bind_splits)
next
  fix B fs f
  assume "libbacktrace_yields B fs" and "f \<in> set fs"
  then show "frame_ok f"
    by (auto simp: libbacktrace_yields_def libbacktrace_frames_def libbacktrace_frame_ok)
qed

lemma libbacktrace_replays:
  assumes "bt_ok B"
    and "d + unat sz \<le> length m0" and "length m0 < 2 ^ 63"
    and "bun_buffer_init m0 b0 d sz = Some (True, b, m)"
    and "handle = NULL \<or> hs handle \<noteq> None"
    and "40 + total_size (libbacktrace_frames B) \<le> unat sz"
    and "24 + accounted (libbacktrace_frames B) < 2 ^ 32"
    and "length (bt_calls B) \<le> 13"
  shows "\<exists>m' gs. libbacktrace_unwind B hs tid m w b handle =
      Some (24 + of_nat (accounted (libbacktrace_frames B)), m') \<and>
    stream_header m' b handle' = Some (tid, 1) \<and>
    replay_stream m' r b handle' g = Some gs \<and>
    map parsed_of_frame gs = map parsed_of_frame (libbacktrace_frames B)"
proof -
  have y: "libbacktrace_yields B (libbacktrace_frames B)"
    using assms(1) by (simp add: libbacktrace_yields_def)
  have "length (libbacktrace_frames B) \<le> 13"
    using assms(8) by (simp add: libbacktrace_frames_def)
  from libbacktrace.run_replay_short [where hs = hs and handle = handle, OF assms(2-5) y assms(6,7)
      this, of tid w handle' r g]
  show ?thesis
    by simp
qed

subsection \<open>Properties\<close>

text \<open>
  Unwinding with libbacktrace into a fresh buffer that holds the at most 13 frames of its
  callbacks returns the size recorded in the header, names the calling thread and the
  backend there, and a reader gets exactly these frames.
\<close>

theorem libbacktrace_unwind_replay:
  assumes "bt_ok B"
    and "d + unat sz \<le> length m0" and "length m0 < 2 ^ 63"
    and "bun_buffer_init m0 b0 d sz = Some (True, b, m)"
    and "handle = NULL \<or> hs handle \<noteq> None"
    and "40 + total_size (libbacktrace_frames B) \<le> unat sz"
    and "24 + accounted (libbacktrace_frames B) < 2 ^ 32"
    and "length (bt_calls B) \<le> 13"
  shows "\<exists>m' gs. libbacktrace_unwind B hs tid m w b handle =
      Some (24 + of_nat (accounted (libbacktrace_frames B)), m') \<and>
    stream_header m' b handle' = Some (tid, 1) \<and>
    replay_stream m' r b handle' g = Some gs \<and>
    map parsed_of_frame gs = map parsed_of_frame (libbacktrace_frames B)"
  using assms by (rule libbacktrace_replays)

definition sample_bt :: libbacktrace where
  "sample_bt = \<lparr>bt_arch = BUN_ARCH_ARM64,
     bt_calls = [(16, Some [0x61], 12, Some [0x66]), (32, None, 0, None)],
     bt_syminfo = (\<lambda>pc. Some (Some [0x66, 0x6e]))\<rparr>"

lemma sample_bt_ok: "bt_ok sample_bt"
  by (simp add: bt_ok_def sample_bt_def string_ok_def cstr_ok_def)

lemma sample_bt_sizes:
  "length (libbacktrace_frames sample_bt) = 2" "total_size (libbacktrace_frames sample_bt) = 59"
  "accounted (libbacktrace_frames sample_bt) = 55" "length (bt_calls sample_bt) = 2"
  by (simp_all add: libbacktrace_frames_def sample_bt_def libbacktrace_frame_def zero_frame_def
      frame_size_def sym_bytes_def file_bytes_def Let_def function_name_def syminfo_callback_def
      LIBBACKTRACE_MAX_SYMBOL_NAME_def)

theorem libbacktrace_unwind_replay_witness:
  "\<exists>m' gs. libbacktrace_unwind sample_bt (\<lambda>_. None) 9 (replicate 300 0)
      (sample_rw 0) \<lparr>buf_data = 0, buf_size = 300\<rparr> 0 =
      Some (24 + of_nat (accounted (libbacktrace_frames sample_bt)), m') \<and>
    stream_header m' \<lparr>buf_data = 0, buf_size = 300\<rparr> 0 = Some (9, 1) \<and>
    replay_stream m' (sample_rw 0) \<lparr>buf_data = 0, buf_size = 300\<rparr> 0 zero_frame = Some gs \<and>
    map parsed_of_frame gs = map parsed_of_frame (libbacktrace_frames sample_bt)"
  by (rule libbacktrace_unwind_replay [where d = 0 and sz = 300 and ?m0.0 = "replicate 300 0" and
        ?b0.0 = "\<lparr>buf_data = 0, buf_size = 0\<rparr>", OF sample_bt_ok])
    (simp_all add: bun_buffer_init_ok patch_def sample_bt_sizes flip: replicate_add)

end
