(* ===== verification/Bun_Utils.thy ===== *)
theory Bun_Utils
  imports Prelude
begin

text \<open>
  \<open>src/bun_utils.c\<close>: the cache directory, the anonymous file with its fallbacks, the wait
  for a traced process and the signal handlers. The operating system is an argument: a
  record of functions that give each call's result.
\<close>

subsection \<open>The cache directory\<close>

text \<open>The static variable \<open>bun_internal_cache_dir\<close>: the path it points to, or \<open>NULL\<close>.\<close>

record utils_state =
  bun_internal_cache_dir :: "string option"

definition bun_cache_dir_set :: "utils_state \<Rightarrow> string option \<Rightarrow> utils_state" where
  "bun_cache_dir_set st path = st\<lparr>bun_internal_cache_dir := path\<rparr>"

definition bun_cache_dir_get :: "utils_state \<Rightarrow> string option" where
  "bun_cache_dir_get st = bun_internal_cache_dir st"

definition tmp_path :: "bool \<Rightarrow> utils_state \<Rightarrow> string" where
  "tmp_path android st =
     (case bun_cache_dir_get st of
        Some d \<Rightarrow> d
      | None \<Rightarrow> if android then ''/data/local/tmp'' else ''/tmp'')"

subsection \<open>The anonymous file\<close>

datatype open_flag = O_TMPFILE | O_CLOEXEC | O_RDWR | O_CREAT | O_TRUNC

text \<open>
  The calls that make and remove files. \<open>os_alloc\<close> tells whether \<open>asprintf\<close> can allocate
  its result; \<open>os_mkstemp\<close> returns the descriptor and the template filled in;
  \<open>os_memfd\<close> is \<open>syscall(SYS_memfd_create, name, 0)\<close>.
\<close>

record os_files =
  has_memfd :: bool
  has_tmpfile :: bool
  android :: bool
  os_memfd :: "string \<Rightarrow> int"
  os_alloc :: "string \<Rightarrow> bool"
  os_mkstemp :: "string \<Rightarrow> int \<times> string"
  os_fcntl_setfd :: "int \<Rightarrow> open_flag \<Rightarrow> int"
  os_unlink :: "string \<Rightarrow> int"
  os_open :: "string \<Rightarrow> open_flag list \<Rightarrow> int"

text \<open>What happened, in order: descriptors opened and closed, names created and removed.\<close>

datatype file_event = Opened int | Closed int | Created string | Unlinked string

definition open_events :: "int \<Rightarrow> file_event list" where
  "open_events fd = (if fd = -1 then [] else [Opened fd])"

definition close_events :: "int \<Rightarrow> file_event list" where
  "close_events fd = (if fd \<noteq> -1 then [Closed fd] else [])"

definition unlink_events :: "os_files \<Rightarrow> string \<Rightarrow> file_event list" where
  "unlink_events os name = (if os_unlink os name = -1 then [] else [Unlinked name])"

definition open_mkstemp ::
    "os_files \<Rightarrow> utils_state \<Rightarrow> string \<Rightarrow> int \<times> file_event list" where
  "open_mkstemp os st name =
     (let filename = tmp_path (android os) st @ ''/'' @ name @ ''.XXXXXX''
      in if \<not> os_alloc os filename then (-1, [])
         else let (fd, file) = os_mkstemp os filename
           in if fd = -1 then (-1, [])
              else let ev = [Opened fd, Created file]
                in if os_fcntl_setfd os fd O_CLOEXEC = -1 then (-1, ev @ close_events fd)
                   else if os_unlink os file = -1 then (-1, ev @ close_events fd)
                   else (fd, ev @ unlink_events os file))"

text \<open>\<open>"%s/"\<close> of a \<open>NULL\<close> cache directory is undefined behaviour.\<close>

definition open_real_file ::
    "os_files \<Rightarrow> utils_state \<Rightarrow> string \<Rightarrow> (int \<times> file_event list) option" where
  "open_real_file os st name =
     do {
       dir \<leftarrow> bun_cache_dir_get st;
       let final_name = dir @ ''/'';
       if \<not> os_alloc os final_name then Some (-1, [])
       else let fd = (if has_tmpfile os then os_open os final_name [O_TMPFILE, O_CLOEXEC, O_RDWR]
                      else -1)
         in if fd < 0
            then let fd' = os_open os final_name [O_CREAT, O_CLOEXEC, O_TRUNC, O_RDWR]
              in if fd' < 0 then Some (-1, close_events fd')
                 else if os_unlink os final_name = -1
                 then Some (-1, [Opened fd', Created final_name] @ close_events fd')
                 else Some (fd', [Opened fd', Created final_name] @ unlink_events os final_name)
            else Some (fd, [Opened fd])
     }"

definition bun_memfd_create ::
    "os_files \<Rightarrow> utils_state \<Rightarrow> string \<Rightarrow> (int \<times> file_event list) option" where
  "bun_memfd_create os st name =
     (let fd = (if has_memfd os then os_memfd os name else -1); ev = open_events fd;
          (fd1, ev1) = (if fd = -1 then open_mkstemp os st name else (fd, []))
      in if fd1 = -1
         then map_option (\<lambda>(fd2, ev2). (fd2, ev @ ev1 @ ev2)) (open_real_file os st name)
         else Some (fd1, ev @ ev1))"

subsection \<open>Descriptors and names are not lost\<close>

fun live_fds :: "file_event list \<Rightarrow> int list" where
  "live_fds [] = []"
| "live_fds (Opened fd # ev) = fd # live_fds ev"
| "live_fds (Closed fd # ev) = removeAll fd (live_fds ev)"
| "live_fds (_ # ev) = live_fds ev"

text \<open>The descriptors open at the end: the events are taken from the last to the first.\<close>

definition open_fds :: "file_event list \<Rightarrow> int list" where
  "open_fds ev = live_fds (rev ev)"

fun live_names :: "file_event list \<Rightarrow> string list" where
  "live_names [] = []"
| "live_names (Created n # ev) = n # live_names ev"
| "live_names (Unlinked n # ev) = removeAll n (live_names ev)"
| "live_names (_ # ev) = live_names ev"

definition names_left :: "file_event list \<Rightarrow> string list" where
  "names_left ev = live_names (rev ev)"

lemmas file_events = open_events_def close_events_def unlink_events_def open_fds_def
  names_left_def

text \<open>What the operating system documents: descriptors are not negative, failure is -1.\<close>

definition os_files_ok :: "os_files \<Rightarrow> bool" where
  "os_files_ok os \<longleftrightarrow>
     (\<forall>n. -1 \<le> os_memfd os n) \<and> (\<forall>n. -1 \<le> fst (os_mkstemp os n)) \<and>
     (\<forall>n fl. -1 \<le> os_open os n fl)"

lemma open_mkstemp_cases:
  assumes "open_mkstemp os st name = (fd, ev)"
  shows "(fd = -1 \<longrightarrow> open_fds ev = []) \<and> (fd \<noteq> -1 \<longrightarrow> open_fds ev = [fd] \<and> names_left ev = [])"
  using assms by (auto simp: open_mkstemp_def Let_def file_events split: prod.splits if_splits)

lemma open_real_file_cases:
  assumes "os_files_ok os" and "open_real_file os st name = Some (fd, ev)"
  shows "(fd = -1 \<longrightarrow> open_fds ev = []) \<and> (fd \<noteq> -1 \<longrightarrow> open_fds ev = [fd] \<and> names_left ev = [])"
proof -
  have "os_open os n fl = -1" if "os_open os n fl < 0" for n fl
  proof -
    have "-1 \<le> os_open os n fl"
      using assms(1) by (simp add: os_files_ok_def)
    with that show ?thesis by simp
  qed
  then show ?thesis
    using assms(2)
    by (auto simp: open_real_file_def Let_def file_events split: if_splits bind_splits)
qed

lemma open_fds_Opened: "open_fds (ev1 @ ev2) = live_fds (rev ev2 @ rev ev1)"
  by (simp add: open_fds_def)

lemma live_fds_append:
  "live_fds (xs @ ys) = (if live_fds ys = [] then live_fds xs else live_fds (xs @ ys))"
proof -
  have "live_fds (xs @ ys) = live_fds xs" if "live_fds ys = []"
    using that by (induction xs rule: live_fds.induct) auto
  then show ?thesis by simp
qed

lemma open_fds_append: "open_fds ev1 = [] \<Longrightarrow> open_fds (ev1 @ ev2) = open_fds ev2"
  using live_fds_append [of "rev ev2" "rev ev1"] by (simp add: open_fds_def)

text \<open>
  C30: however the calls to the operating system go, \<open>bun_memfd_create\<close> leaves exactly the
  descriptor it returns open, and none when it fails.
\<close>

theorem memfd_create_no_leak:
  assumes "os_files_ok os" and "bun_memfd_create os st name = Some (fd, ev)"
  shows "open_fds ev = (if fd = -1 then [] else [fd])"
proof (cases "has_memfd os \<and> os_memfd os name \<noteq> -1")
  case True
  with assms(2) show ?thesis
    by (auto simp: bun_memfd_create_def Let_def file_events)
next
  case False
  obtain fd1 ev1 where mk: "open_mkstemp os st name = (fd1, ev1)"
    by (cases "open_mkstemp os st name")
  have run: "bun_memfd_create os st name =
      (if fd1 = -1 then map_option (\<lambda>(fd2, ev2). (fd2, ev1 @ ev2)) (open_real_file os st name)
       else Some (fd1, ev1))"
    using False mk by (auto simp: bun_memfd_create_def Let_def open_events_def)
  show ?thesis
  proof (cases "fd1 = -1")
    case True
    with run assms(2) obtain ev2 where real: "open_real_file os st name = Some (fd, ev2)"
      and ev: "ev = ev1 @ ev2"
      by (cases "open_real_file os st name") auto
    have "open_fds ev1 = []"
      using open_mkstemp_cases [OF mk] True by simp
    with open_real_file_cases [OF assms(1) real] show ?thesis
      by (simp add: ev open_fds_append)
  next
    case False
    with run assms(2) open_mkstemp_cases [OF mk] show ?thesis
      by auto
  qed
qed

text \<open>
  With no cache directory set and both other ways failing, \<open>bun_memfd_create\<close> formats
  a \<open>NULL\<close> path.
\<close>

theorem memfd_create_null_dir:
  assumes "bun_cache_dir_get st = None" and "has_memfd os \<longrightarrow> os_memfd os name = -1"
    and "fst (open_mkstemp os st name) = -1"
  shows "bun_memfd_create os st name = None"
  using assms by (auto simp: bun_memfd_create_def open_real_file_def Let_def split: prod.splits)

subsection \<open>Waiting for a traced process\<close>

datatype wait_status = Exited | Signaled | Stopped int | Other_status

datatype errno = EINTR | ECHILD | EINVAL | ESRCH | Other_errno

text \<open>\<open>waitpid\<close>: an error, a process with its status, or 0 (nothing to report).\<close>

datatype wait_result = Wait_error errno | Wait_pid int wait_status

text \<open>
  The calls, on a state \<open>'s\<close> of the world. \<open>sys_nanosleep\<close> returns whether the sleep was
  interrupted, \<open>sys_getregs\<close> and \<open>sys_getsiginfo\<close> the error of the \<open>ptrace\<close> call, if any.
\<close>

record 's os_wait =
  sys_waitpid :: "'s \<Rightarrow> wait_result \<times> 's"
  sys_nanosleep :: "'s \<Rightarrow> bool \<times> 's"
  sys_getregs :: "'s \<Rightarrow> errno option \<times> 's"
  sys_getsiginfo :: "'s \<Rightarrow> errno option \<times> 's"

definition SIGSTOP :: int where "SIGSTOP = 19"
definition SIGTSTP :: int where "SIGTSTP = 20"
definition SIGTTIN :: int where "SIGTTIN = 21"
definition SIGTTOU :: int where "SIGTTOU = 22"

text \<open>\<open>getregs_success\<close>: 0, or -1 when \<open>ptrace\<close> fails.\<close>

definition getregs_success :: "'s os_wait \<Rightarrow> 's \<Rightarrow> int \<times> 's" where
  "getregs_success os s =
     (case sys_getregs os s of (None, s') \<Rightarrow> (0, s') | (Some e, s') \<Rightarrow> (-1, s'))"

text \<open>The loop around \<open>nanosleep\<close>. \<open>None\<close>: it does not end.\<close>

partial_function (option) sleep_loop :: "'s os_wait \<Rightarrow> 's \<Rightarrow> 's option" where
  "sleep_loop os s =
     (case sys_nanosleep os s of (again, s') \<Rightarrow> if again then sleep_loop os s' else Some s')"

text \<open>What is done with the status of the process itself.\<close>

definition child_status :: "'s os_wait \<Rightarrow> wait_status \<Rightarrow> 's \<Rightarrow> int \<times> 's" where
  "child_status os status s =
     (case status of
        Exited \<Rightarrow> (-1, s)
      | Signaled \<Rightarrow> (-1, s)
      | Other_status \<Rightarrow> (-1, s)
      | Stopped sig \<Rightarrow>
          if sig \<in> {SIGSTOP, SIGTSTP, SIGTTIN, SIGTTOU} then
            (case sys_getsiginfo os s of
               (None, s') \<Rightarrow> (0, s')
             | (Some EINVAL, s') \<Rightarrow> (0, s')
             | (Some ESRCH, s') \<Rightarrow> (-1, s')
             | (Some _, s') \<Rightarrow> (0, s'))
          else (0, s))"

text \<open>
  The loop of \<open>bun_waitpid\<close>, with its variables \<open>loop\<close> and \<open>msec_timeout\<close>. The counter is
  a signed \<open>int\<close>: past its largest value the behaviour is undefined. \<open>None\<close> stands for
  that, and for a loop that does not end.
\<close>

partial_function (option) waitpid_loop ::
    "'s os_wait \<Rightarrow> int \<Rightarrow> int \<Rightarrow> int \<Rightarrow> 's \<Rightarrow> (int \<times> 's) option" where
  "waitpid_loop os pid lp timeout s =
     (case sys_waitpid os s of
        (Wait_error e, s1) \<Rightarrow>
          if e = EINTR then waitpid_loop os pid lp timeout s1
          else if e = ECHILD then waitpid_loop os pid lp timeout s1
          else Some (-1, s1)
      | (Wait_pid p status, s1) \<Rightarrow>
          if p \<noteq> pid then
            Option.bind (sleep_loop os s1) (\<lambda>s2.
              if lp = 2147483647 then None
              else let timeout' = timeout - lp mod 2
                in if timeout' > 0 then waitpid_loop os pid (lp + 1) timeout' s2
                   else (case getregs_success os s2 of
                           (r, s3) \<Rightarrow> if r \<noteq> -1 then Some (0, s3) else Some (-1, s3)))
          else Some (child_status os status s1))"

definition bun_waitpid :: "'s os_wait \<Rightarrow> int \<Rightarrow> int \<Rightarrow> 's \<Rightarrow> (int \<times> 's) option" where
  "bun_waitpid os pid msec_timeout s = waitpid_loop os pid 0 msec_timeout s"

lemma child_status_range: "child_status os status s = (r, s') \<Longrightarrow> r = 0 \<or> r = -1"
  by (auto simp: child_status_def split: wait_status.splits if_splits prod.splits
      option.splits errno.splits)

lemma child_status_stopped: "child_status os status s = (0, s') \<Longrightarrow> \<exists>sig. status = Stopped sig"
  by (cases status) (auto simp: child_status_def)

text \<open>
  A world that is calm: \<open>waitpid\<close> fails neither with \<open>EINTR\<close> nor with \<open>ECHILD\<close>, and no
  sleep is interrupted.
\<close>

definition calm :: "'s os_wait \<Rightarrow> bool" where
  "calm os \<longleftrightarrow>
     (\<forall>s. fst (sys_waitpid os s) \<notin> {Wait_error EINTR, Wait_error ECHILD}) \<and>
     (\<forall>s. \<not> fst (sys_nanosleep os s))"

lemma calm_sleep:
  assumes "calm os"
  shows "\<exists>s'. sleep_loop os s = Some s'"
proof -
  obtain s' where "sys_nanosleep os s = (False, s')"
    using assms by (cases "sys_nanosleep os s") (auto simp: calm_def dest: spec [of _ s])
  then show ?thesis
    by (subst sleep_loop.simps) simp
qed

lemma loop_bound:
  fixes a b t x :: int
  shows "a + 1 + (2 * (t - x) - (1 - x)) < b \<Longrightarrow> 0 < t - x \<Longrightarrow> 0 \<le> x \<Longrightarrow> a + 1 < b"
  by presburger

lemma waitpid_loop_calm:
  assumes "calm os" and "lp < 2147483647" and "lp + (2 * timeout - lp mod 2) < 2147483647"
  shows "\<exists>r s'. waitpid_loop os pid lp timeout s = Some (r, s') \<and> (r = 0 \<or> r = -1)"
  using assms
proof (induction "nat (2 * timeout - lp mod 2)" arbitrary: lp timeout s rule: less_induct)
  case less
  obtain w s1 where w: "sys_waitpid os s = (w, s1)"
    by (cases "sys_waitpid os s")
  have noerr: "w \<noteq> Wait_error EINTR" "w \<noteq> Wait_error ECHILD"
    using less.prems(1) w unfolding calm_def by (metis fst_conv insertCI)+
  show ?case
  proof (cases w)
    case (Wait_error e)
    with w noerr show ?thesis
      by (subst waitpid_loop.simps) simp
  next
    case (Wait_pid p status)
    show ?thesis
    proof (cases "p = pid")
      case True
      obtain r s' where "child_status os status s1 = (r, s')"
        by (cases "child_status os status s1")
      with True w Wait_pid child_status_range [OF this] show ?thesis
        by (subst waitpid_loop.simps) simp
    next
      case False
      obtain s2 where s2: "sleep_loop os s1 = Some s2"
        using calm_sleep [OF less.prems(1)] by blast
      let ?t = "timeout - lp mod 2"
      have lp: "lp \<noteq> 2147483647"
        using less.prems by simp
      have step: "waitpid_loop os pid lp timeout s =
        (if ?t > 0 then waitpid_loop os pid (lp + 1) ?t s2
         else (case getregs_success os s2 of
                 (r, s3) \<Rightarrow> if r \<noteq> -1 then Some (0, s3) else Some (-1, s3)))"
        using w Wait_pid False s2 lp by (subst waitpid_loop.simps) (simp add: Let_def)
      show ?thesis
      proof (cases "?t > 0")
        case True
        have parity: "(lp + 1) mod 2 = 1 - lp mod 2"
          by presburger
        have less: "nat (2 * ?t - (lp + 1) mod 2) < nat (2 * timeout - lp mod 2)"
          using True parity by simp
        have bound: "lp + 1 + (2 * ?t - (lp + 1) mod 2) < 2147483647"
          unfolding parity using less.prems(3) by (simp add: algebra_simps)
        have "lp + 1 < 2147483647"
          using bound True unfolding parity by (rule loop_bound) simp
        with bound have "\<exists>r s'. waitpid_loop os pid (lp + 1) ?t s2 = Some (r, s') \<and> (r = 0 \<or> r = -1)"
          using less less.hyps less.prems(1) by blast
        with step True show ?thesis by simp
      next
        case False
        with step show ?thesis
          by (simp split: prod.splits)
      qed
    qed
  qed
qed

text \<open>
  C31: in a calm world \<open>bun_waitpid\<close> returns 0 or -1 for every timeout up to 2^30 - 1
  milliseconds (half of that many sleeps), without overflowing its counter.
\<close>

theorem waitpid_returns:
  assumes "calm os" and "timeout < 2 ^ 30 - 1"
  shows "\<exists>r s'. bun_waitpid os pid timeout s = Some (r, s') \<and> (r = 0 \<or> r = -1)"
  unfolding bun_waitpid_def using assms by (intro waitpid_loop_calm) simp_all

lemma waitpid_loop_evidence:
  assumes "waitpid_loop os pid lp timeout s = Some (r, s')" and "r = 0"
  shows "(\<exists>s1 s2 sig. sys_waitpid os s1 = (Wait_pid pid (Stopped sig), s2)) \<or>
    (\<exists>s1. fst (sys_getregs os s1) = None)"
  using assms
proof (induction os pid lp timeout s "(r, s')"
    rule: waitpid_loop.raw_induct [rotated, consumes 1, case_names step])
  case (step f os pid lp timeout s)
  obtain w s1 where w: "sys_waitpid os s = (w, s1)"
    by (cases "sys_waitpid os s")
  show ?case
  proof (cases w)
    case (Wait_error e)
    with w step show ?thesis
      by (cases e) auto
  next
    case (Wait_pid p status)
    show ?thesis
    proof (cases "p = pid")
      case True
      with w Wait_pid step have "child_status os status s1 = (0, s')"
        by simp
      from child_status_stopped [OF this] w Wait_pid True show ?thesis
        by blast
    next
      case False
      with w Wait_pid step show ?thesis
        by (auto simp: getregs_success_def Let_def
            split: bind_splits if_splits prod.splits option.splits) (metis fst_conv option.distinct(1))
    qed
  qed
qed

text \<open>
  \<open>bun_waitpid\<close> reports success only on evidence: \<open>waitpid\<close> reported the process itself
  as stopped, or its registers could be read.
\<close>

theorem waitpid_success_evidence:
  assumes "bun_waitpid os pid timeout s = Some (0, s')"
  shows "(\<exists>s1 s2 sig. sys_waitpid os s1 = (Wait_pid pid (Stopped sig), s2)) \<or>
    (\<exists>s1. fst (sys_getregs os s1) = None)"
  by (rule waitpid_loop_evidence [OF assms [unfolded bun_waitpid_def] refl])

lemma waitpid_loop_echild:
  assumes "waitpid_loop os pid lp timeout s = Some (r, s')"
    and "\<forall>s. fst (sys_waitpid os s) = Wait_error ECHILD"
  shows False
  using assms
proof (induction os pid lp timeout s "(r, s')"
    rule: waitpid_loop.raw_induct [rotated, consumes 1, case_names step])
  case (step f os pid lp timeout s)
  obtain s1 where "sys_waitpid os s = (Wait_error ECHILD, s1)"
    using step.prems by (cases "sys_waitpid os s") (metis fst_conv)
  with step show ?case by auto
qed

text \<open>
  An error \<open>ECHILD\<close> is retried without counting against the timeout: for a process
  that is not a child, \<open>bun_waitpid\<close> never returns, whatever the timeout.
\<close>

theorem waitpid_echild_hangs:
  assumes "\<forall>s. fst (sys_waitpid os s) = Wait_error ECHILD"
  shows "bun_waitpid os pid timeout s = None"
proof (rule ccontr)
  assume "bun_waitpid os pid timeout s \<noteq> None"
  then obtain r s' where "waitpid_loop os pid 0 timeout s = Some (r, s')"
    by (auto simp: bun_waitpid_def)
  then show False
    using assms by (rule waitpid_loop_echild)
qed

subsection \<open>Signal handlers\<close>

datatype handled_signal = SIGABRT | SIGBUS | SIGSEGV | SIGILL | SIGSYS | SIGTRAP

definition handled_signals :: "handled_signal list" where
  "handled_signals = [SIGABRT, SIGBUS, SIGSEGV, SIGILL, SIGSYS, SIGTRAP]"

text \<open>
  The signals' dispositions: the handler, set with \<open>SA_SIGINFO\<close>. \<open>sys_sigaction\<close> gives the
  result of \<open>sigaction(2)\<close> for a signal.
\<close>

fun install_handlers ::
    "(handled_signal \<Rightarrow> int) \<Rightarrow> ptr \<Rightarrow> (handled_signal \<Rightarrow> ptr) \<Rightarrow> handled_signal list
      \<Rightarrow> bool \<times> (handled_signal \<Rightarrow> ptr)" where
  "install_handlers sys_sigaction h disp [] = (True, disp)"
| "install_handlers sys_sigaction h disp (sig # sigs) =
     (if sys_sigaction sig \<noteq> 0 then (False, disp)
      else install_handlers sys_sigaction h (disp(sig := h)) sigs)"

definition bun_register_signal_handler ::
    "(handled_signal \<Rightarrow> int) \<Rightarrow> (handled_signal \<Rightarrow> ptr) \<Rightarrow> ptr
      \<Rightarrow> bool \<times> (handled_signal \<Rightarrow> ptr)" where
  "bun_register_signal_handler sys_sigaction disp handler =
     install_handlers sys_sigaction handler disp handled_signals"

lemma install_handlers_prefix:
  assumes "install_handlers act h disp sigs = (ok, disp')"
  shows "(ok \<longleftrightarrow> (\<forall>sig \<in> set sigs. act sig = 0)) \<and>
    disp' = (\<lambda>sig. if sig \<in> set (takeWhile (\<lambda>s. act s = 0) sigs) then h else disp sig)"
  using assms
proof (induction sigs arbitrary: disp)
  case Nil
  then show ?case by auto
next
  case (Cons sig sigs)
  show ?case
  proof (cases "act sig = 0")
    case True
    with Cons.prems have IH: "(ok \<longleftrightarrow> (\<forall>s \<in> set sigs. act s = 0)) \<and>
        disp' = (\<lambda>s. if s \<in> set (takeWhile (\<lambda>s. act s = 0) sigs) then h else (disp(sig := h)) s)"
      by (intro Cons.IH) (simp del: fun_upd_apply)
    show ?thesis
    proof
      show "ok \<longleftrightarrow> (\<forall>s \<in> set (sig # sigs). act s = 0)"
        using IH True by simp
      show "disp' = (\<lambda>s. if s \<in> set (takeWhile (\<lambda>s. act s = 0) (sig # sigs)) then h else disp s)"
        unfolding IH [THEN conjunct2] using True by (intro ext) simp
    qed
  next
    case False
    with Cons.prems show ?thesis by auto
  qed
qed

lemma handled_signals_all: "sig \<in> set handled_signals"
  by (cases sig) (simp_all add: handled_signals_def)

text \<open>
  \<open>bun_register_signal_handler\<close> succeeds exactly when \<open>sigaction\<close> succeeds for each of
  the documented signals, which then all have the handler; a failure leaves the handler on
  those before the failing one and the old disposition on the others.
\<close>

theorem register_signal_handler_spec:
  "bun_register_signal_handler act disp h =
    ((\<forall>sig. act sig = 0),
     (\<lambda>sig. if sig \<in> set (takeWhile (\<lambda>s. act s = 0) handled_signals) then h else disp sig))"
proof -
  obtain ok disp' where run: "install_handlers act h disp handled_signals = (ok, disp')"
    by (cases "install_handlers act h disp handled_signals")
  from install_handlers_prefix [OF run] run handled_signals_all show ?thesis
    by (auto simp: bun_register_signal_handler_def)
qed

definition sample_os :: os_files where
  "sample_os = \<lparr>has_memfd = True, has_tmpfile = True, android = False, os_memfd = (\<lambda>_. -1),
     os_alloc = (\<lambda>_. True), os_mkstemp = (\<lambda>n. (7, n)), os_fcntl_setfd = (\<lambda>_ _. -1),
     os_unlink = (\<lambda>_. 0), os_open = (\<lambda>_ _. 9)\<rparr>"

theorem memfd_create_no_leak_witness:
  "open_fds [Opened 7, Created ''/c/x.XXXXXX'', Closed 7, Opened 9] = (if (9 :: int) = -1 then [] else [9])"
proof (rule memfd_create_no_leak)
  show "os_files_ok sample_os"
    by (simp add: os_files_ok_def sample_os_def)
  show "bun_memfd_create sample_os \<lparr>bun_internal_cache_dir = Some ''/c''\<rparr> ''x'' =
      Some (9, [Opened 7, Created ''/c/x.XXXXXX'', Closed 7, Opened 9])"
    by (simp add: bun_memfd_create_def sample_os_def open_mkstemp_def open_real_file_def tmp_path_def
        bun_cache_dir_get_def open_events_def close_events_def)
qed

theorem memfd_create_null_dir_witness:
  "bun_memfd_create sample_os \<lparr>bun_internal_cache_dir = None\<rparr> ''x'' = None"
  by (rule memfd_create_null_dir)
    (simp_all add: sample_os_def open_mkstemp_def bun_cache_dir_get_def)

definition sample_wait :: "wait_result \<Rightarrow> nat os_wait" where
  "sample_wait w = \<lparr>sys_waitpid = (\<lambda>n. (w, n + 1)), sys_nanosleep = (\<lambda>n. (False, n)),
     sys_getregs = (\<lambda>n. (None, n)), sys_getsiginfo = (\<lambda>n. (None, n))\<rparr>"

theorem waitpid_returns_witness:
  "\<exists>r s'. bun_waitpid (sample_wait (Wait_pid 0 Other_status)) 42 5000 0 = Some (r, s') \<and>
    (r = 0 \<or> r = -1)"
  by (rule waitpid_returns) (simp_all add: calm_def sample_wait_def)

theorem waitpid_success_evidence_witness:
  "(\<exists>s1 s2 sig. sys_waitpid (sample_wait (Wait_pid 42 (Stopped 5))) s1 =
      (Wait_pid 42 (Stopped sig), s2)) \<or>
    (\<exists>s1. fst (sys_getregs (sample_wait (Wait_pid 42 (Stopped 5))) s1) = None)"
proof (rule waitpid_success_evidence)
  show "bun_waitpid (sample_wait (Wait_pid 42 (Stopped 5))) 42 10 0 = Some (0, 1)"
    unfolding bun_waitpid_def
    by (subst waitpid_loop.simps) (simp add: sample_wait_def child_status_def SIGSTOP_def
        SIGTSTP_def SIGTTIN_def SIGTTOU_def)
qed

theorem waitpid_echild_hangs_witness:
  "bun_waitpid (sample_wait (Wait_error ECHILD)) 42 1 0 = None"
  by (rule waitpid_echild_hangs) (simp add: sample_wait_def)

end
