(* ===== verification/Bun_Libunwind.thy ===== *)
theory Bun_Libunwind
  imports Bun_Backend Bun_Utils Bun_Registers Bun_Register_Names
begin

text \<open>
  \<open>src/backend/libunwind/bun_libunwind.c\<close>. libunwind itself, \<open>dladdr\<close> and the C++ demangler
  are arguments: a record of functions on an abstract cursor. A cursor that stops after
  finitely many steps yields a list of frames (\<open>unw_trace\<close>); the unwinding loop writes
  them as \<open>backend_record\<close> does. The loop ends even for a cursor that never stops, since
  every frame moves the writer forward.
\<close>

subsection \<open>The external library\<close>

text \<open>
  \<open>unw_get_reg\<close> returns its result and what the output variable holds afterwards;
  \<open>unw_get_proc_name\<close> its result, the contents of the name buffer (whose old contents it is
  given) and the offset. \<open>dladdr_name\<close> is the \<open>dli_sname\<close> of a successful \<open>dladdr\<close>.
\<close>

record 'c libunwind =
  unw_step :: "'c \<Rightarrow> int \<times> 'c"
  unw_get_reg :: "'c \<Rightarrow> string \<Rightarrow> int \<times> u64"
  unw_get_proc_name :: "'c \<Rightarrow> cstr \<Rightarrow> int \<times> cstr \<times> u64"
  dladdr_name :: "u64 \<Rightarrow> cstr option"
  cxa_demangle :: "cstr \<Rightarrow> cstr option"
  UNW_ENOMEM :: int

datatype bun_unwind_signal_safety =
    BUN_UNWIND_SIGNAL_SAFETY_NOT_REQUIRED
  | BUN_UNWIND_SIGNAL_SAFETY_REQUIRED

subsection \<open>Symbol names\<close>

definition unknown_name :: cstr where
  "unknown_name = [0x3c, 0x75, 0x6e, 0x6b, 0x6e, 0x6f, 0x77, 0x6e, 0x3e]"

definition fallback_dladdr_function_name :: "cstr option \<Rightarrow> nat \<Rightarrow> cstr" where
  "fallback_dladdr_function_name name buffer_size =
     (case name of
        None \<Rightarrow> unknown_name
      | Some s \<Rightarrow> if buffer_size \<le> length s then take (buffer_size - 1) s else s)"

text \<open>The destination's contents before and after.\<close>

definition bun_unwind_demangle ::
    "(cstr \<Rightarrow> cstr option) \<Rightarrow> cstr \<Rightarrow> nat \<Rightarrow> cstr \<Rightarrow> bool \<times> cstr" where
  "bun_unwind_demangle demangle dest dest_size src =
     (case demangle src of
        None \<Rightarrow> (False, dest)
      | Some s \<Rightarrow> if dest_size \<le> length s then (False, dest) else (True, s))"

definition SYMBOL_SIZE :: nat where
  "SYMBOL_SIZE = 256"

text \<open>The local \<open>symbol\<close> when the frame is built, and the local \<open>off\<close>.\<close>

definition frame_symbol ::
    "'c libunwind \<Rightarrow> bun_unwind_signal_safety \<Rightarrow> 'c \<Rightarrow> cstr \<times> u64" where
  "frame_symbol U safety c =
     (let (_, ip) = unw_get_reg U c ''UNW_REG_IP'';
          (ret, s, off) = unw_get_proc_name U c unknown_name;
          s1 = (if ret \<noteq> 0 \<and> ret \<noteq> UNW_ENOMEM U
                then fallback_dladdr_function_name (dladdr_name U ip) SYMBOL_SIZE else s);
          s2 = (if safety = BUN_UNWIND_SIGNAL_SAFETY_NOT_REQUIRED
                then snd (bun_unwind_demangle (cxa_demangle U) s1 SYMBOL_SIZE s1) else s1)
      in (s2, off))"

subsection \<open>Registers\<close>

text \<open>The table of the architecture the library is built for, by libunwind's names.\<close>

fun register_map :: "bun_architecture \<Rightarrow> (bun_register \<times> string) list" where
  "register_map BUN_ARCH_X86_64 =
     [(BUN_REGISTER_X86_64_RAX, ''UNW_X86_64_RAX''), (BUN_REGISTER_X86_64_RBX, ''UNW_X86_64_RBX''),
      (BUN_REGISTER_X86_64_RCX, ''UNW_X86_64_RCX''), (BUN_REGISTER_X86_64_RDX, ''UNW_X86_64_RDX''),
      (BUN_REGISTER_X86_64_RSI, ''UNW_X86_64_RSI''), (BUN_REGISTER_X86_64_RDI, ''UNW_X86_64_RDI''),
      (BUN_REGISTER_X86_64_RBP, ''UNW_X86_64_RBP''), (BUN_REGISTER_X86_64_R8, ''UNW_X86_64_R8''),
      (BUN_REGISTER_X86_64_R9, ''UNW_X86_64_R9''), (BUN_REGISTER_X86_64_R10, ''UNW_X86_64_R10''),
      (BUN_REGISTER_X86_64_R11, ''UNW_X86_64_R11''), (BUN_REGISTER_X86_64_R12, ''UNW_X86_64_R12''),
      (BUN_REGISTER_X86_64_R13, ''UNW_X86_64_R13''), (BUN_REGISTER_X86_64_R14, ''UNW_X86_64_R14''),
      (BUN_REGISTER_X86_64_R15, ''UNW_X86_64_R15''), (BUN_REGISTER_X86_64_RIP, ''UNW_X86_64_RIP'')]"
| "register_map BUN_ARCH_X86 =
     [(BUN_REGISTER_X86_EAX, ''UNW_X86_EAX''), (BUN_REGISTER_X86_EBX, ''UNW_X86_EBX''),
      (BUN_REGISTER_X86_ECX, ''UNW_X86_ECX''), (BUN_REGISTER_X86_EDX, ''UNW_X86_EDX''),
      (BUN_REGISTER_X86_ESI, ''UNW_X86_ESI''), (BUN_REGISTER_X86_EDI, ''UNW_X86_EDI''),
      (BUN_REGISTER_X86_EBP, ''UNW_X86_EBP''), (BUN_REGISTER_X86_ESP, ''UNW_X86_ESP''),
      (BUN_REGISTER_X86_EIP, ''UNW_X86_EIP''), (BUN_REGISTER_X86_EIP, ''UNW_X86_END'')]"
| "register_map BUN_ARCH_ARM64 =
     [(BUN_REGISTER_AARCH64_X0, ''UNW_AARCH64_X0''), (BUN_REGISTER_AARCH64_X1, ''UNW_AARCH64_X1''),
      (BUN_REGISTER_AARCH64_X2, ''UNW_AARCH64_X2''), (BUN_REGISTER_AARCH64_X3, ''UNW_AARCH64_X3''),
      (BUN_REGISTER_AARCH64_X4, ''UNW_AARCH64_X4''), (BUN_REGISTER_AARCH64_X5, ''UNW_AARCH64_X5''),
      (BUN_REGISTER_AARCH64_X6, ''UNW_AARCH64_X6''), (BUN_REGISTER_AARCH64_X7, ''UNW_AARCH64_X7''),
      (BUN_REGISTER_AARCH64_X8, ''UNW_AARCH64_X8''), (BUN_REGISTER_AARCH64_X9, ''UNW_AARCH64_X9''),
      (BUN_REGISTER_AARCH64_X10, ''UNW_AARCH64_X10''), (BUN_REGISTER_AARCH64_X11, ''UNW_AARCH64_X11''),
      (BUN_REGISTER_AARCH64_X12, ''UNW_AARCH64_X12''), (BUN_REGISTER_AARCH64_X13, ''UNW_AARCH64_X13''),
      (BUN_REGISTER_AARCH64_X14, ''UNW_AARCH64_X14''), (BUN_REGISTER_AARCH64_X15, ''UNW_AARCH64_X15''),
      (BUN_REGISTER_AARCH64_X16, ''UNW_AARCH64_X16''), (BUN_REGISTER_AARCH64_X17, ''UNW_AARCH64_X17''),
      (BUN_REGISTER_AARCH64_X18, ''UNW_AARCH64_X18''), (BUN_REGISTER_AARCH64_X19, ''UNW_AARCH64_X19''),
      (BUN_REGISTER_AARCH64_X20, ''UNW_AARCH64_X20''), (BUN_REGISTER_AARCH64_X21, ''UNW_AARCH64_X21''),
      (BUN_REGISTER_AARCH64_X22, ''UNW_AARCH64_X22''), (BUN_REGISTER_AARCH64_X23, ''UNW_AARCH64_X23''),
      (BUN_REGISTER_AARCH64_X24, ''UNW_AARCH64_X24''), (BUN_REGISTER_AARCH64_X25, ''UNW_AARCH64_X25''),
      (BUN_REGISTER_AARCH64_X26, ''UNW_AARCH64_X26''), (BUN_REGISTER_AARCH64_X27, ''UNW_AARCH64_X27''),
      (BUN_REGISTER_AARCH64_X28, ''UNW_AARCH64_X28''), (BUN_REGISTER_AARCH64_X29, ''UNW_AARCH64_X29''),
      (BUN_REGISTER_AARCH64_X30, ''UNW_AARCH64_X30''), (BUN_REGISTER_AARCH64_PC, ''UNW_AARCH64_PC''),
      (BUN_REGISTER_AARCH64_PSTATE, ''UNW_AARCH64_PSTATE'')]"
| "register_map BUN_ARCH_ARM =
     [(BUN_REGISTER_ARM_R0, ''UNW_ARM_R0''), (BUN_REGISTER_ARM_R1, ''UNW_ARM_R1''),
      (BUN_REGISTER_ARM_R2, ''UNW_ARM_R2''), (BUN_REGISTER_ARM_R3, ''UNW_ARM_R3''),
      (BUN_REGISTER_ARM_R4, ''UNW_ARM_R4''), (BUN_REGISTER_ARM_R5, ''UNW_ARM_R5''),
      (BUN_REGISTER_ARM_R6, ''UNW_ARM_R6''), (BUN_REGISTER_ARM_R7, ''UNW_ARM_R7''),
      (BUN_REGISTER_ARM_R8, ''UNW_ARM_R8''), (BUN_REGISTER_ARM_R9, ''UNW_ARM_R9''),
      (BUN_REGISTER_ARM_R10, ''UNW_ARM_R10''), (BUN_REGISTER_ARM_R11, ''UNW_ARM_R11''),
      (BUN_REGISTER_ARM_R12, ''UNW_ARM_R12''), (BUN_REGISTER_ARM_R13, ''UNW_ARM_R13''),
      (BUN_REGISTER_ARM_R14, ''UNW_ARM_R14''), (BUN_REGISTER_ARM_R15, ''UNW_ARM_R15'')]"
| "register_map BUN_ARCH_UNKNOWN = []"

text \<open>The loop of \<open>REGISTER_GET\<close> over the table.\<close>

fun register_loop ::
    "'c libunwind \<Rightarrow> 'c \<Rightarrow> bun_frame \<Rightarrow> (bun_register \<times> string) list \<Rightarrow> bun_frame option" where
  "register_loop U c f [] = Some f"
| "register_loop U c f ((r, u) # rs) =
     (let (ret, v) = unw_get_reg U c u
      in if ret = 0
         then do {
           (_, f') \<leftarrow> bun_frame_register_append f (of_nat (reg_value r)) v;
           register_loop U c f' rs
         } else register_loop U c f rs)"

text \<open>One frame of the loop in \<open>libunwind_unwind_impl\<close>.\<close>

definition empty_frame :: "u64 \<Rightarrow> cstr \<Rightarrow> u64 \<Rightarrow> bun_frame" where
  "empty_frame ip symb off =
     zero_frame\<lparr>symbol := Some symb, symbol_length := of_nat (length symb), addr := ip,
       offset := off, register_buffer_size := 512, register_data := replicate 512 0\<rparr>"

definition libunwind_frame ::
    "'c libunwind \<Rightarrow> bun_architecture \<Rightarrow> bun_unwind_signal_safety \<Rightarrow> 'c \<Rightarrow> bun_frame option" where
  "libunwind_frame U arch safety c =
     (let (s, off) = frame_symbol U safety c;
          (_, ip) = unw_get_reg U c ''UNW_REG_IP''
      in register_loop U c (empty_frame ip s off) (register_map arch))"

subsection \<open>The frame of a cursor\<close>

text \<open>
  What libunwind documents: names are C strings, and \<open>unw_get_proc_name\<close> stores at most the
  256 bytes of the buffer, the terminating zero included.
\<close>

definition unw_ok :: "'c libunwind \<Rightarrow> bool" where
  "unw_ok U \<longleftrightarrow>
     (\<forall>c s. cstr_ok (fst (snd (unw_get_proc_name U c s))) \<and>
        length (fst (snd (unw_get_proc_name U c s))) < SYMBOL_SIZE) \<and>
     (\<forall>a s. dladdr_name U a = Some s \<longrightarrow> cstr_ok s) \<and>
     (\<forall>s t. cxa_demangle U s = Some t \<longrightarrow> cstr_ok t)"

lemma cstr_ok_take: "cstr_ok s \<Longrightarrow> cstr_ok (take n s)"
  by (auto simp: cstr_ok_def dest: in_set_takeD)

lemma fallback_ok:
  assumes "\<forall>s. name = Some s \<longrightarrow> cstr_ok s"
  shows "cstr_ok (fallback_dladdr_function_name name SYMBOL_SIZE) \<and>
    length (fallback_dladdr_function_name name SYMBOL_SIZE) < SYMBOL_SIZE"
  using assms
  by (auto simp: fallback_dladdr_function_name_def SYMBOL_SIZE_def unknown_name_def
      cstr_ok_take split: option.splits) (simp_all add: cstr_ok_def)

lemma demangle_ok:
  assumes "\<forall>t. demangle src = Some t \<longrightarrow> cstr_ok t" and "cstr_ok dest" and "length dest < n"
  shows "cstr_ok (snd (bun_unwind_demangle demangle dest n src)) \<and>
    length (snd (bun_unwind_demangle demangle dest n src)) < n"
  using assms by (auto simp: bun_unwind_demangle_def split: option.splits)

lemma frame_symbol_ok:
  assumes "unw_ok U"
  shows "cstr_ok (fst (frame_symbol U safety c)) \<and> length (fst (frame_symbol U safety c)) < SYMBOL_SIZE"
proof -
  obtain ret s off where p: "unw_get_proc_name U c unknown_name = (ret, s, off)"
    by (cases "unw_get_proc_name U c unknown_name")
  let ?ip = "snd (unw_get_reg U c ''UNW_REG_IP'')"
  let ?s1 = "if ret \<noteq> 0 \<and> ret \<noteq> UNW_ENOMEM U
    then fallback_dladdr_function_name (dladdr_name U ?ip) SYMBOL_SIZE else s"
  have s: "cstr_ok s \<and> length s < SYMBOL_SIZE"
    using assms p unfolding unw_ok_def by (metis fst_conv snd_conv)
  have "cstr_ok (fallback_dladdr_function_name (dladdr_name U ?ip) SYMBOL_SIZE) \<and>
      length (fallback_dladdr_function_name (dladdr_name U ?ip) SYMBOL_SIZE) < SYMBOL_SIZE"
    using assms by (intro fallback_ok) (simp add: unw_ok_def)
  with s have s1: "cstr_ok ?s1" "length ?s1 < SYMBOL_SIZE"
    by auto
  have "\<forall>t. cxa_demangle U ?s1 = Some t \<longrightarrow> cstr_ok t"
    using assms by (simp add: unw_ok_def)
  from demangle_ok [where demangle = "cxa_demangle U" and src = ?s1, OF this s1] s1 p show ?thesis
    by (auto simp: frame_symbol_def Let_def case_prod_beta')
qed

text \<open>The registers libunwind can tell, in the order of the table.\<close>

definition captured ::
    "'c libunwind \<Rightarrow> 'c \<Rightarrow> (bun_register \<times> string) list \<Rightarrow> (u32 \<times> u64) list" where
  "captured U c rs =
     map (\<lambda>(r, u). (of_nat (reg_value r), snd (unw_get_reg U c u)))
       (filter (\<lambda>(r, u). fst (unw_get_reg U c u) = 0) rs)"

lemma register_loop_append_all: "register_loop U c f rs = append_all append_register f (captured U c rs)"
  by (induction rs arbitrary: f)
    (auto simp: captured_def append_register_def case_prod_beta' split: bind_splits)

lemma reg_value_word: "unat (of_nat (reg_value r) :: u32) = reg_value r"
  using reg_value_bound [of r] by (simp add: unat_of_nat BUN_REGISTER_COUNT_def)

lemma captured_ok: "\<forall>r \<in> set (captured U c rs). reg_ok r"
proof -
  have "reg_value r < 2 ^ 16" for r
    using reg_value_bound [of r] by (simp add: BUN_REGISTER_COUNT_def)
  then show ?thesis
    by (auto simp: captured_def reg_ok_def reg_value_word)
qed

lemma length_captured: "length (captured U c rs) \<le> length rs"
  by (simp add: captured_def)

lemma length_register_map: "length (register_map arch) \<le> 33"
  by (cases arch) simp_all

text \<open>Appending registers leaves the rest of the frame alone.\<close>

definition frame_head :: "bun_frame \<Rightarrow> u64 \<times> cstr option \<times> u64 \<times> cstr option \<times> u64 \<times> u64 \<times> u64" where
  "frame_head f = (addr f, symbol f, symbol_length f, filename f, filename_length f, line_no f, offset f)"

lemma append_register_head: "append_register f r = Some (ok, f') \<Longrightarrow> frame_head f' = frame_head f"
  by (auto simp: append_register_def bun_frame_register_append_def frame_head_def Let_def
      split: if_splits bind_splits)

lemma append_all_head: "append_all append_register f rs = Some f' \<Longrightarrow> frame_head f' = frame_head f"
  by (induction rs arbitrary: f) (auto split: bind_splits dest: append_register_head)

lemma empty_frame_registers:
  "registers_ok (empty_frame ip s off)" "register_cap (empty_frame ip s off) = 51"
  "frame_registers (empty_frame ip s off) = []"
  by (simp_all add: empty_frame_def zero_frame_def registers_ok_def register_cap_def
      frame_registers_def)

text \<open>A frame with room for them takes all the registers, and keeps its other members.\<close>

lemma append_all_frame:
  assumes e: "registers_ok e" "frame_registers e = []" "register_cap e < 2 ^ 16"
    and s: "string_ok (symbol_length e) (symbol e)" "string_ok (filename_length e) (filename e)"
    and rs: "\<forall>r \<in> set rs. reg_ok r" "length rs \<le> register_cap e"
  shows "\<exists>f. append_all append_register e rs = Some f \<and> frame_ok f \<and>
    frame_head f = frame_head e \<and> frame_registers f = rs"
proof -
  obtain f where run: "append_all append_register e rs = Some f" and ok: "registers_ok f"
    and cap: "register_cap f = register_cap e" and regs: "frame_registers f = rs"
    using frame_log.append_all_content [OF e(1) rs(1)] e(2) rs(2) by auto
  have head: "frame_head f = frame_head e"
    using run by (rule append_all_head)
  with s have "string_ok (symbol_length f) (symbol f)" "string_ok (filename_length f) (filename f)"
    by (simp_all add: frame_head_def)
  moreover have "unat (register_count f) < 2 ^ 16"
    using ok cap e(3) by (simp add: registers_ok_def)
  moreover have "unat (register_count f) * 10 \<le> length (register_data f)"
    using ok unfolding registers_ok_def register_cap_def by linarith
  ultimately have "frame_ok f"
    by (simp add: frame_ok_def REGISTER_SIZE_def)
  with run head regs show ?thesis by blast
qed

lemma libunwind_frame_spec:
  assumes "unw_ok U"
  shows "\<exists>f. libunwind_frame U arch safety c = Some f \<and> frame_ok f \<and>
    addr f = snd (unw_get_reg U c ''UNW_REG_IP'') \<and>
    symbol f = Some (fst (frame_symbol U safety c)) \<and> filename f = None \<and>
    offset f = snd (frame_symbol U safety c) \<and> line_no f = 0 \<and>
    frame_registers f = captured U c (register_map arch)"
proof -
  let ?ip = "snd (unw_get_reg U c ''UNW_REG_IP'')"
  let ?s = "fst (frame_symbol U safety c)" and ?off = "snd (frame_symbol U safety c)"
  let ?e = "empty_frame ?ip ?s ?off" and ?rs = "captured U c (register_map arch)"
  have s: "cstr_ok ?s" "length ?s < 256"
    using frame_symbol_ok [OF assms, of safety c] by (simp_all add: SYMBOL_SIZE_def)
  then have "unat (of_nat (length ?s) :: u64) = length ?s"
    by (simp add: unat_of_nat)
  with s have strings: "string_ok (symbol_length ?e) (symbol ?e)"
    "string_ok (filename_length ?e) (filename ?e)"
    by (simp_all add: empty_frame_def zero_frame_def string_ok_def)
  have cap: "register_cap ?e < 2 ^ 16" "length ?rs \<le> register_cap ?e"
    using length_captured [of U c "register_map arch"] length_register_map [of arch]
    by (simp_all add: empty_frame_registers)
  obtain f where run: "append_all append_register ?e ?rs = Some f" and f: "frame_ok f"
    "frame_head f = frame_head ?e" "frame_registers f = ?rs"
    using append_all_frame [OF empty_frame_registers(1,3) cap(1) strings captured_ok cap(2)]
    by blast
  moreover have "libunwind_frame U arch safety c = Some f"
    using run by (simp add: libunwind_frame_def case_prod_beta' register_loop_append_all Let_def)
  ultimately show ?thesis
    by (auto simp: frame_head_def empty_frame_def zero_frame_def)
qed

subsection \<open>The unwinding loop\<close>

text \<open>
  A frame with a symbol of known length moves the writer forward, whatever state the writer
  is in; so the loop of \<open>libunwind_unwind_impl\<close> ends.
\<close>

lemma write_le_cursor:
  "write_le_64 m w v = Some (w', m') \<Longrightarrow> rw_cursor w \<le> rw_cursor w' \<and> length m' = length m"
  "write_le_16 m w v' = Some (w', m') \<Longrightarrow> rw_cursor w \<le> rw_cursor w' \<and> length m' = length m"
  by (auto simp: write_le_64_def write_le_16_def split: if_splits bind_splits dest: length_store)

lemma strcpy_cursor:
  "strcpy_or_empty m p s = Some m' \<Longrightarrow> p < length m \<and> length m' = length m"
  by (auto simp: strcpy_or_empty_def dest!: store_SomeD)

lemma write_prefix_progress:
  assumes "write_prefix m w f = Some (w', m')" and "filename f = None" and "filename_length f = 0"
  shows "rw_cursor w < rw_cursor w' \<and> rw_cursor w < length m \<and> length m' = length m"
proof -
  from assms obtain w1 m1 w2 m2 w3 m3 m4 where
    s: "write_le_64 m w (addr f) = Some (w1, m1)" "write_le_64 m1 w1 (line_no f) = Some (w2, m2)"
      "write_le_64 m2 w2 (offset f) = Some (w3, m3)"
      "strcpy_or_empty m3 (rw_cursor w3) (symbol f) = Some m4"
      "strcpy_or_empty m4 (rw_cursor w3 + k) None = Some m'"
      "rw_cursor w' = rw_cursor w3 + k + 1"
    if "k = unat (effective_length (symbol_length f) (symbol f) + 1)" for k
    by (auto simp: write_prefix_def Let_def effective_length_def split: bind_splits)
  note s = s [OF refl]
  from write_le_cursor(1) [OF s(1)] write_le_cursor(1) [OF s(2)] write_le_cursor(1) [OF s(3)]
    strcpy_cursor [OF s(4)] strcpy_cursor [OF s(5)] s(6)
  show ?thesis by simp
qed

lemma write_registers_cursor:
  "write_registers m w f = Some (w', m') \<Longrightarrow> rw_cursor w \<le> rw_cursor w' \<and> length m' = length m"
  by (auto simp: write_registers_def Let_def split: if_splits bind_splits dest: length_store)

lemma bun_frame_write_progress:
  assumes "bun_frame_write m w f = Some (n, w', m')" and "n \<noteq> 0"
    and "filename f = None" and "filename_length f = 0"
  shows "length m' - rw_cursor w' < length m - rw_cursor w"
proof -
  from assms(1,2) obtain w5 m5 w6 m6 m7 where
    s: "write_prefix m w f = Some (w5, m5)" "write_le_16 m5 w5 (ucast (register_count f)) = Some (w6, m6)"
      "write_registers m6 w6 f = Some (w', m7)" "account m7 w' (would_write f) = Some m'"
    by (auto simp: bun_frame_write_parts split: if_splits bind_splits)
  have "length m' = length m7"
    using s(4) by (auto simp: account_def split: bind_splits dest: length_store)
  with write_prefix_progress [OF s(1) assms(3,4)] write_le_cursor(2) [OF s(2)]
    write_registers_cursor [OF s(3)]
  show ?thesis by linarith
qed

lemma libunwind_frame_filename:
  assumes "libunwind_frame U arch safety c = Some f"
  shows "filename f = None" and "filename_length f = 0"
proof -
  have "frame_head f = frame_head (empty_frame (snd (unw_get_reg U c ''UNW_REG_IP''))
      (fst (frame_symbol U safety c)) (snd (frame_symbol U safety c)))"
    using assms append_all_head
    by (fastforce simp: libunwind_frame_def case_prod_beta' register_loop_append_all Let_def)
  then show "filename f = None" and "filename_length f = 0"
    by (simp_all add: frame_head_def empty_frame_def zero_frame_def)
qed

function libunwind_loop ::
    "'c libunwind \<Rightarrow> bun_architecture \<Rightarrow> bun_unwind_signal_safety \<Rightarrow> bun_buffer
      \<Rightarrow> mem \<Rightarrow> bun_writer \<Rightarrow> 'c \<Rightarrow> (u64 \<times> mem) option" where
  "libunwind_loop U arch safety b m w c =
     (if 0 < fst (unw_step U c)
      then case libunwind_frame U arch safety (snd (unw_step U c)) of
          None \<Rightarrow> None
        | Some f \<Rightarrow>
            (case bun_frame_write m w f of
               None \<Rightarrow> None
             | Some (n, w', m') \<Rightarrow>
                 if n = 0 then Some (0, m')
                 else libunwind_loop U arch safety b m' w' (snd (unw_step U c)))
      else do { n \<leftarrow> written_size m b; Some (n, m) })"
  by pat_completeness auto
termination
  by (relation "measure (\<lambda>(U, arch, safety, b, m, w, c). length m - rw_cursor w)")
    (auto intro: bun_frame_write_progress dest: libunwind_frame_filename)

declare libunwind_loop.simps [simp del]

text \<open>\<open>tid\<close> is the thread the header names.\<close>

definition libunwind_unwind_impl ::
    "'c libunwind \<Rightarrow> bun_architecture \<Rightarrow> bun_unwind_signal_safety \<Rightarrow> 'c \<Rightarrow> u32
      \<Rightarrow> handle_heap \<Rightarrow> u32 \<Rightarrow> mem \<Rightarrow> bun_writer \<Rightarrow> bun_buffer \<Rightarrow> ptr \<Rightarrow> (u64 \<times> mem) option" where
  "libunwind_unwind_impl U arch safety c t hs tid m w b handle =
     do {
       (ok, w1, m1) \<leftarrow> bun_writer_init hs tid m w b arch handle;
       m2 \<leftarrow> bun_header_backend_set m1 w1 BUN_BACKEND_LIBUNWIND;
       m3 \<leftarrow> bun_header_tid_set m2 w1 t;
       libunwind_loop U arch safety b m3 w1 c
     }"

text \<open>The entry point for the calling thread: \<open>c\<close> is the cursor of its own context.\<close>

definition libunwind_unwind ::
    "'c libunwind \<Rightarrow> bun_architecture \<Rightarrow> 'c \<Rightarrow> handle_heap \<Rightarrow> u32 \<Rightarrow> mem \<Rightarrow> bun_writer
      \<Rightarrow> bun_buffer \<Rightarrow> ptr \<Rightarrow> (u64 \<times> mem) option" where
  "libunwind_unwind U arch c hs tid m w b handle =
     libunwind_unwind_impl U arch BUN_UNWIND_SIGNAL_SAFETY_REQUIRED c tid hs tid m w b handle"

text \<open>
  The entry point for another thread. \<open>attach\<close> and \<open>init\<close> are the results of
  \<open>ptrace(PTRACE_ATTACH)\<close> and \<open>unw_init_remote\<close>, \<open>c\<close> is the cursor the latter leaves. The
  second component tells whether the context made by \<open>_UPT_create\<close> is destroyed; the thread
  is detached on every path.
\<close>

definition libunwind_unwind_remote ::
    "'c libunwind \<Rightarrow> bun_architecture \<Rightarrow> 's os_wait \<Rightarrow> 's \<Rightarrow> int \<Rightarrow> int \<Rightarrow> 'c \<Rightarrow> u32
      \<Rightarrow> handle_heap \<Rightarrow> u32 \<Rightarrow> mem \<Rightarrow> bun_writer \<Rightarrow> bun_buffer \<Rightarrow> ptr
      \<Rightarrow> (u64 \<times> bool \<times> mem) option" where
  "libunwind_unwind_remote U arch os s attach init c pid hs tid m w b handle =
     (if attach \<noteq> 0 then Some (0, False, m)
      else do {
        (r, s') \<leftarrow> bun_waitpid os (sint pid) 5000 s;
        if r < 0 then Some (0, False, m)
        else if init \<noteq> 0 then Some (0, False, m)
        else do {
          (n, m') \<leftarrow> libunwind_unwind_impl U arch BUN_UNWIND_SIGNAL_SAFETY_NOT_REQUIRED c pid
            hs tid m w b handle;
          Some (n, True, m')
        }
      })"

subsection \<open>The loop writes the frames of the trace\<close>

inductive unw_trace ::
    "'c libunwind \<Rightarrow> bun_architecture \<Rightarrow> bun_unwind_signal_safety \<Rightarrow> 'c \<Rightarrow> bun_frame list \<Rightarrow> bool"
  for U arch safety where
    stop: "\<not> 0 < fst (unw_step U c) \<Longrightarrow> unw_trace U arch safety c []"
  | step: "0 < fst (unw_step U c) \<Longrightarrow>
      libunwind_frame U arch safety (snd (unw_step U c)) = Some f \<Longrightarrow>
      unw_trace U arch safety (snd (unw_step U c)) fs \<Longrightarrow> unw_trace U arch safety c (f # fs)"

inductive_cases unw_trace_NilE: "unw_trace U arch safety c []"
inductive_cases unw_trace_ConsE: "unw_trace U arch safety c (f # fs)"

lemma unw_trace_frame_ok:
  assumes "unw_trace U arch safety c fs" and "unw_ok U"
  shows "\<forall>f \<in> set fs. frame_ok f"
  using assms
proof (induction rule: unw_trace.induct)
  case (step c f fs)
  have "frame_ok f"
    using libunwind_frame_spec [OF step.prems, of arch safety "snd (unw_step U c)"] step.hyps(2)
    by auto
  with step show ?case by simp
qed simp

lemma libunwind_loop_trace:
  assumes "unw_trace U arch safety c fs"
  shows "libunwind_loop U arch safety b m w c = do { x \<leftarrow> write_frames m w fs; frames_result b x }"
  using assms
proof (induction arbitrary: m w rule: unw_trace.induct)
  case (stop c)
  then show ?case
    by (subst libunwind_loop.simps) (simp add: frames_result_def)
next
  case (step c f fs)
  then show ?case
    by (subst libunwind_loop.simps)
      (auto simp: frames_result_def case_prod_beta' split: bind_splits option.splits)
qed

text \<open>The state of the library a backend runs on: functions, build, mode, cursor, thread.\<close>

record 'c unwind_run =
  run_lib :: "'c libunwind"
  run_arch :: bun_architecture
  run_safety :: bun_unwind_signal_safety
  run_cursor :: 'c
  run_thread :: u32

definition libunwind_yields :: "'c unwind_run \<Rightarrow> bun_frame list \<Rightarrow> bool" where
  "libunwind_yields u fs \<longleftrightarrow>
     unw_ok (run_lib u) \<and> unw_trace (run_lib u) (run_arch u) (run_safety u) (run_cursor u) fs"

definition libunwind_run ::
    "'c unwind_run \<Rightarrow> handle_heap \<Rightarrow> u32 \<Rightarrow> mem \<Rightarrow> bun_writer \<Rightarrow> bun_buffer \<Rightarrow> ptr
      \<Rightarrow> (u64 \<times> mem) option" where
  "libunwind_run u =
     libunwind_unwind_impl (run_lib u) (run_arch u) (run_safety u) (run_cursor u) (run_thread u)"

interpretation libunwind: backend BUN_BACKEND_LIBUNWIND libunwind_yields run_arch
  "\<lambda>u. Some (run_thread u)" libunwind_run
proof unfold_locales
  fix u :: "'c unwind_run" and fs hs tid m w b handle
  assume y: "libunwind_yields u fs"
  then have "unw_trace (run_lib u) (run_arch u) (run_safety u) (run_cursor u) fs"
    by (simp add: libunwind_yields_def)
  from libunwind_loop_trace [OF this, of b] show "libunwind_run u hs tid m w b handle =
      backend_record hs tid m w b (run_arch u) handle BUN_BACKEND_LIBUNWIND (Some (run_thread u)) fs"
    by (simp add: libunwind_run_def libunwind_unwind_impl_def backend_record_def backend_start_def
        Option.bind_assoc case_prod_beta' option.case_eq_if)
next
  fix u :: "'c unwind_run" and fs f
  assume y: "libunwind_yields u fs" and "f \<in> set fs"
  have "\<forall>f \<in> set fs. frame_ok f"
    using y by (intro unw_trace_frame_ok [of "run_lib u" "run_arch u" "run_safety u" "run_cursor u"])
      (simp_all add: libunwind_yields_def)
  with \<open>f \<in> set fs\<close> show "frame_ok f" by blast
qed

lemma libunwind_replays:
  assumes "unw_ok U" and "unw_trace U arch BUN_UNWIND_SIGNAL_SAFETY_REQUIRED c fs"
    and "d + unat sz \<le> length m0" and "length m0 < 2 ^ 63"
    and "bun_buffer_init m0 b0 d sz = Some (True, b, m)"
    and "handle = NULL \<or> hs handle \<noteq> None"
    and "40 + total_size fs \<le> unat sz" and "24 + accounted fs < 2 ^ 32" and "length fs \<le> 13"
  shows "\<exists>m' gs. libunwind_unwind U arch c hs tid m w b handle =
      Some (24 + of_nat (accounted fs), m') \<and>
    stream_header m' b handle' = Some (tid, 0) \<and>
    replay_stream m' r b handle' g = Some gs \<and>
    map parsed_of_frame gs = map parsed_of_frame fs"
proof -
  let ?u = "\<lparr>run_lib = U, run_arch = arch, run_safety = BUN_UNWIND_SIGNAL_SAFETY_REQUIRED,
    run_cursor = c, run_thread = tid\<rparr>"
  have y: "libunwind_yields ?u fs"
    using assms(1,2) by (simp add: libunwind_yields_def)
  from libunwind.run_replay_short [where hs = hs and handle = handle, OF assms(3-6) y assms(7-9),
      of tid w handle' r g]
  show ?thesis
    by (simp add: libunwind_run_def libunwind_unwind_def)
qed

subsection \<open>Properties\<close>

text \<open>
  The registers the stream format has for an architecture, in the order of the enumeration,
  those the code's table leaves out, and libunwind's name of a register, which is the
  library's own name for it with another prefix.
\<close>

fun register_range :: "bun_architecture \<Rightarrow> nat \<times> nat" where
  "register_range BUN_ARCH_X86_64 = (reg_value BUN_REGISTER_X86_64_RAX, reg_value BUN_REGISTER_X86_64_RIP)"
| "register_range BUN_ARCH_X86 = (reg_value BUN_REGISTER_X86_EAX, reg_value BUN_REGISTER_X86_EIP)"
| "register_range BUN_ARCH_ARM64 = (reg_value BUN_REGISTER_AARCH64_X0, reg_value BUN_REGISTER_AARCH64_PSTATE)"
| "register_range BUN_ARCH_ARM = (reg_value BUN_REGISTER_ARM_R0, reg_value BUN_REGISTER_ARM_PSTATE)"
| "register_range BUN_ARCH_UNKNOWN = (1, 0)"

definition arch_registers :: "bun_architecture \<Rightarrow> bun_register list" where
  "arch_registers arch =
     filter (\<lambda>r. fst (register_range arch) \<le> reg_value r \<and> reg_value r \<le> snd (register_range arch)) bun_registers"

definition not_in_table :: "bun_register list" where
  "not_in_table = [BUN_REGISTER_X86_64_RSP, BUN_REGISTER_AARCH64_X31, BUN_REGISTER_ARM_PSTATE]"

definition unw_name :: "bun_register \<Rightarrow> string" where
  "unw_name r = ''UNW_'' @ drop (length ''BUN_REGISTER_'') (bun_register_to_string (of_nat (reg_value r)))"

lemma unw_name_nth: "unw_name r = ''UNW_'' @ drop 13 (snd (register_cases ! reg_value r))"
proof -
  have "length ''BUN_REGISTER_'' = 13"
    by simp
  moreover have "bun_register_to_string (of_nat (reg_value r)) = snd (register_cases ! reg_value r)"
    using reg_value_bound [of r]
    by (simp add: register_to_string_nth unat_of_nat BUN_REGISTER_COUNT_def)
  ultimately show ?thesis
    unfolding unw_name_def by (simp only:)
qed

text \<open>On 32-bit x86 the table has a last row that reads a second value for \<open>EIP\<close>.\<close>

lemma register_map_names:
  "register_map arch =
     map (\<lambda>r. (r, unw_name r)) (filter (\<lambda>r. r \<notin> set not_in_table) (arch_registers arch)) @
     (if arch = BUN_ARCH_X86 then [(BUN_REGISTER_X86_EIP, ''UNW_X86_END'')] else [])"
proof (cases arch)
  case BUN_ARCH_X86_64
  have "arch_registers BUN_ARCH_X86_64 = take 17 bun_registers"
    by (simp add: arch_registers_def bun_registers_def)
  then show ?thesis
    by (simp add: BUN_ARCH_X86_64 bun_registers_def not_in_table_def unw_name_nth register_cases_def)
next
  case BUN_ARCH_X86
  have "arch_registers BUN_ARCH_X86 = take 9 (drop 17 bun_registers)"
    by (simp add: arch_registers_def bun_registers_def)
  then show ?thesis
    by (simp add: BUN_ARCH_X86 bun_registers_def not_in_table_def unw_name_nth register_cases_def)
next
  case BUN_ARCH_ARM64
  have "arch_registers BUN_ARCH_ARM64 = take 34 (drop 26 bun_registers)"
    by (simp add: arch_registers_def bun_registers_def)
  then show ?thesis
    by (simp add: BUN_ARCH_ARM64 bun_registers_def not_in_table_def unw_name_nth register_cases_def)
next
  case BUN_ARCH_ARM
  have "arch_registers BUN_ARCH_ARM = take 17 (drop 60 bun_registers)"
    by (simp add: arch_registers_def bun_registers_def)
  then show ?thesis
    by (simp add: BUN_ARCH_ARM bun_registers_def not_in_table_def unw_name_nth register_cases_def)
next
  case BUN_ARCH_UNKNOWN
  then show ?thesis
    by (simp add: arch_registers_def)
qed

lemma captured_names:
  "captured U c (register_map arch) =
      map (\<lambda>r. (of_nat (reg_value r), snd (unw_get_reg U c (unw_name r))))
        (filter (\<lambda>r. r \<notin> set not_in_table \<and> fst (unw_get_reg U c (unw_name r)) = 0) (arch_registers arch)) @
      (if arch = BUN_ARCH_X86 \<and> fst (unw_get_reg U c ''UNW_X86_END'') = 0
       then [(of_nat (reg_value BUN_REGISTER_X86_EIP), snd (unw_get_reg U c ''UNW_X86_END''))] else [])"
proof -
  have own: "captured U c (map (\<lambda>r. (r, unw_name r)) rs) =
      map (\<lambda>r. (of_nat (reg_value r), snd (unw_get_reg U c (unw_name r))))
        (filter (\<lambda>r. fst (unw_get_reg U c (unw_name r)) = 0) rs)" for rs
    by (induction rs) (simp_all add: captured_def)
  have append: "captured U c (rs @ rs') = captured U c rs @ captured U c rs'" for rs rs'
    by (simp add: captured_def)
  have last: "captured U c (if arch = BUN_ARCH_X86 then [(r, n)] else []) =
      (if arch = BUN_ARCH_X86 \<and> fst (unw_get_reg U c n) = 0
       then [(of_nat (reg_value r), snd (unw_get_reg U c n))] else [])" for r n
    by (simp add: captured_def)
  show ?thesis
    unfolding register_map_names [of arch] append own last filter_filter ..
qed

text \<open>
  C25: the frame built for a cursor carries the instruction pointer and the offset libunwind
  reports, and as its symbol a C string that fits the buffer: the name libunwind gives
  (complete or cut), else that of \<open>dladdr\<close> cut to 255 bytes, else \<open><unknown>\<close>; demangled, if
  signal safety is not required, when the result fits. Its registers are those of the
  architecture libunwind can tell under the register's own name, in the order of the
  enumeration, but never \<open>RSP\<close> on x86-64, \<open>X31\<close> on AArch64 and \<open>PSTATE\<close> on ARM; on 32-bit x86
  what libunwind tells for the end of its enumeration follows as a second \<open>EIP\<close>. No register
  is lost for want of room.
\<close>

theorem libunwind_frame_contents:
  assumes "unw_ok U"
  shows "\<exists>f base. libunwind_frame U arch safety c = Some f \<and> frame_ok f \<and>
    addr f = snd (unw_get_reg U c ''UNW_REG_IP'') \<and> filename f = None \<and> line_no f = 0 \<and>
    (let (ret, name, off) = unw_get_proc_name U c (map of_char ''<unknown>'')
     in offset f = off \<and>
       base = (if ret = 0 \<or> ret = UNW_ENOMEM U then name
         else case dladdr_name U (addr f) of
             None \<Rightarrow> map of_char ''<unknown>'' | Some s \<Rightarrow> take 255 s)) \<and>
    symbol f = Some (if safety = BUN_UNWIND_SIGNAL_SAFETY_REQUIRED then base
      else case cxa_demangle U base of None \<Rightarrow> base | Some s \<Rightarrow> if length s < 256 then s else base) \<and>
    frame_registers f =
      map (\<lambda>r. (of_nat (reg_value r), snd (unw_get_reg U c (unw_name r))))
        (filter (\<lambda>r. r \<notin> set not_in_table \<and> fst (unw_get_reg U c (unw_name r)) = 0) (arch_registers arch)) @
      (if arch = BUN_ARCH_X86 \<and> fst (unw_get_reg U c ''UNW_X86_END'') = 0
       then [(of_nat (reg_value BUN_REGISTER_X86_EIP), snd (unw_get_reg U c ''UNW_X86_END''))] else [])"
proof -
  let ?p = "unw_get_proc_name U c (map of_char ''<unknown>'')"
  let ?ip = "snd (unw_get_reg U c ''UNW_REG_IP'')"
  let ?base = "if fst ?p = 0 \<or> fst ?p = UNW_ENOMEM U then fst (snd ?p)
    else case dladdr_name U ?ip of None \<Rightarrow> map of_char ''<unknown>'' | Some s \<Rightarrow> take 255 s"
  have unknown: "map of_char ''<unknown>'' = unknown_name"
    by (simp add: unknown_name_def)
  have symbol: "frame_symbol U safety c = (if safety = BUN_UNWIND_SIGNAL_SAFETY_REQUIRED then ?base
      else case cxa_demangle U ?base of None \<Rightarrow> ?base | Some s \<Rightarrow> if length s < 256 then s else ?base,
    snd (snd ?p))"
    unfolding unknown
    by (cases safety) (auto simp: frame_symbol_def fallback_dladdr_function_name_def
        bun_unwind_demangle_def SYMBOL_SIZE_def Let_def case_prod_beta' split: option.split)
  from libunwind_frame_spec [OF assms, of arch safety c] show ?thesis
    unfolding captured_names symbol fst_conv snd_conv
    by (elim exE conjE, intro exI [where x = ?base] exI conjI) (simp_all add: case_prod_beta')
qed

text \<open>
  Unwinding the calling thread with libunwind into a fresh buffer that holds the at most
  13 frames libunwind yields returns the size recorded in the header, names the thread and
  the backend there, and a reader gets exactly these frames.
\<close>

theorem libunwind_unwind_replay:
  assumes "unw_ok U" and "unw_trace U arch BUN_UNWIND_SIGNAL_SAFETY_REQUIRED c fs"
    and "d + unat sz \<le> length m0" and "length m0 < 2 ^ 63"
    and "bun_buffer_init m0 b0 d sz = Some (True, b, m)"
    and "handle = NULL \<or> hs handle \<noteq> None"
    and "40 + total_size fs \<le> unat sz" and "24 + accounted fs < 2 ^ 32" and "length fs \<le> 13"
  shows "\<exists>m' gs. libunwind_unwind U arch c hs tid m w b handle =
      Some (24 + of_nat (accounted fs), m') \<and>
    stream_header m' b handle' = Some (tid, 0) \<and>
    replay_stream m' r b handle' g = Some gs \<and>
    map parsed_of_frame gs = map parsed_of_frame fs"
  using assms by (rule libunwind_replays)

text \<open>A library with a stack of \<open>n\<close> frames that knows every register.\<close>

definition sample_lib :: "nat libunwind" where
  "sample_lib = \<lparr>unw_step = (\<lambda>n. (int n, n - 1)), unw_get_reg = (\<lambda>n _. (0, of_nat n + 5)),
     unw_get_proc_name = (\<lambda>n s. (0, [0x66, 0x6e], 3)), dladdr_name = (\<lambda>_. None),
     cxa_demangle = (\<lambda>_. None), UNW_ENOMEM = 2\<rparr>"

definition sample_unwound :: bun_frame where
  "sample_unwound = the (libunwind_frame sample_lib BUN_ARCH_X86_64
     BUN_UNWIND_SIGNAL_SAFETY_REQUIRED 0)"

lemma sample_lib_ok: "unw_ok sample_lib"
  by (simp add: unw_ok_def sample_lib_def SYMBOL_SIZE_def cstr_ok_def)

lemma sample_unwound_frame:
  "libunwind_frame sample_lib BUN_ARCH_X86_64 BUN_UNWIND_SIGNAL_SAFETY_REQUIRED 0 = Some sample_unwound"
  and sample_unwound_size: "frame_size sample_unwound = 188"
proof -
  obtain f where f: "libunwind_frame sample_lib BUN_ARCH_X86_64 BUN_UNWIND_SIGNAL_SAFETY_REQUIRED 0 = Some f"
    "symbol f = Some (fst (frame_symbol sample_lib BUN_UNWIND_SIGNAL_SAFETY_REQUIRED 0))"
    "filename f = None"
    "frame_registers f = captured sample_lib 0 (register_map BUN_ARCH_X86_64)"
    using libunwind_frame_spec [OF sample_lib_ok] by blast
  then show "libunwind_frame sample_lib BUN_ARCH_X86_64 BUN_UNWIND_SIGNAL_SAFETY_REQUIRED 0
      = Some sample_unwound"
    by (simp add: sample_unwound_def)
  have "length (frame_registers f) = 16"
    unfolding f(4) by (simp add: captured_def sample_lib_def)
  then have "unat (register_count f) = 16"
    by simp
  moreover have "sym_bytes f = [0x66, 0x6e]" "file_bytes f = []"
    using f(2,3) by (simp_all add: sym_bytes_def file_bytes_def frame_symbol_def sample_lib_def)
  moreover have "sample_unwound = f"
    using f(1) by (simp add: sample_unwound_def)
  ultimately show "frame_size sample_unwound = 188"
    by (simp add: frame_size_def REGISTER_SIZE_def)
qed

lemma sample_trace:
  "unw_trace sample_lib BUN_ARCH_X86_64 BUN_UNWIND_SIGNAL_SAFETY_REQUIRED 1 [sample_unwound]"
proof (rule unw_trace.step)
  show "0 < fst (unw_step sample_lib 1)"
    by (simp add: sample_lib_def)
  show "libunwind_frame sample_lib BUN_ARCH_X86_64 BUN_UNWIND_SIGNAL_SAFETY_REQUIRED
      (snd (unw_step sample_lib 1)) = Some sample_unwound"
    using sample_unwound_frame by (simp add: sample_lib_def)
  show "unw_trace sample_lib BUN_ARCH_X86_64 BUN_UNWIND_SIGNAL_SAFETY_REQUIRED
      (snd (unw_step sample_lib 1)) []"
    by (rule unw_trace.stop) (simp add: sample_lib_def)
qed

theorem libunwind_frame_contents_witness:
  "\<exists>f. libunwind_frame sample_lib BUN_ARCH_X86_64 BUN_UNWIND_SIGNAL_SAFETY_NOT_REQUIRED 4 = Some f \<and>
    frame_ok f \<and> addr f = 9 \<and> symbol f = Some [0x66, 0x6e] \<and> offset f = 3 \<and>
    (of_nat (reg_value BUN_REGISTER_X86_64_RIP), 9) \<in> set (frame_registers f)"
proof -
  have "BUN_REGISTER_X86_64_RIP \<in> set (arch_registers BUN_ARCH_X86_64)"
    by (simp add: arch_registers_def bun_registers_def)
  moreover have "BUN_REGISTER_X86_64_RIP \<notin> set not_in_table"
    by (simp add: not_in_table_def)
  ultimately show ?thesis
    using libunwind_frame_contents [OF sample_lib_ok, of BUN_ARCH_X86_64 BUN_UNWIND_SIGNAL_SAFETY_NOT_REQUIRED 4]
    by (auto simp: sample_lib_def intro!: image_eqI [where x = BUN_REGISTER_X86_64_RIP])
qed

theorem libunwind_unwind_replay_witness:
  "\<exists>m' gs. libunwind_unwind sample_lib BUN_ARCH_X86_64 1 (\<lambda>_. None) 9 (replicate 300 0)
      (sample_rw 0) \<lparr>buf_data = 0, buf_size = 300\<rparr> 0 =
      Some (24 + of_nat (accounted [sample_unwound]), m') \<and>
    stream_header m' \<lparr>buf_data = 0, buf_size = 300\<rparr> 0 = Some (9, 0) \<and>
    replay_stream m' (sample_rw 0) \<lparr>buf_data = 0, buf_size = 300\<rparr> 0 zero_frame = Some gs \<and>
    map parsed_of_frame gs = map parsed_of_frame [sample_unwound]"
  by (rule libunwind_unwind_replay [where d = 0 and sz = 300 and ?m0.0 = "replicate 300 0" and
        ?b0.0 = "\<lparr>buf_data = 0, buf_size = 0\<rparr>", OF sample_lib_ok sample_trace])
    (simp_all add: bun_buffer_init_ok patch_def sample_unwound_size flip: replicate_add)

end
