(* ===== verification/Bun_Libunwindstack.thy ===== *)
theory Bun_Libunwindstack
  imports Bun_Libunwind
begin

text \<open>
  \<open>src/backend/libunwindstack/bun_libunwindstack.cpp\<close>. The C++ library libunwindstack is an
  argument: a record of functions on an abstract register set, map and ELF file. The three
  entry points write the frames of a \<open>FrameData\<close> list (local and remote) or of a loop that
  steps the registers itself (context). Both kinds satisfy the contract \<open>backend\<close>, so that a
  reader of the stream gets the frames with a name, and only these.
\<close>

subsection \<open>The external library\<close>

text \<open>
  \<open>FrameData\<close>, as far as it is read; and the contents of a register set, which is an instance
  of \<open>RegsImpl<uint64_t>\<close> or of \<open>RegsImpl<uint32_t>\<close>.
\<close>

record frame_data =
  fd_pc :: u64
  fd_function_name :: cstr
  fd_function_offset :: u64
  fd_map_name :: cstr

datatype regs = Regs64 "u64 list" | Regs32 "u32 list"

text \<open>
  \<open>us_parse\<close> is the result of \<open>Maps::Parse\<close>; \<open>us_unwind\<close> what \<open>Unwinder::Unwind\<close> leaves in the
  unwinder and in the registers it was given, for the limit on the number of frames;
  \<open>us_find\<close>, \<open>us_get_elf\<close>, \<open>us_rel_pc\<close>, \<open>us_adjustment\<close>, \<open>us_step\<close> and \<open>us_build_frame\<close> the
  calls of the loop over a context. \<open>us_stale i\<close> is what the uninitialized variable
  \<open>adjusted_relative_pc\<close> holds in round \<open>i\<close> of that loop.
\<close>

record ('r, 'm, 'e) unwindstack =
  us_contents :: "'r \<Rightarrow> regs"
  us_pc :: "'r \<Rightarrow> u64"
  us_parse :: bool
  us_unwind :: "nat \<Rightarrow> 'r \<Rightarrow> frame_data list \<times> 'r"
  us_find :: "u64 \<Rightarrow> 'm option"
  us_get_elf :: "'m \<Rightarrow> 'e option"
  us_rel_pc :: "'e \<Rightarrow> u64 \<Rightarrow> 'm \<Rightarrow> u64"
  us_adjustment :: "u64 \<Rightarrow> 'e \<Rightarrow> u64"
  us_step :: "'e \<Rightarrow> u64 \<Rightarrow> u64 \<Rightarrow> 'm \<Rightarrow> 'r \<Rightarrow> bool \<times> 'r"
  us_build_frame :: "u64 \<Rightarrow> frame_data"
  us_demangle :: "cstr \<Rightarrow> cstr option"
  us_stale :: "nat \<Rightarrow> u64"

subsection \<open>Registers\<close>

text \<open>
  The calls of \<open>bun_frame_register_append\<close> of a \<open>populate\<close> function: the registers of the
  list take the values from index \<open>i\<close> on. An index outside the vector is undefined.
\<close>

fun populate_from :: "bun_frame \<Rightarrow> u64 list \<Rightarrow> nat \<Rightarrow> bun_register list \<Rightarrow> bun_frame option" where
  "populate_from f vs i [] = Some f"
| "populate_from f vs i (r # rs) =
     (if i < length vs
      then do {
        (_, f') \<leftarrow> bun_frame_register_append f (of_nat (reg_value r)) (vs ! i);
        populate_from f' vs (i + 1) rs
      } else None)"

text \<open>
  Per architecture the registers in the order of the calls, which is that of the indices, and
  the function that makes the calls. The \<open>dynamic_cast\<close> to a reference throws when the register set has
  another width.
\<close>

definition arm64_order :: "bun_register list" where
  "arm64_order =
    [BUN_REGISTER_AARCH64_X0, BUN_REGISTER_AARCH64_X1, BUN_REGISTER_AARCH64_X2,
     BUN_REGISTER_AARCH64_X3, BUN_REGISTER_AARCH64_X4, BUN_REGISTER_AARCH64_X5,
     BUN_REGISTER_AARCH64_X6, BUN_REGISTER_AARCH64_X7, BUN_REGISTER_AARCH64_X8,
     BUN_REGISTER_AARCH64_X9, BUN_REGISTER_AARCH64_X10, BUN_REGISTER_AARCH64_X11,
     BUN_REGISTER_AARCH64_X12, BUN_REGISTER_AARCH64_X13, BUN_REGISTER_AARCH64_X14,
     BUN_REGISTER_AARCH64_X15, BUN_REGISTER_AARCH64_X16, BUN_REGISTER_AARCH64_X17,
     BUN_REGISTER_AARCH64_X18, BUN_REGISTER_AARCH64_X19, BUN_REGISTER_AARCH64_X20,
     BUN_REGISTER_AARCH64_X21, BUN_REGISTER_AARCH64_X22, BUN_REGISTER_AARCH64_X23,
     BUN_REGISTER_AARCH64_X24, BUN_REGISTER_AARCH64_X25, BUN_REGISTER_AARCH64_X26,
     BUN_REGISTER_AARCH64_X27, BUN_REGISTER_AARCH64_X28, BUN_REGISTER_AARCH64_X29,
     BUN_REGISTER_AARCH64_X30, BUN_REGISTER_AARCH64_X31, BUN_REGISTER_AARCH64_PC,
     BUN_REGISTER_AARCH64_PSTATE]"

definition libunwindstack_populate_regs_arm64 :: "bun_frame \<Rightarrow> regs \<Rightarrow> bun_frame option" where
  "libunwindstack_populate_regs_arm64 f rs =
     (case rs of
        Regs32 _ \<Rightarrow> None
      | Regs64 vs \<Rightarrow> populate_from f vs 0 arm64_order)"

definition arm_order :: "bun_register list" where
  "arm_order =
    [BUN_REGISTER_ARM_R0, BUN_REGISTER_ARM_R1, BUN_REGISTER_ARM_R2, BUN_REGISTER_ARM_R3,
     BUN_REGISTER_ARM_R4, BUN_REGISTER_ARM_R5, BUN_REGISTER_ARM_R6, BUN_REGISTER_ARM_R7,
     BUN_REGISTER_ARM_R8, BUN_REGISTER_ARM_R9, BUN_REGISTER_ARM_R10, BUN_REGISTER_ARM_R11,
     BUN_REGISTER_ARM_R12, BUN_REGISTER_ARM_R13, BUN_REGISTER_ARM_R14, BUN_REGISTER_ARM_R15,
     BUN_REGISTER_ARM_PSTATE]"

definition libunwindstack_populate_regs_arm :: "bun_frame \<Rightarrow> regs \<Rightarrow> bun_frame option" where
  "libunwindstack_populate_regs_arm f rs =
     (case rs of
        Regs64 _ \<Rightarrow> None
      | Regs32 vs \<Rightarrow> populate_from f (map ucast vs) 0 arm_order)"

definition x86_64_order :: "bun_register list" where
  "x86_64_order =
    [BUN_REGISTER_X86_64_RAX, BUN_REGISTER_X86_64_RDX, BUN_REGISTER_X86_64_RCX,
     BUN_REGISTER_X86_64_RBX, BUN_REGISTER_X86_64_RSI, BUN_REGISTER_X86_64_RDI,
     BUN_REGISTER_X86_64_RBP, BUN_REGISTER_X86_64_RSP, BUN_REGISTER_X86_64_R8,
     BUN_REGISTER_X86_64_R9, BUN_REGISTER_X86_64_R10, BUN_REGISTER_X86_64_R11,
     BUN_REGISTER_X86_64_R12, BUN_REGISTER_X86_64_R13, BUN_REGISTER_X86_64_R14,
     BUN_REGISTER_X86_64_R15, BUN_REGISTER_X86_64_RIP]"

definition libunwindstack_populate_regs_x86_64 :: "bun_frame \<Rightarrow> regs \<Rightarrow> bun_frame option" where
  "libunwindstack_populate_regs_x86_64 f rs =
     (case rs of
        Regs32 _ \<Rightarrow> None
      | Regs64 vs \<Rightarrow> populate_from f vs 0 x86_64_order)"

fun libunwindstack_populate_regs ::
    "bun_architecture \<Rightarrow> bun_frame \<Rightarrow> regs \<Rightarrow> bun_frame option" where
  "libunwindstack_populate_regs BUN_ARCH_X86_64 f rs = libunwindstack_populate_regs_x86_64 f rs"
| "libunwindstack_populate_regs BUN_ARCH_X86 f rs = Some f"
| "libunwindstack_populate_regs BUN_ARCH_ARM64 f rs = libunwindstack_populate_regs_arm64 f rs"
| "libunwindstack_populate_regs BUN_ARCH_ARM f rs = libunwindstack_populate_regs_arm f rs"
| "libunwindstack_populate_regs BUN_ARCH_UNKNOWN f rs = Some f"

subsection \<open>One frame\<close>

definition DEMANGLE_SIZE :: nat where
  "DEMANGLE_SIZE = 4096"

definition REGISTER_BUF_SIZE :: nat where
  "REGISTER_BUF_SIZE = 340"

text \<open>The symbol of a frame with a name: demangled if that succeeds.\<close>

definition stack_symbol :: "(cstr \<Rightarrow> cstr option) \<Rightarrow> frame_data \<Rightarrow> cstr" where
  "stack_symbol dem fd =
     (let (ok, s) = bun_unwind_demangle dem [] DEMANGLE_SIZE (fd_function_name fd)
      in if ok then s else fd_function_name fd)"

definition stack_frame :: "(cstr \<Rightarrow> cstr option) \<Rightarrow> frame_data \<Rightarrow> bun_frame" where
  "stack_frame dem fd =
     zero_frame\<lparr>addr := fd_pc fd,
       symbol := Some (stack_symbol dem fd),
       symbol_length := of_nat (length (stack_symbol dem fd)),
       filename := Some (fd_map_name fd), filename_length := of_nat (length (fd_map_name fd)),
       line_no := fd_function_offset fd,
       register_buffer_size := of_nat REGISTER_BUF_SIZE,
       register_data := replicate REGISTER_BUF_SIZE 0\<rparr>"

definition libunwindstack_frame ::
    "(cstr \<Rightarrow> cstr option) \<Rightarrow> bun_architecture \<Rightarrow> regs \<Rightarrow> frame_data \<Rightarrow> bun_frame option" where
  "libunwindstack_frame dem arch rs fd =
     libunwindstack_populate_regs arch (stack_frame dem fd) rs"

definition libunwindstack_write_frame ::
    "(cstr \<Rightarrow> cstr option) \<Rightarrow> bun_architecture \<Rightarrow> regs \<Rightarrow> mem \<Rightarrow> bun_writer \<Rightarrow> frame_data
      \<Rightarrow> (bool \<times> bun_writer \<times> mem) option" where
  "libunwindstack_write_frame dem arch rs m w fd =
     (if fd_function_name fd = [] then Some (True, w, m)
      else do {
        f \<leftarrow> libunwindstack_frame dem arch rs fd;
        (n, w', m') \<leftarrow> bun_frame_write m w f;
        Some (n \<noteq> 0, w', m')
      })"

fun write_frame_data ::
    "(cstr \<Rightarrow> cstr option) \<Rightarrow> bun_architecture \<Rightarrow> regs \<Rightarrow> mem \<Rightarrow> bun_writer \<Rightarrow> frame_data list
      \<Rightarrow> (bool \<times> bun_writer \<times> mem) option" where
  "write_frame_data dem arch rs m w [] = Some (True, w, m)"
| "write_frame_data dem arch rs m w (fd # fds) =
     do {
       (ok, w', m') \<leftarrow> libunwindstack_write_frame dem arch rs m w fd;
       if ok then write_frame_data dem arch rs m' w' fds else Some (False, w', m')
     }"

subsection \<open>The entry points\<close>

definition max_frames :: nat where
  "max_frames = 128"

text \<open>The calling thread; \<open>r\<close> are its registers. The unwinder leaves those of the last frame.\<close>

definition libunwindstack_unwind ::
    "('r, 'm, 'e) unwindstack \<Rightarrow> bun_architecture \<Rightarrow> 'r \<Rightarrow> handle_heap \<Rightarrow> u32 \<Rightarrow> mem
      \<Rightarrow> bun_writer \<Rightarrow> bun_buffer \<Rightarrow> ptr \<Rightarrow> (u64 \<times> mem) option" where
  "libunwindstack_unwind U arch r hs tid m w b handle =
     do {
       (ok, w1, m1) \<leftarrow> bun_writer_init hs tid m w b arch handle;
       m2 \<leftarrow> bun_header_backend_set m1 w1 BUN_BACKEND_LIBUNWINDSTACK;
       m3 \<leftarrow> bun_header_tid_set m2 w1 tid;
       if \<not> us_parse U then Some (0, m3)
       else do {
         let (fds, r') = us_unwind U max_frames r;
         (done, w4, m4) \<leftarrow> write_frame_data (us_demangle U) arch (us_contents U r') m3 w1 fds;
         if \<not> done then Some (0, m4)
         else do { n \<leftarrow> written_size m4 b; Some (n, m4) }
       }
     }"

text \<open>
  Another thread. \<open>attach\<close> is the result of \<open>ptrace(PTRACE_ATTACH)\<close>, \<open>stopped\<close> tells whether
  the status \<open>waitpid\<close> leaves satisfies \<open>WIFSTOPPED\<close>, \<open>r\<close> are the registers of the thread.
  The second component tells whether the thread is still attached at the end.
\<close>

definition max_frames_remote :: nat where
  "max_frames_remote = 512"

definition libunwindstack_unwind_remote ::
    "('r, 'm, 'e) unwindstack \<Rightarrow> bun_architecture \<Rightarrow> int \<Rightarrow> bool \<Rightarrow> 'r \<Rightarrow> u32 \<Rightarrow> handle_heap
      \<Rightarrow> u32 \<Rightarrow> mem \<Rightarrow> bun_writer \<Rightarrow> bun_buffer \<Rightarrow> ptr \<Rightarrow> (u64 \<times> bool \<times> mem) option" where
  "libunwindstack_unwind_remote U arch attach stopped r pid hs tid m w b handle =
     do {
       (ok, w1, m1) \<leftarrow> bun_writer_init hs tid m w b arch handle;
       m2 \<leftarrow> bun_header_backend_set m1 w1 BUN_BACKEND_LIBUNWINDSTACK;
       m3 \<leftarrow> bun_header_tid_set m2 w1 pid;
       if attach \<noteq> 0 then Some (0, False, m3)
       else if \<not> stopped then Some (0, True, m3)
       else if \<not> us_parse U then Some (0, False, m3)
       else do {
         let (fds, r') = us_unwind U max_frames_remote r;
         (done, w4, m4) \<leftarrow> write_frame_data (us_demangle U) arch (us_contents U r') m3 w1 fds;
         if \<not> done then Some (0, False, m4)
         else do { n \<leftarrow> written_size m4 b; Some (n, False, m4) }
       }
     }"

text \<open>
  The thread whose context a signal handler was given: one round of the loop steps the
  registers (\<open>None\<close>: one of the \<open>break\<close> statements) and yields a frame.
\<close>

definition context_step ::
    "('r, 'm, 'e) unwindstack \<Rightarrow> u64 \<Rightarrow> 'r \<Rightarrow> (frame_data \<times> 'r) option" where
  "context_step U stale r =
     (case us_find U (us_pc U r) of
        None \<Rightarrow> None
      | Some map_info \<Rightarrow>
          (case us_get_elf U map_info of
             None \<Rightarrow> None
           | Some elf \<Rightarrow>
               let relative_pc = us_rel_pc U elf (us_pc U r) map_info;
                   adjusted = (if relative_pc \<noteq> 0
                     then stale - us_adjustment U relative_pc elf else stale);
                   (ok, r') = us_step U elf adjusted relative_pc map_info r
               in if ok then Some (us_build_frame U relative_pc, r') else None))"

text \<open>The loop from round \<open>i\<close> on, with \<open>n\<close> rounds left.\<close>

fun context_loop ::
    "('r, 'm, 'e) unwindstack \<Rightarrow> bun_architecture \<Rightarrow> bun_buffer \<Rightarrow> nat \<Rightarrow> nat \<Rightarrow> mem \<Rightarrow> bun_writer
      \<Rightarrow> 'r \<Rightarrow> (u64 \<times> mem) option" where
  "context_loop U arch b 0 i m w r = do { n \<leftarrow> written_size m b; Some (n, m) }"
| "context_loop U arch b (Suc n) i m w r =
     (case context_step U (us_stale U i) r of
        None \<Rightarrow> do { n \<leftarrow> written_size m b; Some (n, m) }
      | Some (fd, r') \<Rightarrow>
          do {
            (ok, w', m') \<leftarrow>
              libunwindstack_write_frame (us_demangle U) arch (us_contents U r') m w fd;
            if \<not> ok then Some (0, m') else context_loop U arch b n (i + 1) m' w' r'
          })"

definition libunwindstack_unwind_context ::
    "('r, 'm, 'e) unwindstack \<Rightarrow> bun_architecture \<Rightarrow> 'r \<Rightarrow> handle_heap \<Rightarrow> u32 \<Rightarrow> mem
      \<Rightarrow> bun_writer \<Rightarrow> bun_buffer \<Rightarrow> ptr \<Rightarrow> (u64 \<times> mem) option" where
  "libunwindstack_unwind_context U arch r hs tid m w b handle =
     do {
       (ok, w1, m1) \<leftarrow> bun_writer_init hs tid m w b arch handle;
       m2 \<leftarrow> bun_header_backend_set m1 w1 BUN_BACKEND_LIBUNWINDSTACK;
       m3 \<leftarrow> bun_header_tid_set m2 w1 tid;
       if \<not> us_parse U then Some (0, m3)
       else context_loop U arch b max_frames 0 m3 w1 r
     }"

subsection \<open>The frame of a \<open>FrameData\<close>\<close>

text \<open>The calls cover each register the stream format knows for the architecture exactly once.\<close>

lemma order_complete:
  "map reg_value arm64_order = [26..<60]"
  "map reg_value arm_order = [60..<77]"
  "sort (map reg_value x86_64_order) = [0..<17]"
  by (simp_all add: arm64_order_def arm_order_def x86_64_order_def upt_rec)

fun stack_order :: "bun_architecture \<Rightarrow> bun_register list" where
  "stack_order BUN_ARCH_X86_64 = x86_64_order"
| "stack_order BUN_ARCH_X86 = []"
| "stack_order BUN_ARCH_ARM64 = arm64_order"
| "stack_order BUN_ARCH_ARM = arm_order"
| "stack_order BUN_ARCH_UNKNOWN = []"

fun regs_values :: "regs \<Rightarrow> u64 list" where
  "regs_values (Regs64 vs) = vs"
| "regs_values (Regs32 vs) = map ucast vs"

text \<open>
  The register set is the one of the architecture. libunwindstack's \<open>RegsArm64\<close> has 34 and its
  \<open>RegsX86_64\<close> at least 17 values; its \<open>RegsArm\<close> has 16, \<open>R0\<close> to \<open>PC\<close>, and none for the status
  register that \<open>libunwindstack_populate_regs_arm\<close> reads at index 16.
\<close>

fun regs_ok :: "bun_architecture \<Rightarrow> regs \<Rightarrow> bool" where
  "regs_ok arch (Regs64 vs) \<longleftrightarrow> arch \<noteq> BUN_ARCH_ARM \<and> length (stack_order arch) \<le> length vs"
| "regs_ok arch (Regs32 vs) \<longleftrightarrow>
     arch \<noteq> BUN_ARCH_ARM64 \<and> arch \<noteq> BUN_ARCH_X86_64 \<and> (arch = BUN_ARCH_ARM \<longrightarrow> length vs = 16)"

definition stack_captured :: "bun_architecture \<Rightarrow> regs \<Rightarrow> (u32 \<times> u64) list" where
  "stack_captured arch rs =
     zip (map (\<lambda>r. of_nat (reg_value r)) (stack_order arch)) (regs_values rs)"

definition frame_data_ok :: "frame_data \<Rightarrow> bool" where
  "frame_data_ok fd \<longleftrightarrow>
     cstr_ok (fd_function_name fd) \<and> length (fd_function_name fd) < 2 ^ 32 \<and>
     cstr_ok (fd_map_name fd) \<and> length (fd_map_name fd) < 2 ^ 32"

lemma populate_from_append_all:
  "i + length rs \<le> length vs \<Longrightarrow>
    populate_from f vs i rs =
      append_all append_register f (zip (map (\<lambda>r. of_nat (reg_value r)) rs) (drop i vs))"
  by (induction rs arbitrary: f i)
    (auto simp: append_register_def case_prod_beta' Cons_nth_drop_Suc [symmetric]
      split: bind_splits)

lemma populate_from_short:
  "i \<le> length vs \<Longrightarrow> length vs < i + length rs \<Longrightarrow> populate_from f vs i rs = None"
  by (induction rs arbitrary: f i) (auto split: bind_split)

lemma populate_regs_append_all:
  assumes "regs_ok arch rs" and "arch \<noteq> BUN_ARCH_ARM"
  shows "libunwindstack_populate_regs arch f rs =
    append_all append_register f (stack_captured arch rs)"
  using assms
  by (cases arch; cases rs)
    (simp_all add: libunwindstack_populate_regs_arm64_def libunwindstack_populate_regs_arm_def
      libunwindstack_populate_regs_x86_64_def populate_from_append_all stack_captured_def)

lemma length_stack_order: "length (stack_order arch) \<le> 34"
  by (cases arch) (simp_all add: arm64_order_def arm_order_def x86_64_order_def)

lemma stack_captured_ok: "\<forall>r \<in> set (stack_captured arch rs). reg_ok r"
proof -
  have "reg_value r < 2 ^ 16" for r
    using reg_value_bound [of r] by (simp add: BUN_REGISTER_COUNT_def)
  then show ?thesis
    by (auto simp: stack_captured_def reg_ok_def reg_value_word dest!: set_zip_leftD)
qed

lemma stack_frame_registers:
  "registers_ok (stack_frame dem fd)" "frame_registers (stack_frame dem fd) = []"
  "register_cap (stack_frame dem fd) = 34"
  by (simp_all add: stack_frame_def zero_frame_def registers_ok_def register_cap_def
      frame_registers_def REGISTER_BUF_SIZE_def)

lemma stack_symbol_ok:
  assumes "\<forall>s t. dem s = Some t \<longrightarrow> cstr_ok t" and "frame_data_ok fd"
  shows "cstr_ok (stack_symbol dem fd) \<and> length (stack_symbol dem fd) < 2 ^ 32"
  using assms
  by (auto simp: stack_symbol_def bun_unwind_demangle_def DEMANGLE_SIZE_def frame_data_ok_def
      split: option.splits)

lemma string_ok_of_nat:
  "cstr_ok s \<Longrightarrow> length s < 2 ^ 32 \<Longrightarrow> string_ok (of_nat (length s)) (Some s)"
  by (simp add: string_ok_def unat_of_nat)

lemma libunwindstack_frame_spec:
  assumes dem: "\<forall>s t. dem s = Some t \<longrightarrow> cstr_ok t" and rs: "regs_ok arch rs"
    and fd: "frame_data_ok fd" and arch: "arch \<noteq> BUN_ARCH_ARM"
  shows "\<exists>f. libunwindstack_frame dem arch rs fd = Some f \<and> frame_ok f \<and>
    addr f = fd_pc fd \<and> symbol f = Some (stack_symbol dem fd) \<and>
    filename f = Some (fd_map_name fd) \<and> line_no f = fd_function_offset fd \<and> offset f = 0 \<and>
    frame_registers f = stack_captured arch rs"
proof -
  let ?e = "stack_frame dem fd" and ?rs = "stack_captured arch rs"
  have strings: "string_ok (symbol_length ?e) (symbol ?e)"
    "string_ok (filename_length ?e) (filename ?e)"
    using stack_symbol_ok [OF dem fd] fd
    by (simp_all add: stack_frame_def frame_data_ok_def string_ok_of_nat)
  have cap: "register_cap ?e < 2 ^ 16" "length ?rs \<le> register_cap ?e"
    using length_stack_order [of arch] by (simp_all add: stack_frame_registers stack_captured_def)
  obtain f where "append_all append_register ?e ?rs = Some f" "frame_ok f"
    "frame_head f = frame_head ?e" "frame_registers f = ?rs"
    using append_all_frame [OF stack_frame_registers(1,2) cap(1) strings stack_captured_ok cap(2)]
    by blast
  then show ?thesis
    using populate_regs_append_all [OF rs arch]
    by (auto simp: libunwindstack_frame_def frame_head_def stack_frame_def zero_frame_def)
qed

subsection \<open>The frames of a trace\<close>

text \<open>The frames that are written: those of the functions with a name.\<close>

definition stack_frames ::
    "(cstr \<Rightarrow> cstr option) \<Rightarrow> bun_architecture \<Rightarrow> regs \<Rightarrow> frame_data list \<Rightarrow> bun_frame list" where
  "stack_frames dem arch rs fds =
     map (\<lambda>fd. the (libunwindstack_frame dem arch rs fd)) (filter (\<lambda>fd. fd_function_name fd \<noteq> []) fds)"

lemma stack_frames_simps [simp]:
  "stack_frames dem arch rs [] = []"
  "stack_frames dem arch rs (fd # fds) =
     (if fd_function_name fd = [] then stack_frames dem arch rs fds
      else the (libunwindstack_frame dem arch rs fd) # stack_frames dem arch rs fds)"
  by (simp_all add: stack_frames_def)

text \<open>
  What libunwindstack documents: names are C strings, register sets are those of the
  architecture it is built for. 32-bit ARM is left out, where the code reads past the end of
  the register set.
\<close>

definition us_ok :: "('r, 'm, 'e) unwindstack \<Rightarrow> bun_architecture \<Rightarrow> bool" where
  "us_ok U arch \<longleftrightarrow> arch \<noteq> BUN_ARCH_ARM \<and>
     (\<forall>r. regs_ok arch (us_contents U r)) \<and>
     (\<forall>n r. \<forall>fd \<in> set (fst (us_unwind U n r)). frame_data_ok fd) \<and>
     (\<forall>pc. frame_data_ok (us_build_frame U pc)) \<and>
     (\<forall>s t. us_demangle U s = Some t \<longrightarrow> cstr_ok t)"

lemma libunwindstack_frame_ok:
  assumes "us_ok U arch" and "frame_data_ok fd"
  shows "libunwindstack_frame (us_demangle U) arch (us_contents U r) fd =
      Some (the (libunwindstack_frame (us_demangle U) arch (us_contents U r) fd))"
    and "frame_ok (the (libunwindstack_frame (us_demangle U) arch (us_contents U r) fd))"
  using assms libunwindstack_frame_spec [of "us_demangle U" arch "us_contents U r" fd]
  unfolding us_ok_def by force+

lemma stack_frames_ok:
  assumes "us_ok U arch" and "\<forall>fd \<in> set fds. frame_data_ok fd"
  shows "\<forall>f \<in> set (stack_frames (us_demangle U) arch (us_contents U r) fds). frame_ok f"
  using assms by (auto simp: stack_frames_def intro: libunwindstack_frame_ok)

lemma write_frame_data_frames:
  assumes "us_ok U arch" and "\<forall>fd \<in> set fds. frame_data_ok fd"
  shows "write_frame_data (us_demangle U) arch (us_contents U r) m w fds =
    write_frames m w (stack_frames (us_demangle U) arch (us_contents U r) fds)"
  using assms(2)
proof (induction fds arbitrary: m w)
  case (Cons fd fds)
  then have "libunwindstack_frame (us_demangle U) arch (us_contents U r) fd =
      Some (the (libunwindstack_frame (us_demangle U) arch (us_contents U r) fd))"
    using libunwindstack_frame_ok(1) [OF assms(1)] by simp
  with Cons show ?case
    by (cases "libunwindstack_frame (us_demangle U) arch (us_contents U r) fd")
      (auto simp: libunwindstack_write_frame_def case_prod_beta' split: bind_splits)
qed simp

text \<open>The same for the loop over a context.\<close>

fun context_frames ::
    "('r, 'm, 'e) unwindstack \<Rightarrow> bun_architecture \<Rightarrow> nat \<Rightarrow> nat \<Rightarrow> 'r \<Rightarrow> bun_frame list" where
  "context_frames U arch 0 i r = []"
| "context_frames U arch (Suc n) i r =
     (case context_step U (us_stale U i) r of
        None \<Rightarrow> []
      | Some (fd, r') \<Rightarrow>
          stack_frames (us_demangle U) arch (us_contents U r') [fd] @
          context_frames U arch n (i + 1) r')"

lemma length_context_frames: "length (context_frames U arch n i r) \<le> n"
proof (induction n arbitrary: i r)
  case (Suc n)
  then show ?case
    by (auto split: option.split intro: le_SucI)
qed simp

lemma context_step_frame: "context_step U stale r = Some (fd, r') \<Longrightarrow> \<exists>pc. fd = us_build_frame U pc"
  by (auto simp: context_step_def Let_def case_prod_beta' split: option.splits if_splits)

lemma context_step_ok:
  assumes "us_ok U arch" and "context_step U stale r = Some (fd, r')"
  shows "frame_data_ok fd"
  using context_step_frame [OF assms(2)] assms(1) by (auto simp: us_ok_def)

lemma context_frames_ok:
  assumes "us_ok U arch"
  shows "\<forall>f \<in> set (context_frames U arch n i r). frame_ok f"
proof (induction n arbitrary: i r)
  case (Suc n)
  show ?case
  proof (cases "context_step U (us_stale U i) r")
    case (Some x)
    obtain fd r' where x: "x = (fd, r')" by (cases x)
    have "frame_data_ok fd"
      using context_step_ok [OF assms] Some x by blast
    then have "\<forall>f \<in> set (stack_frames (us_demangle U) arch (us_contents U r') [fd]). frame_ok f"
      by (intro stack_frames_ok assms) simp
    with Suc [of "i + 1" r'] Some x show ?thesis by auto
  qed simp
qed simp

lemma context_loop_frames:
  assumes "us_ok U arch"
  shows "context_loop U arch b n i m w r =
    do { x \<leftarrow> write_frames m w (context_frames U arch n i r); frames_result b x }"
proof (induction n arbitrary: i m w r)
  case 0
  then show ?case by (simp add: frames_result_def)
next
  case (Suc n)
  show ?case
  proof (cases "context_step U (us_stale U i) r")
    case None
    then show ?thesis by (simp add: frames_result_def)
  next
    case (Some x)
    obtain fd r' where x: "x = (fd, r')" by (cases x)
    have "frame_data_ok fd"
      using context_step_ok [OF assms] Some x by blast
    then obtain f where "libunwindstack_frame (us_demangle U) arch (us_contents U r') fd = Some f"
      using libunwindstack_frame_ok(1) [OF assms] by blast
    with Suc Some x show ?thesis
      by (auto simp: libunwindstack_write_frame_def frames_result_def case_prod_beta'
          split: bind_splits)
  qed
qed

subsection \<open>The contract\<close>

text \<open>
  The state the library is in: functions, build, registers, the limit on the frames and the
  thread the header names.
\<close>

record ('r, 'm, 'e) stack_run =
  sr_lib :: "('r, 'm, 'e) unwindstack"
  sr_arch :: bun_architecture
  sr_regs :: 'r
  sr_limit :: nat
  sr_thread :: u32

definition stack_start ::
    "('r, 'm, 'e) stack_run \<Rightarrow> handle_heap \<Rightarrow> u32 \<Rightarrow> mem \<Rightarrow> bun_writer \<Rightarrow> bun_buffer \<Rightarrow> ptr
      \<Rightarrow> (bun_writer \<times> mem) option" where
  "stack_start u hs tid m w b handle =
     backend_start hs tid m w b (sr_arch u) handle BUN_BACKEND_LIBUNWINDSTACK (Some (sr_thread u))"

definition stack_trace :: "('r, 'm, 'e) stack_run \<Rightarrow> bun_frame list" where
  "stack_trace u =
     (let (fds, r') = us_unwind (sr_lib u) (sr_limit u) (sr_regs u)
      in stack_frames (us_demangle (sr_lib u)) (sr_arch u) (us_contents (sr_lib u) r') fds)"

definition stack_yields :: "('r, 'm, 'e) stack_run \<Rightarrow> bun_frame list \<Rightarrow> bool" where
  "stack_yields u fs \<longleftrightarrow> us_ok (sr_lib u) (sr_arch u) \<and> fs = stack_trace u"

definition context_yields :: "('r, 'm, 'e) stack_run \<Rightarrow> bun_frame list \<Rightarrow> bool" where
  "context_yields u fs \<longleftrightarrow> us_ok (sr_lib u) (sr_arch u) \<and>
     fs = context_frames (sr_lib u) (sr_arch u) (sr_limit u) 0 (sr_regs u)"

text \<open>What the entry points do once the maps are parsed.\<close>

definition stack_write ::
    "('r, 'm, 'e) stack_run \<Rightarrow> handle_heap \<Rightarrow> u32 \<Rightarrow> mem \<Rightarrow> bun_writer \<Rightarrow> bun_buffer \<Rightarrow> ptr
      \<Rightarrow> (u64 \<times> mem) option" where
  "stack_write u hs tid m w b handle =
     do {
       (w1, m1) \<leftarrow> stack_start u hs tid m w b handle;
       let (fds, r') = us_unwind (sr_lib u) (sr_limit u) (sr_regs u);
       x \<leftarrow> write_frame_data (us_demangle (sr_lib u)) (sr_arch u) (us_contents (sr_lib u) r') m1 w1 fds;
       frames_result b x
     }"

definition context_write ::
    "('r, 'm, 'e) stack_run \<Rightarrow> handle_heap \<Rightarrow> u32 \<Rightarrow> mem \<Rightarrow> bun_writer \<Rightarrow> bun_buffer \<Rightarrow> ptr
      \<Rightarrow> (u64 \<times> mem) option" where
  "context_write u hs tid m w b handle =
     do {
       (w1, m1) \<leftarrow> stack_start u hs tid m w b handle;
       context_loop (sr_lib u) (sr_arch u) b (sr_limit u) 0 m1 w1 (sr_regs u)
     }"

interpretation stack: backend BUN_BACKEND_LIBUNWINDSTACK stack_yields sr_arch
  "\<lambda>u. Some (sr_thread u)" stack_write
proof unfold_locales
  fix u :: "('r, 'm, 'e) stack_run" and fs hs tid m w b handle
  assume y: "stack_yields u fs"
  obtain fds r' where run: "us_unwind (sr_lib u) (sr_limit u) (sr_regs u) = (fds, r')"
    by (cases "us_unwind (sr_lib u) (sr_limit u) (sr_regs u)")
  have ok: "us_ok (sr_lib u) (sr_arch u)" and fs: "fs = stack_trace u"
    using y by (simp_all add: stack_yields_def)
  have fds: "\<forall>fd \<in> set fds. frame_data_ok fd"
    using ok run unfolding us_ok_def by (metis fst_conv)
  show "stack_write u hs tid m w b handle = backend_record hs tid m w b (sr_arch u) handle
      BUN_BACKEND_LIBUNWINDSTACK (Some (sr_thread u)) fs"
    by (simp add: stack_write_def stack_start_def backend_record_def run fs stack_trace_def
        write_frame_data_frames [OF ok fds])
next
  fix u :: "('r, 'm, 'e) stack_run" and fs f
  assume y: "stack_yields u fs" and f: "f \<in> set fs"
  obtain fds r' where run: "us_unwind (sr_lib u) (sr_limit u) (sr_regs u) = (fds, r')"
    by (cases "us_unwind (sr_lib u) (sr_limit u) (sr_regs u)")
  have ok: "us_ok (sr_lib u) (sr_arch u)"
    using y by (simp add: stack_yields_def)
  have "\<forall>fd \<in> set fds. frame_data_ok fd"
    using ok run unfolding us_ok_def by (metis fst_conv)
  from stack_frames_ok [OF ok this] show "frame_ok f"
    using f y by (simp add: stack_yields_def stack_trace_def run)
qed

interpretation stack_context: backend BUN_BACKEND_LIBUNWINDSTACK context_yields sr_arch
  "\<lambda>u. Some (sr_thread u)" context_write
  by unfold_locales
    (auto simp: context_write_def stack_start_def backend_record_def context_yields_def
      context_loop_frames case_prod_beta' Option.bind_assoc dest: context_frames_ok)

text \<open>The entry points in these terms.\<close>

lemma libunwindstack_unwind_write:
  assumes "us_parse U"
  shows "libunwindstack_unwind U arch r hs tid m w b handle =
    stack_write \<lparr>sr_lib = U, sr_arch = arch, sr_regs = r, sr_limit = max_frames, sr_thread = tid\<rparr>
      hs tid m w b handle"
  using assms
  by (auto simp: libunwindstack_unwind_def stack_write_def stack_start_def backend_start_def
      frames_result_def case_prod_beta' Option.bind_assoc Let_def split: bind_splits)

lemma libunwindstack_unwind_remote_write:
  assumes "us_parse U"
  shows "libunwindstack_unwind_remote U arch 0 True r pid hs tid m w b handle =
    map_option (\<lambda>(n, m'). (n, False, m'))
      (stack_write \<lparr>sr_lib = U, sr_arch = arch, sr_regs = r, sr_limit = max_frames_remote,
        sr_thread = pid\<rparr> hs tid m w b handle)"
  using assms
  by (auto simp: libunwindstack_unwind_remote_def stack_write_def stack_start_def backend_start_def
      frames_result_def case_prod_beta' Option.bind_assoc Let_def map_option_case
      split: bind_splits option.splits)

lemma libunwindstack_unwind_context_write:
  assumes "us_parse U"
  shows "libunwindstack_unwind_context U arch r hs tid m w b handle =
    context_write \<lparr>sr_lib = U, sr_arch = arch, sr_regs = r, sr_limit = max_frames,
      sr_thread = tid\<rparr> hs tid m w b handle"
  using assms
  by (simp add: libunwindstack_unwind_context_def context_write_def stack_start_def
      backend_start_def case_prod_beta' Option.bind_assoc)

text \<open>The size of a written frame.\<close>

lemma libunwindstack_frame_size:
  assumes "\<forall>s t. dem s = Some t \<longrightarrow> cstr_ok t" and "regs_ok arch rs" and "frame_data_ok fd"
    and "arch \<noteq> BUN_ARCH_ARM"
  shows "frame_size (the (libunwindstack_frame dem arch rs fd)) =
    length (stack_symbol dem fd) + length (fd_map_name fd) + 26 + 10 * length (stack_captured arch rs)"
proof -
  obtain f where f: "libunwindstack_frame dem arch rs fd = Some f" "symbol f = Some (stack_symbol dem fd)"
    "filename f = Some (fd_map_name fd)" "frame_registers f = stack_captured arch rs"
    using libunwindstack_frame_spec [OF assms] by blast
  have "unat (register_count f) = length (stack_captured arch rs)"
    using f(4) by (metis length_frame_registers)
  with f show ?thesis
    by (simp add: frame_size_def sym_bytes_def file_bytes_def REGISTER_SIZE_def)
qed

lemma libunwindstack_replays:
  assumes "us_ok U arch" and "us_parse U" and "us_unwind U max_frames r = (fds, r')"
    and "fs = stack_frames (us_demangle U) arch (us_contents U r') fds"
    and "d + unat sz \<le> length m0" and "length m0 < 2 ^ 63"
    and "bun_buffer_init m0 b0 d sz = Some (True, b, m)"
    and "handle = NULL \<or> hs handle \<noteq> None"
    and "40 + total_size fs \<le> unat sz" and "24 + accounted fs < 2 ^ 32" and "length fs \<le> 13"
  shows "\<exists>m' gs. libunwindstack_unwind U arch r hs tid m w b handle =
      Some (24 + of_nat (accounted fs), m') \<and>
    stream_header m' b handle' = Some (tid, 2) \<and>
    replay_stream m' rd b handle' g = Some gs \<and>
    map parsed_of_frame gs = map parsed_of_frame fs"
proof -
  let ?u = "\<lparr>sr_lib = U, sr_arch = arch, sr_regs = r, sr_limit = max_frames, sr_thread = tid\<rparr>"
  have y: "stack_yields ?u fs"
    using assms(1,3,4) by (simp add: stack_yields_def stack_trace_def)
  from stack.run_replay_short [where hs = hs and handle = handle, OF assms(5-8) y assms(9-11),
      of tid w handle' rd g]
  show ?thesis
    by (simp add: libunwindstack_unwind_write [OF assms(2)])
qed

subsection \<open>Properties\<close>

text \<open>
  Where libunwindstack keeps a register: on x86-64 it numbers them as DWARF does, with \<open>RDX\<close>
  as 1 and \<open>RBX\<close> as 3; on AArch64 \<open>X0\<close> to \<open>X30\<close>, \<open>SP\<close>, \<open>PC\<close>, \<open>PSTATE\<close>.
\<close>

definition us_index :: "bun_register \<Rightarrow> nat" where
  "us_index r =
     (if r = BUN_REGISTER_X86_64_RBX then 3 else if r = BUN_REGISTER_X86_64_RDX then 1
      else if reg_value r < reg_value BUN_REGISTER_AARCH64_X0 then reg_value r
      else reg_value r - reg_value BUN_REGISTER_AARCH64_X0)"

lemma stack_order_complete:
  "set (stack_order arch) = (if arch = BUN_ARCH_X86 then {} else set (arch_registers arch))"
  "distinct (map reg_value (stack_order arch))"
proof -
  have regs: "arch_registers BUN_ARCH_X86_64 = take 17 bun_registers"
    "arch_registers BUN_ARCH_ARM64 = take 34 (drop 26 bun_registers)"
    "arch_registers BUN_ARCH_ARM = take 17 (drop 60 bun_registers)"
    "arch_registers BUN_ARCH_UNKNOWN = []"
    by (simp_all add: arch_registers_def bun_registers_def)
  show "set (stack_order arch) = (if arch = BUN_ARCH_X86 then {} else set (arch_registers arch))"
    by (cases arch) (auto simp: regs bun_registers_def arm64_order_def arm_order_def x86_64_order_def)
  show "distinct (map reg_value (stack_order arch))"
    by (cases arch) (simp_all add: arm64_order_def arm_order_def x86_64_order_def)
qed

lemma stack_order_index:
  assumes "arch = BUN_ARCH_X86_64 \<or> arch = BUN_ARCH_ARM64"
  shows "map us_index (stack_order arch) = [0..<length (stack_order arch)]"
proof -
  have "map us_index x86_64_order = [0..<17]" and "length x86_64_order = 17"
    by (simp_all add: us_index_def x86_64_order_def upt_rec)
  moreover have "map us_index arm64_order = [0..<34]" and "length arm64_order = 34"
    by (simp_all add: us_index_def arm64_order_def upt_rec)
  ultimately show ?thesis
    using assms by (elim disjE) simp_all
qed

lemma zip_take_same: "length xs \<le> length ys \<Longrightarrow> zip xs (take (length xs) ys) = zip xs ys"
  by (metis take_zip take_all length_map length_zip min.absorb1 order_refl)

lemma stack_order_length:
  assumes "arch = BUN_ARCH_X86_64 \<or> arch = BUN_ARCH_ARM64"
  shows "length (stack_order arch) = length (arch_registers arch)"
proof -
  have "length x86_64_order = 17" and "length arm64_order = 34"
    by (simp_all add: x86_64_order_def arm64_order_def)
  moreover have "length (arch_registers BUN_ARCH_X86_64) = 17"
    and "length (arch_registers BUN_ARCH_ARM64) = 34"
    by (simp_all add: arch_registers_def bun_registers_def)
  ultimately show ?thesis
    using assms by (elim disjE) simp_all
qed

lemma stack_captured_lookup:
  assumes arch: "arch = BUN_ARCH_X86_64 \<or> arch = BUN_ARCH_ARM64" and rs: "regs_ok arch rs"
    and r: "r \<in> set (arch_registers arch)"
  shows "map_of (stack_captured arch rs) (of_nat (reg_value r)) = Some (regs_values rs ! us_index r)"
proof -
  let ?o = "stack_order arch"
  let ?ks = "map (\<lambda>r. of_nat (reg_value r) :: u32) ?o"
  have "r \<in> set ?o"
    using r arch by (auto simp: stack_order_complete)
  then obtain i where i: "i < length ?o" "?o ! i = r"
    by (auto simp: in_set_conv_nth)
  have index: "us_index r = i"
    using stack_order_index [OF arch] i by (metis add_0 length_upt nth_map nth_upt minus_nat.diff_0)
  have enough: "length ?ks \<le> length (regs_values rs)"
    using rs arch by (cases rs) auto
  have "distinct ?ks"
    using stack_order_complete(2) [of arch]
    by (simp add: distinct_map inj_on_def) (metis reg_value_word)
  then have "map_of (zip ?ks (take (length ?ks) (regs_values rs))) (?ks ! i) =
      Some (take (length ?ks) (regs_values rs) ! i)"
    by (intro map_of_zip_nth) (use enough i(1) in simp_all)
  then show ?thesis
    unfolding zip_take_same [OF enough] stack_captured_def using i index by simp
qed

text \<open>
  C26: on 32-bit ARM the code reads index 16 of a register set of 16 values, which is
  undefined. Elsewhere the frame written for a \<open>FrameData\<close> is well-formed and carries its
  program counter, its name (demangled when that takes less than 4096 bytes), its map and, as
  the line number, its offset in the function. On x86-64 and AArch64 it has each register of
  the architecture, once and with the value libunwindstack has for it, none lost for want of
  room in the 340 bytes of the local buffer; for other builds it has none.
\<close>

theorem libunwindstack_frame_contents:
  assumes "\<forall>s t. dem s = Some t \<longrightarrow> cstr_ok t" and "regs_ok arch rs" and "frame_data_ok fd"
  shows "if arch = BUN_ARCH_ARM then libunwindstack_frame dem arch rs fd = None
    else \<exists>f. libunwindstack_frame dem arch rs fd = Some f \<and> frame_ok f \<and> addr f = fd_pc fd \<and>
      symbol f = Some (case dem (fd_function_name fd) of
        None \<Rightarrow> fd_function_name fd
      | Some t \<Rightarrow> if length t < 4096 then t else fd_function_name fd) \<and>
      filename f = Some (fd_map_name fd) \<and> line_no f = fd_function_offset fd \<and> offset f = 0 \<and>
      (if arch = BUN_ARCH_X86_64 \<or> arch = BUN_ARCH_ARM64
       then length (frame_registers f) = length (arch_registers arch) \<and>
         (\<forall>r \<in> set (arch_registers arch).
            map_of (frame_registers f) (of_nat (reg_value r)) = Some (regs_values rs ! us_index r))
       else frame_registers f = [])"
proof (cases "arch = BUN_ARCH_ARM")
  case True
  then obtain vs where vs: "rs = Regs32 vs" "length vs = 16"
    using assms(2) by (cases rs) auto
  moreover have "length arm_order = 17"
    by (simp add: arm_order_def)
  ultimately show ?thesis
    using populate_from_short [of 0 "map ucast vs" arm_order] True
    by (simp add: libunwindstack_frame_def libunwindstack_populate_regs_arm_def
        del: populate_from.simps)
next
  case False
  obtain f where f: "libunwindstack_frame dem arch rs fd = Some f" "frame_ok f" "addr f = fd_pc fd"
    "symbol f = Some (stack_symbol dem fd)" "filename f = Some (fd_map_name fd)"
    "line_no f = fd_function_offset fd" "offset f = 0" "frame_registers f = stack_captured arch rs"
    using libunwindstack_frame_spec [OF assms False] by blast
  have name: "stack_symbol dem fd = (case dem (fd_function_name fd) of None \<Rightarrow> fd_function_name fd
      | Some t \<Rightarrow> if length t < 4096 then t else fd_function_name fd)"
    by (auto simp: stack_symbol_def bun_unwind_demangle_def DEMANGLE_SIZE_def split: option.split)
  have other: "stack_captured arch rs = []" if "\<not> (arch = BUN_ARCH_X86_64 \<or> arch = BUN_ARCH_ARM64)"
    using that False by (cases arch) (simp_all add: stack_captured_def)
  have len: "length (stack_captured arch rs) = length (arch_registers arch)"
    if "arch = BUN_ARCH_X86_64 \<or> arch = BUN_ARCH_ARM64"
    using that assms(2) stack_order_length [OF that]
    by (cases rs) (auto simp: stack_captured_def)
  show ?thesis
    using False f name other len stack_captured_lookup [OF _ assms(2)] by auto
qed

text \<open>
  Unwinding the calling thread with libunwindstack into a fresh buffer that holds the at
  most 13 named frames of the unwinder returns the size recorded in the header, names the
  thread and the backend there, and a reader gets exactly these frames, each with the
  registers of the last frame.
\<close>

theorem libunwindstack_unwind_replay:
  assumes "us_ok U arch" and "us_parse U" and "us_unwind U max_frames r = (fds, r')"
    and "fs = stack_frames (us_demangle U) arch (us_contents U r') fds"
    and "d + unat sz \<le> length m0" and "length m0 < 2 ^ 63"
    and "bun_buffer_init m0 b0 d sz = Some (True, b, m)"
    and "handle = NULL \<or> hs handle \<noteq> None"
    and "40 + total_size fs \<le> unat sz" and "24 + accounted fs < 2 ^ 32" and "length fs \<le> 13"
  shows "\<exists>m' gs. libunwindstack_unwind U arch r hs tid m w b handle =
      Some (24 + of_nat (accounted fs), m') \<and>
    stream_header m' b handle' = Some (tid, 2) \<and>
    replay_stream m' rd b handle' g = Some gs \<and>
    map parsed_of_frame gs = map parsed_of_frame fs"
  using assms by (rule libunwindstack_replays)

text \<open>
  C21: unwinding from a context (on another architecture than 32-bit ARM, where every frame
  reads past the registers) does the same with the frames its own loop finds, at most 128
  rounds of it, whatever the uninitialized variable of the loop holds.
\<close>

theorem libunwindstack_context_replay:
  assumes "us_ok U arch" and "us_parse U" and "fs = context_frames U arch max_frames 0 r"
    and "d + unat sz \<le> length m0" and "length m0 < 2 ^ 63"
    and "bun_buffer_init m0 b0 d sz = Some (True, b, m)"
    and "handle = NULL \<or> hs handle \<noteq> None"
    and "40 + total_size fs \<le> unat sz" and "24 + accounted fs < 2 ^ 32"
  shows "length fs \<le> 128 \<and>
    (\<exists>m' gs. libunwindstack_unwind_context U arch r hs tid m w b handle =
        Some (24 + of_nat (accounted fs), m') \<and>
      stream_header m' b handle' = Some (tid, 2) \<and>
      replay_stream m' rd b handle' g = Some gs \<and>
      map parsed_of_frame gs = map parsed_of_frame (readable (24 + accounted fs) 24 fs))"
proof -
  let ?u = "\<lparr>sr_lib = U, sr_arch = arch, sr_regs = r, sr_limit = max_frames, sr_thread = tid\<rparr>"
  have y: "context_yields ?u fs"
    using assms(1,3) by (simp add: context_yields_def)
  have "length fs \<le> 128"
    using length_context_frames [of U arch max_frames 0 r] assms(3) by (simp add: max_frames_def)
  with stack_context.run_replay [where hs = hs and handle = handle, OF assms(4-7) y assms(8,9),
      of tid w handle' rd g]
  show ?thesis
    by (simp add: libunwindstack_unwind_context_write [OF assms(2)])
qed

text \<open>
  Another thread: the frames are replayed and the thread is detached; and when a frame does
  not fit, the result is 0 and the thread is detached.
\<close>

theorem libunwindstack_unwind_remote_replay:
  assumes "us_ok U arch" and "us_parse U" and "us_unwind U max_frames_remote r = (fds, r')"
    and "fs = stack_frames (us_demangle U) arch (us_contents U r') fds"
    and "d + unat sz \<le> length m0" and "length m0 < 2 ^ 63"
    and "bun_buffer_init m0 b0 d sz = Some (True, b, m)"
    and "handle = NULL \<or> hs handle \<noteq> None"
    and "40 + total_size fs \<le> unat sz" and "24 + accounted fs < 2 ^ 32"
  shows "\<exists>m' gs. libunwindstack_unwind_remote U arch 0 True r pid hs tid m w b handle =
      Some (24 + of_nat (accounted fs), False, m') \<and>
    stream_header m' b handle' = Some (pid, 2) \<and>
    replay_stream m' rd b handle' g = Some gs \<and>
    map parsed_of_frame gs = map parsed_of_frame (readable (24 + accounted fs) 24 fs)"
proof -
  let ?u = "\<lparr>sr_lib = U, sr_arch = arch, sr_regs = r, sr_limit = max_frames_remote, sr_thread = pid\<rparr>"
  have y: "stack_yields ?u fs"
    using assms(1,3,4) by (simp add: stack_yields_def stack_trace_def)
  from stack.run_replay [where hs = hs and handle = handle, OF assms(5-8) y assms(9,10),
      of tid w handle' rd g]
  show ?thesis
    by (auto simp: libunwindstack_unwind_remote_write [OF assms(2)])
qed

text \<open>
  The thread stays attached exactly when it was attached and \<open>waitpid\<close> reports anything but a
  stop; the caller is then told 0, as it is whenever no stack was read.
\<close>

theorem libunwindstack_remote_attached:
  assumes "libunwindstack_unwind_remote U arch attach stopped r pid hs tid m w b handle =
    Some (n, attached, m')"
  shows "(attached \<longleftrightarrow> attach = 0 \<and> \<not> stopped) \<and>
    (attach \<noteq> 0 \<or> \<not> stopped \<or> \<not> us_parse U \<longrightarrow> n = 0)"
  using assms
  by (auto simp: libunwindstack_unwind_remote_def case_prod_beta' Let_def
      split: if_splits bind_splits)

text \<open>
  A library of one map that covers all addresses below \<open>4096\<close>: a step divides the program
  counter, and an unwinder yields a frame without a name and one with a mangled name.
\<close>

definition sample_stack :: "(nat, unit, unit) unwindstack" where
  "sample_stack = \<lparr>us_contents = (\<lambda>r. Regs64 (replicate 17 (of_nat r))), us_pc = of_nat,
     us_parse = True,
     us_unwind = (\<lambda>n r.
       ([\<lparr>fd_pc = 9, fd_function_name = [], fd_function_offset = 0, fd_map_name = [0x6d]\<rparr>,
         \<lparr>fd_pc = 8, fd_function_name = [0x5f, 0x5a], fd_function_offset = 4, fd_map_name = [0x6d]\<rparr>],
        r + 1)),
     us_find = (\<lambda>pc. if 0 < pc \<and> pc < 4096 then Some () else None), us_get_elf = Some,
     us_rel_pc = (\<lambda>e pc m. pc), us_adjustment = (\<lambda>pc e. 1),
     us_step = (\<lambda>e adj rel m r. (True, r div 100)),
     us_build_frame = (\<lambda>pc. \<lparr>fd_pc = pc, fd_function_name = [0x67], fd_function_offset = 1,
       fd_map_name = []\<rparr>),
     us_demangle = (\<lambda>s. if s = [0x5f, 0x5a] then Some [0x66, 0x6e] else None),
     us_stale = (\<lambda>_. 0)\<rparr>"

lemma sample_stack_ok: "us_ok sample_stack BUN_ARCH_X86_64"
  by (auto simp: us_ok_def sample_stack_def frame_data_ok_def cstr_ok_def x86_64_order_def
      split: if_splits)

text \<open>The registers after the unwinder and after one step of the loop, and the one frame of each.\<close>

abbreviation sample_regs :: "nat \<Rightarrow> regs" where
  "sample_regs r \<equiv> us_contents sample_stack r"

definition sample_mangled :: frame_data where
  "sample_mangled =
     \<lparr>fd_pc = 8, fd_function_name = [0x5f, 0x5a], fd_function_offset = 4, fd_map_name = [0x6d]\<rparr>"

definition sample_plain :: frame_data where
  "sample_plain =
     \<lparr>fd_pc = 3, fd_function_name = [0x67], fd_function_offset = 1, fd_map_name = []\<rparr>"

definition sample_stack_frames :: "bun_frame list" where
  "sample_stack_frames = stack_frames (us_demangle sample_stack) BUN_ARCH_X86_64 (sample_regs 4)
     (fst (us_unwind sample_stack max_frames 3))"

definition sample_context_frames :: "bun_frame list" where
  "sample_context_frames = context_frames sample_stack BUN_ARCH_X86_64 max_frames 0 3"

lemma sample_stack_demangle: "\<forall>s t. us_demangle sample_stack s = Some t \<longrightarrow> cstr_ok t"
  and sample_stack_regs: "regs_ok BUN_ARCH_X86_64 (sample_regs r)"
  and sample_stack_arch: "BUN_ARCH_X86_64 \<noteq> BUN_ARCH_ARM"
  and sample_captured: "length (stack_captured BUN_ARCH_X86_64 (sample_regs r)) = 17"
  by (simp_all add: sample_stack_def cstr_ok_def x86_64_order_def stack_captured_def)

lemmas sample_frame_sizes =
  libunwindstack_frame_size [OF sample_stack_demangle sample_stack_regs _ sample_stack_arch] sample_captured

lemma sample_stack_frames_eq:
  "sample_stack_frames =
    [the (libunwindstack_frame (us_demangle sample_stack) BUN_ARCH_X86_64 (sample_regs 4) sample_mangled)]"
  unfolding sample_stack_frames_def stack_frames_def
  by (simp add: sample_stack_def sample_mangled_def)

lemma length_sample_stack_frames: "length sample_stack_frames = 1"
  by (simp add: sample_stack_frames_eq)

lemma sample_stack_sizes:
  "total_size sample_stack_frames = 201" "accounted sample_stack_frames = 199"
  by (simp_all add: sample_stack_frames_eq sample_frame_sizes frame_data_ok_def cstr_ok_def
      sample_mangled_def)
    (simp_all add: stack_symbol_def bun_unwind_demangle_def DEMANGLE_SIZE_def sample_stack_def)

lemma sample_context_frames_eq:
  "sample_context_frames =
    [the (libunwindstack_frame (us_demangle sample_stack) BUN_ARCH_X86_64 (sample_regs 0)
      (us_build_frame sample_stack 3))]"
proof -
  have "context_step sample_stack s 3 = Some (us_build_frame sample_stack 3, 0)"
    and "context_step sample_stack s 0 = None"
    and "fd_function_name (us_build_frame sample_stack 3) \<noteq> []" for s
    by (simp_all add: context_step_def sample_stack_def)
  then have "context_frames sample_stack BUN_ARCH_X86_64 (Suc (Suc 126)) 0 3 =
      [the (libunwindstack_frame (us_demangle sample_stack) BUN_ARCH_X86_64 (sample_regs 0)
        (us_build_frame sample_stack 3))]"
    by (simp only: context_frames.simps option.case prod.case stack_frames_simps) simp
  then show ?thesis
    by (simp add: sample_context_frames_def max_frames_def)
qed

lemma sample_context_sizes:
  "total_size sample_context_frames = 199" "accounted sample_context_frames = 197"
proof -
  have "us_build_frame sample_stack 3 = sample_plain"
    by (simp add: sample_stack_def sample_plain_def)
  then show "total_size sample_context_frames = 199" "accounted sample_context_frames = 197"
    by (simp_all add: sample_context_frames_eq sample_frame_sizes frame_data_ok_def cstr_ok_def
        sample_plain_def)
      (simp_all add: stack_symbol_def bun_unwind_demangle_def DEMANGLE_SIZE_def sample_stack_def)
qed

theorem libunwindstack_frame_contents_witness:
  "\<exists>f. libunwindstack_frame (us_demangle sample_stack) BUN_ARCH_X86_64 (sample_regs 4) sample_mangled = Some f \<and>
    frame_ok f \<and> addr f = 8 \<and> symbol f = Some [0x66, 0x6e] \<and>
    map_of (frame_registers f) (of_nat (reg_value BUN_REGISTER_X86_64_RBX)) = Some 4"
proof -
  have "BUN_REGISTER_X86_64_RBX \<in> set (arch_registers BUN_ARCH_X86_64)"
    by (simp add: arch_registers_def bun_registers_def)
  moreover have "frame_data_ok sample_mangled"
    by (simp add: sample_mangled_def frame_data_ok_def cstr_ok_def)
  moreover have "regs_values (sample_regs 4) ! us_index BUN_REGISTER_X86_64_RBX = 4"
    by (simp add: sample_stack_def us_index_def)
  moreover have "us_demangle sample_stack (fd_function_name sample_mangled) = Some [0x66, 0x6e]"
    and "fd_pc sample_mangled = 8"
    by (simp_all add: sample_stack_def sample_mangled_def)
  ultimately show ?thesis
    using libunwindstack_frame_contents [OF sample_stack_demangle sample_stack_regs, of sample_mangled 4]
    by (fastforce simp del: reg_value.simps)
qed

theorem libunwindstack_unwind_replay_witness:
  "\<exists>m' gs. libunwindstack_unwind sample_stack BUN_ARCH_X86_64 3 (\<lambda>_. None) 9 (replicate 300 0)
      (sample_rw 0) \<lparr>buf_data = 0, buf_size = 300\<rparr> 0 =
      Some (24 + of_nat (accounted sample_stack_frames), m') \<and>
    stream_header m' \<lparr>buf_data = 0, buf_size = 300\<rparr> 0 = Some (9, 2) \<and>
    replay_stream m' (sample_rw 0) \<lparr>buf_data = 0, buf_size = 300\<rparr> 0 zero_frame = Some gs \<and>
    map parsed_of_frame gs = map parsed_of_frame sample_stack_frames"
proof (rule libunwindstack_unwind_replay [where d = 0 and sz = 300 and ?m0.0 = "replicate 300 0" and
        ?b0.0 = "\<lparr>buf_data = 0, buf_size = 0\<rparr>" and fds = "fst (us_unwind sample_stack max_frames 3)"
        and r' = 4, OF sample_stack_ok])
  show "us_parse sample_stack"
    and "us_unwind sample_stack max_frames 3 = (fst (us_unwind sample_stack max_frames 3), 4)"
    by (simp_all add: sample_stack_def)
qed (simp_all add: sample_stack_frames_def [symmetric] sample_stack_sizes
    length_sample_stack_frames bun_buffer_init_ok patch_def flip: replicate_add)

theorem libunwindstack_context_replay_witness:
  "length sample_context_frames \<le> 128 \<and>
    (\<exists>m' gs. libunwindstack_unwind_context sample_stack BUN_ARCH_X86_64 3 (\<lambda>_. None) 9
        (replicate 300 0) (sample_rw 0) \<lparr>buf_data = 0, buf_size = 300\<rparr> 0 =
        Some (24 + of_nat (accounted sample_context_frames), m') \<and>
      stream_header m' \<lparr>buf_data = 0, buf_size = 300\<rparr> 0 = Some (9, 2) \<and>
      replay_stream m' (sample_rw 0) \<lparr>buf_data = 0, buf_size = 300\<rparr> 0 zero_frame = Some gs \<and>
      map parsed_of_frame gs = map parsed_of_frame
        (readable (24 + accounted sample_context_frames) 24 sample_context_frames))"
proof (rule libunwindstack_context_replay [where d = 0 and sz = 300 and ?m0.0 = "replicate 300 0" and
        ?b0.0 = "\<lparr>buf_data = 0, buf_size = 0\<rparr>", OF sample_stack_ok])
  show "us_parse sample_stack"
    by (simp add: sample_stack_def)
  show "sample_context_frames = context_frames sample_stack BUN_ARCH_X86_64 max_frames 0 3"
    by (rule sample_context_frames_def)
qed (simp_all add: sample_context_sizes bun_buffer_init_ok patch_def flip: replicate_add)

end
