(* ===== verification/Bun_Handle.thy ===== *)
theory Bun_Handle
  imports Bun_Libbacktrace Bun_Libunwindstack
begin

text \<open>
  \<open>src/bun.c\<close> and the backends' initializers: a handle is a record of function pointers
  that the backend fills, and the public entry points call through it. A call through
  \<open>NULL\<close> is undefined behaviour (\<open>None\<close>).
\<close>

subsection \<open>Initialization\<close>

text \<open>The preprocessor symbols of the build.\<close>

record bun_build =
  BUN_LIBUNWIND_ENABLED :: bool
  BUN_LIBBACKTRACE_ENABLED :: bool
  BUN_LIBUNWINDSTACK_ENABLED :: bool
  BUN_DISABLE_LIBUNWINDSTACK_INTEGRATION :: bool

definition zero_handle :: bun_handle where
  "zero_handle = \<lparr>unwind = None, unwind_context = None, unwind_remote = None, destroy = None,
     backend_context = NULL, flags = 0, handle_write_count = 0\<rparr>"

text \<open>\<open>context\<close> is the result of \<open>malloc\<close>.\<close>

definition bun_internal_initialize_libunwind ::
    "ptr \<Rightarrow> bun_handle \<Rightarrow> bool \<times> bun_handle" where
  "bun_internal_initialize_libunwind ctx handle =
     (if ctx = NULL then (False, handle)
      else (True, handle\<lparr>backend_context := ctx, unwind := Some libunwind_unwind_fn,
                        unwind_remote := Some libunwind_unwind_remote_fn,
                        destroy := Some libunwind_destroy_handle_fn\<rparr>))"

definition bun_internal_initialize_libbacktrace :: "bun_handle \<Rightarrow> bool \<times> bun_handle" where
  "bun_internal_initialize_libbacktrace handle =
     (True, handle\<lparr>unwind := Some libbacktrace_unwind_fn,
                   destroy := Some libbacktrace_destroy_fn\<rparr>)"

definition bun_internal_initialize_libunwindstack ::
    "bun_build \<Rightarrow> bun_handle \<Rightarrow> bool \<times> bun_handle" where
  "bun_internal_initialize_libunwindstack build handle =
     (if BUN_DISABLE_LIBUNWINDSTACK_INTEGRATION build then (False, handle)
      else (True, handle\<lparr>unwind := Some libunwindstack_unwind_fn,
                        unwind_context := Some libunwindstack_unwind_context_fn,
                        unwind_remote := Some libunwindstack_unwind_remote_fn,
                        destroy := Some libunwindstack_destroy_handle_fn\<rparr>))"

text \<open>The cases of the switch exist for the backends that are built in.\<close>

definition bun_handle_init ::
    "bun_build \<Rightarrow> ptr \<Rightarrow> bun_handle \<Rightarrow> bun_unwind_backend \<Rightarrow> bool \<times> bun_handle" where
  "bun_handle_init build ctx handle kind =
     (let h = zero_handle
      in case kind of
           BUN_BACKEND_LIBUNWIND \<Rightarrow>
             if BUN_LIBUNWIND_ENABLED build then bun_internal_initialize_libunwind ctx h
             else (False, h)
         | BUN_BACKEND_LIBBACKTRACE \<Rightarrow>
             if BUN_LIBBACKTRACE_ENABLED build then bun_internal_initialize_libbacktrace h
             else (False, h)
         | BUN_BACKEND_LIBUNWINDSTACK \<Rightarrow>
             if BUN_LIBUNWINDSTACK_ENABLED build
             then bun_internal_initialize_libunwindstack build h else (False, h)
         | BUN_BACKEND_NONE \<Rightarrow> (False, h))"

subsection \<open>Calls through the handle\<close>

text \<open>
  What the handle's functions run on: the libraries, the cursor of the calling thread and
  the remote thread. The functions of the C++ backend are arguments.
\<close>

type_synonym unwinder =
  "handle_heap \<Rightarrow> u32 \<Rightarrow> mem \<Rightarrow> bun_writer \<Rightarrow> bun_buffer \<Rightarrow> ptr \<Rightarrow> (u64 \<times> mem) option"

record ('c, 's, 'r, 'm, 'e) bun_env =
  env_libunwind :: "'c libunwind"
  env_arch :: bun_architecture
  env_cursor :: 'c
  env_libbacktrace :: libbacktrace
  env_wait :: "'s os_wait"
  env_world :: 's
  env_attach :: int
  env_init_remote :: int
  env_remote_cursor :: 'c
  env_unwindstack :: "('r, 'm, 'e) unwindstack"
  env_regs :: 'r
  env_context_regs :: "ptr \<Rightarrow> 'r"
  env_remote_unwindstack :: "('r, 'm, 'e) unwindstack"
  env_remote_regs :: 'r
  env_stopped :: bool

fun call_unwind :: "('c, 's, 'r, 'm, 'e) bun_env \<Rightarrow> unwind_fn \<Rightarrow> unwinder" where
  "call_unwind E libunwind_unwind_fn = libunwind_unwind (env_libunwind E) (env_arch E) (env_cursor E)"
| "call_unwind E libbacktrace_unwind_fn = libbacktrace_unwind (env_libbacktrace E)"
| "call_unwind E libunwindstack_unwind_fn =
     libunwindstack_unwind (env_unwindstack E) (env_arch E) (env_regs E)"

fun call_unwind_context :: "('c, 's, 'r, 'm, 'e) bun_env \<Rightarrow> unwind_context_fn \<Rightarrow> ptr \<Rightarrow> unwinder" where
  "call_unwind_context E libunwindstack_unwind_context_fn ctx =
     libunwindstack_unwind_context (env_unwindstack E) (env_arch E) (env_context_regs E ctx)"

fun call_unwind_remote :: "('c, 's, 'r, 'm, 'e) bun_env \<Rightarrow> unwind_remote_fn \<Rightarrow> u32 \<Rightarrow> unwinder" where
  "call_unwind_remote E libunwind_unwind_remote_fn pid hs tid m w b p =
     map_option (\<lambda>(n, destroyed, m'). (n, m'))
       (libunwind_unwind_remote (env_libunwind E) (env_arch E) (env_wait E) (env_world E)
         (env_attach E) (env_init_remote E) (env_remote_cursor E) pid hs tid m w b p)"
| "call_unwind_remote E libunwindstack_unwind_remote_fn pid hs tid m w b p =
     map_option (\<lambda>(n, attached, m'). (n, m'))
       (libunwindstack_unwind_remote (env_remote_unwindstack E) (env_arch E) (env_attach E)
         (env_stopped E) (env_remote_regs E) pid hs tid m w b p)"

text \<open>The public entry points; \<open>p\<close> is the address of the handle.\<close>

definition bun_unwind :: "('c, 's, 'r, 'm, 'e) bun_env \<Rightarrow> unwinder" where
  "bun_unwind E hs tid m w b p =
     do { h \<leftarrow> hs p; fn \<leftarrow> unwind h; call_unwind E fn hs tid m w b p }"

definition bun_unwind_context :: "('c, 's, 'r, 'm, 'e) bun_env \<Rightarrow> ptr \<Rightarrow> unwinder" where
  "bun_unwind_context E ctx hs tid m w b p =
     do { h \<leftarrow> hs p; fn \<leftarrow> unwind_context h; call_unwind_context E fn ctx hs tid m w b p }"

definition bun_unwind_remote :: "('c, 's, 'r, 'm, 'e) bun_env \<Rightarrow> u32 \<Rightarrow> unwinder" where
  "bun_unwind_remote E pid hs tid m w b p =
     do { h \<leftarrow> hs p; fn \<leftarrow> unwind_remote h; call_unwind_remote E fn pid hs tid m w b p }"

text \<open>The addresses a destructor frees.\<close>

fun call_destroy :: "handle_destructor_fn \<Rightarrow> bun_handle \<Rightarrow> ptr list" where
  "call_destroy libunwind_destroy_handle_fn h = [backend_context h]"
| "call_destroy libbacktrace_destroy_fn h = []"
| "call_destroy libunwindstack_destroy_handle_fn h = []"

definition bun_handle_deinit :: "bun_handle \<Rightarrow> ptr list option" where
  "bun_handle_deinit h = do { fn \<leftarrow> destroy h; Some (call_destroy fn h) }"

subsection \<open>Properties\<close>

text \<open>The backends a build can initialize, when memory can be allocated.\<close>

definition available :: "bun_build \<Rightarrow> ptr \<Rightarrow> bun_unwind_backend \<Rightarrow> bool" where
  "available build ctx kind \<longleftrightarrow>
     (kind = BUN_BACKEND_LIBUNWIND \<and> BUN_LIBUNWIND_ENABLED build \<and> ctx \<noteq> NULL) \<or>
     (kind = BUN_BACKEND_LIBBACKTRACE \<and> BUN_LIBBACKTRACE_ENABLED build) \<or>
     (kind = BUN_BACKEND_LIBUNWINDSTACK \<and> BUN_LIBUNWINDSTACK_ENABLED build \<and>
        \<not> BUN_DISABLE_LIBUNWINDSTACK_INTEGRATION build)"

lemmas handle_init_defs =
  bun_handle_init_def bun_internal_initialize_libunwind_def
  bun_internal_initialize_libbacktrace_def bun_internal_initialize_libunwindstack_def
  zero_handle_def Let_def

lemma handle_init_flags: "bun_handle_init build ctx h0 kind = (True, h) \<Longrightarrow> flags h = 0"
  by (cases kind) (auto simp: handle_init_defs split: if_splits)

text \<open>
  \<open>bun_handle_init\<close> succeeds exactly for the backends that are built in. On success the
  unwind function and the destructor can be called, and destroying the handle frees exactly
  what initialization allocated; on failure every function pointer is \<open>NULL\<close>, so that even
  the deinitialization of the handle is undefined. The old contents never matter.
\<close>

theorem bun_handle_init_spec:
  "case bun_handle_init build ctx handle kind of (ok, h) \<Rightarrow>
    ok = available build ctx kind \<and> flags h = 0 \<and>
    (if ok then unwind h \<noteq> None \<and>
        bun_handle_deinit h = Some (if kind = BUN_BACKEND_LIBUNWIND then [ctx] else [])
     else h = zero_handle \<and> bun_handle_deinit h = None)"
  by (cases kind) (simp_all add: handle_init_defs available_def bun_handle_deinit_def)

text \<open>
  Of the three entry points only \<open>bun_unwind\<close> may be called on every initialized
  handle: unwinding from a context is defined for libunwindstack only, unwinding another
  thread for all backends but libbacktrace; otherwise a \<open>NULL\<close> pointer is called.
\<close>

theorem bun_unwind_entry_points:
  assumes "bun_handle_init build ctx h0 kind = (True, h)" and "hs p = Some h"
  shows "(\<exists>fn. unwind h = Some fn \<and>
      bun_unwind E hs tid m w b p = call_unwind E fn hs tid m w b p) \<and>
    (kind \<noteq> BUN_BACKEND_LIBUNWINDSTACK \<longrightarrow> bun_unwind_context E c hs tid m w b p = None) \<and>
    (kind = BUN_BACKEND_LIBBACKTRACE \<longrightarrow> bun_unwind_remote E pid hs tid m w b p = None)"
  using assms
  by (cases kind) (auto simp: handle_init_defs bun_unwind_def bun_unwind_context_def
      bun_unwind_remote_def split: if_splits)

text \<open>
  The libraries of an environment behave as documented and yield the frames \<open>fs\<close> for the
  calling thread.
\<close>

fun env_yields ::
    "('c, 's, 'r, 'm, 'e) bun_env \<Rightarrow> bun_unwind_backend \<Rightarrow> bun_frame list \<Rightarrow> bool" where
  "env_yields E BUN_BACKEND_LIBUNWIND fs \<longleftrightarrow>
     unw_ok (env_libunwind E) \<and>
     unw_trace (env_libunwind E) (env_arch E) BUN_UNWIND_SIGNAL_SAFETY_REQUIRED (env_cursor E) fs"
| "env_yields E BUN_BACKEND_LIBBACKTRACE fs \<longleftrightarrow>
     bt_ok (env_libbacktrace E) \<and> fs = libbacktrace_frames (env_libbacktrace E)"
| "env_yields E BUN_BACKEND_LIBUNWINDSTACK fs \<longleftrightarrow>
     us_ok (env_unwindstack E) (env_arch E) \<and> us_parse (env_unwindstack E) \<and>
     (\<exists>fds r'. us_unwind (env_unwindstack E) max_frames (env_regs E) = (fds, r') \<and>
        fs = stack_frames (us_demangle (env_unwindstack E)) (env_arch E)
          (us_contents (env_unwindstack E) r') fds)"
| "env_yields E BUN_BACKEND_NONE fs \<longleftrightarrow> False"

text \<open>
  Whatever the backend of the handle, \<open>bun_unwind\<close> records the frames of its library, under
  the number of the calling thread.
\<close>

lemma bun_unwind_records:
  assumes "bun_handle_init build ctx h0 kind = (True, h)" and "hs p = Some h"
    and "env_yields E kind fs"
  shows "\<exists>arch t. bun_unwind E hs tid m w b p = backend_record hs tid m w b arch p kind t fs \<and>
    (case t of None \<Rightarrow> tid | Some t' \<Rightarrow> t') = tid \<and> (\<forall>f \<in> set fs. frame_ok f)"
proof (cases kind)
  case BUN_BACKEND_LIBUNWIND
  let ?u = "\<lparr>run_lib = env_libunwind E, run_arch = env_arch E,
    run_safety = BUN_UNWIND_SIGNAL_SAFETY_REQUIRED, run_cursor = env_cursor E, run_thread = tid\<rparr>"
  have u: "libunwind_yields ?u fs"
    using assms(3) BUN_BACKEND_LIBUNWIND by (simp add: libunwind_yields_def)
  have "bun_unwind E hs tid m w b p = libunwind_run ?u hs tid m w b p"
    using assms(1,2) BUN_BACKEND_LIBUNWIND
    by (auto simp: handle_init_defs bun_unwind_def libunwind_unwind_def libunwind_run_def split: if_splits)
  then show ?thesis
    using libunwind.run_records [OF u, of hs tid m w b p] libunwind.yields_ok [OF u] BUN_BACKEND_LIBUNWIND
    by (intro exI [of _ "run_arch ?u"] exI [of _ "Some tid"]) simp
next
  case BUN_BACKEND_LIBBACKTRACE
  have u: "libbacktrace_yields (env_libbacktrace E) fs"
    using assms(3) BUN_BACKEND_LIBBACKTRACE by (simp add: libbacktrace_yields_def)
  have "bun_unwind E hs tid m w b p = libbacktrace_unwind (env_libbacktrace E) hs tid m w b p"
    using assms(1,2) BUN_BACKEND_LIBBACKTRACE by (auto simp: handle_init_defs bun_unwind_def split: if_splits)
  then show ?thesis
    using libbacktrace.run_records [OF u, of hs tid m w b p] libbacktrace.yields_ok [OF u]
      BUN_BACKEND_LIBBACKTRACE
    by (intro exI [of _ "bt_arch (env_libbacktrace E)"] exI [of _ None]) simp
next
  case BUN_BACKEND_LIBUNWINDSTACK
  let ?u = "\<lparr>sr_lib = env_unwindstack E, sr_arch = env_arch E, sr_regs = env_regs E,
    sr_limit = max_frames, sr_thread = tid\<rparr>"
  have u: "us_parse (env_unwindstack E)" "stack_yields ?u fs"
    using assms(3) BUN_BACKEND_LIBUNWINDSTACK by (auto simp: stack_yields_def stack_trace_def)
  have "bun_unwind E hs tid m w b p = stack_write ?u hs tid m w b p"
    using assms(1,2) BUN_BACKEND_LIBUNWINDSTACK
    by (auto simp: handle_init_defs bun_unwind_def libunwindstack_unwind_write [OF u(1)] split: if_splits)
  then show ?thesis
    using stack.run_records [OF u(2), of hs tid m w b p] stack.yields_ok [OF u(2)]
      BUN_BACKEND_LIBUNWINDSTACK
    by (intro exI [of _ "sr_arch ?u"] exI [of _ "Some tid"]) simp
qed (use assms(3) in simp)

lemma backend_value_short: "uint (word_of_int (backend_value kind) :: u16) = backend_value kind"
  if "env_yields E kind fs"
  using that by (cases kind) simp_all

lemma bun_unwind_replays:
  assumes "bun_handle_init build ctx h0 kind = (True, h)" and "hs p = Some h"
    and "env_yields E kind fs"
    and "d + unat sz \<le> length m0" and "length m0 < 2 ^ 63"
    and "bun_buffer_init m0 b0 d sz = Some (True, b, m)"
    and "40 + total_size fs \<le> unat sz" and "24 + accounted fs < 2 ^ 32" and "length fs \<le> 13"
  shows "\<exists>m' gs. bun_unwind E hs tid m w b p = Some (24 + of_nat (accounted fs), m') \<and>
    stream_header m' b p' = Some (tid, backend_value kind) \<and>
    replay_stream m' r b p' g = Some gs \<and>
    map parsed_of_frame gs = map parsed_of_frame fs"
proof -
  obtain arch t where rec: "bun_unwind E hs tid m w b p = backend_record hs tid m w b arch p kind t fs"
    "(case t of None \<Rightarrow> tid | Some t' \<Rightarrow> t') = tid" and ok: "\<forall>f \<in> set fs. frame_ok f"
    using bun_unwind_records [where hs = hs and p = p, OF assms(1-3)] by blast
  have p: "p = NULL \<or> hs p \<noteq> None" and all: "readable (24 + accounted fs) 24 fs = fs"
    using assms(2,9) by (auto intro: readable_short [where d = 0])
  from backend_record_replay [where hs = hs and handle = p, OF assms(4-6) p ok assms(7,8),
      of tid w arch kind t p' r g]
  show ?thesis
    unfolding rec backend_value_short [OF assms(3)] all .
qed

text \<open>
  C2: a handle initialized for any backend of the build unwinds the calling thread into a
  fresh buffer. For a trace of at most 13 frames that fits (40 bytes and two bytes more than
  the counted size per frame), \<open>bun_unwind\<close> returns the size in the header, which
  names the thread and the backend of the handle, and a reader gets exactly the frames the
  library yields. Of a longer trace the reader may miss the last frames.
\<close>

theorem bun_unwind_replay:
  assumes "bun_handle_init build ctx h0 kind = (True, h)" and "hs p = Some h"
    and "env_yields E kind fs"
    and "d + unat sz \<le> length m0" and "length m0 < 2 ^ 63"
    and "bun_buffer_init m0 b0 d sz = Some (True, b, m)"
    and "40 + total_size fs \<le> unat sz" and "24 + accounted fs < 2 ^ 32" and "length fs \<le> 13"
  shows "\<exists>m' gs. bun_unwind E hs tid m w b p = Some (24 + of_nat (accounted fs), m') \<and>
    stream_header m' b p' = Some (tid, backend_value kind) \<and>
    replay_stream m' r b p' g = Some gs \<and>
    map parsed_of_frame gs = map parsed_of_frame fs"
  using assms by (rule bun_unwind_replays)

text \<open>
  C12: when at most 13 frames fit the buffer and the next one does not even fit by its counted
  size (which is two bytes too small), \<open>bun_unwind\<close> reports 0, whatever the
  backend of the handle; the header still names the thread and the backend, and a reader gets
  the frames before it and none of the later ones. A frame with registers that is only one or
  two bytes too big is not refused, but written past the end
  (\<open>bun_frame_write_overruns\<close>).
\<close>

theorem bun_unwind_full:
  assumes "bun_handle_init build ctx h0 kind = (True, h)" and "hs p = Some h"
    and "env_yields E kind (fs @ f # fs')"
    and "d + unat sz \<le> length m0" and "length m0 < 2 ^ 63"
    and "bun_buffer_init m0 b0 d sz = Some (True, b, m)"
    and "40 + total_size fs \<le> unat sz" and "unat sz < 40 + total_size fs + frame_size f"
    and "24 + accounted fs < 2 ^ 32" and "length fs \<le> 13"
  shows "\<exists>m' gs. bun_unwind E hs tid m w b p = Some (0, m') \<and>
    stream_header m' b p' = Some (tid, backend_value kind) \<and>
    replay_stream m' r b p' g = Some gs \<and>
    map parsed_of_frame gs = map parsed_of_frame fs"
proof -
  obtain arch t where rec:
    "bun_unwind E hs tid m w b p = backend_record hs tid m w b arch p kind t (fs @ f # fs')"
    "(case t of None \<Rightarrow> tid | Some t' \<Rightarrow> t') = tid" and ok: "\<forall>f \<in> set fs. frame_ok f" "frame_ok f"
    using bun_unwind_records [where hs = hs and p = p, OF assms(1-3)] by fastforce
  have p: "p = NULL \<or> hs p \<noteq> None" and all: "readable (24 + accounted fs) 24 fs = fs"
    using assms(2,10) by (auto intro: readable_short [where d = 0])
  from backend_record_full [where hs = hs and handle = p, OF assms(4-6) p ok assms(7-9),
      of tid w arch kind t fs' p' r g]
  show ?thesis
    unfolding rec backend_value_short [OF assms(3)] all .
qed

text \<open>The same for another thread, the one with the number \<open>pid\<close>.\<close>

fun env_remote_yields ::
    "('c, 's, 'r, 'm, 'e) bun_env \<Rightarrow> bun_unwind_backend \<Rightarrow> u32 \<Rightarrow> bun_frame list \<Rightarrow> bool" where
  "env_remote_yields E BUN_BACKEND_LIBUNWIND pid fs \<longleftrightarrow>
     env_attach E = 0 \<and>
     (\<exists>r s. bun_waitpid (env_wait E) (sint pid) 5000 (env_world E) = Some (r, s) \<and> 0 \<le> r) \<and>
     env_init_remote E = 0 \<and> unw_ok (env_libunwind E) \<and>
     unw_trace (env_libunwind E) (env_arch E) BUN_UNWIND_SIGNAL_SAFETY_NOT_REQUIRED
       (env_remote_cursor E) fs"
| "env_remote_yields E BUN_BACKEND_LIBUNWINDSTACK pid fs \<longleftrightarrow>
     env_attach E = 0 \<and> env_stopped E \<and>
     us_ok (env_remote_unwindstack E) (env_arch E) \<and> us_parse (env_remote_unwindstack E) \<and>
     (\<exists>fds r'. us_unwind (env_remote_unwindstack E) max_frames_remote (env_remote_regs E) = (fds, r') \<and>
        fs = stack_frames (us_demangle (env_remote_unwindstack E)) (env_arch E)
          (us_contents (env_remote_unwindstack E) r') fds)"
| "env_remote_yields E _ pid fs \<longleftrightarrow> False"

lemma bun_unwind_remote_init:
  assumes "bun_handle_init build ctx h0 kind = (True, h)" and "hs p = Some h"
    and "env_remote_yields E kind pid fs" and "buffer_ok m b"
    and "bun_writer_init hs tid m w b (env_arch E) p = Some (True, rw_start b p, mi)"
    and "40 + total_size fs \<le> unat (buf_size b)" and "24 + accounted fs < 2 ^ 32"
  shows "\<exists>m' gs. bun_unwind_remote E pid hs tid m w b p = Some (24 + of_nat (accounted fs), m') \<and>
    stream_header m' b p' = Some (pid, backend_value kind) \<and>
    replay_stream m' r b p' g = Some gs \<and>
    map parsed_of_frame gs = map parsed_of_frame (readable (24 + accounted fs) 24 fs)"
proof (cases kind)
  case BUN_BACKEND_LIBUNWIND
  let ?u = "\<lparr>run_lib = env_libunwind E, run_arch = env_arch E,
    run_safety = BUN_UNWIND_SIGNAL_SAFETY_NOT_REQUIRED, run_cursor = env_remote_cursor E, run_thread = pid\<rparr>"
  obtain ret s where wait: "bun_waitpid (env_wait E) (sint pid) 5000 (env_world E) = Some (ret, s)" "0 \<le> ret"
    using assms(3) BUN_BACKEND_LIBUNWIND by auto
  have lu: "env_attach E = 0" "env_init_remote E = 0" "libunwind_yields ?u fs"
    using assms(3) BUN_BACKEND_LIBUNWIND by (simp_all add: libunwind_yields_def)
  have "bun_unwind_remote E pid hs tid m w b p = libunwind_run ?u hs tid m w b p"
    using assms(1,2) BUN_BACKEND_LIBUNWIND wait lu(1,2)
    by (auto simp: handle_init_defs bun_unwind_remote_def libunwind_unwind_remote_def libunwind_run_def
        map_option_case split: if_splits bind_splits option.splits)
  with libunwind.run_replay_init [OF assms(4) _ lu(3) assms(6,7), of hs tid w p mi p' r g] assms(5)
  show ?thesis
    using BUN_BACKEND_LIBUNWIND by simp
next
  case BUN_BACKEND_LIBUNWINDSTACK
  let ?u = "\<lparr>sr_lib = env_remote_unwindstack E, sr_arch = env_arch E, sr_regs = env_remote_regs E,
    sr_limit = max_frames_remote, sr_thread = pid\<rparr>"
  have us: "env_attach E = 0" "env_stopped E" "us_parse (env_remote_unwindstack E)" "stack_yields ?u fs"
    using assms(3) BUN_BACKEND_LIBUNWINDSTACK by (auto simp: stack_yields_def stack_trace_def)
  have "bun_unwind_remote E pid hs tid m w b p = stack_write ?u hs tid m w b p"
    using assms(1,2) BUN_BACKEND_LIBUNWINDSTACK us(1,2)
    by (auto simp: handle_init_defs bun_unwind_remote_def libunwindstack_unwind_remote_write [OF us(3)]
        option.map_comp option.map_ident o_def case_prod_beta' split: if_splits)
  with stack.run_replay_init [OF assms(4) _ us(4) assms(6,7), of hs tid w p mi p' r g] assms(5)
  show ?thesis
    using BUN_BACKEND_LIBUNWINDSTACK by simp
qed (use assms(3) in simp_all)

definition sample_build :: bun_build where
  "sample_build = \<lparr>BUN_LIBUNWIND_ENABLED = True, BUN_LIBBACKTRACE_ENABLED = True,
     BUN_LIBUNWINDSTACK_ENABLED = False, BUN_DISABLE_LIBUNWINDSTACK_INTEGRATION = False\<rparr>"

definition sample_env :: "(nat, nat, nat, unit, unit) bun_env" where
  "sample_env = \<lparr>env_libunwind = sample_lib, env_arch = BUN_ARCH_X86_64, env_cursor = 1,
     env_libbacktrace = sample_bt, env_wait = sample_wait (Wait_pid 42 (Stopped 5)), env_world = 0,
     env_attach = 0, env_init_remote = 0, env_remote_cursor = 1,
     env_unwindstack = sample_stack, env_regs = 3, env_context_regs = (\<lambda>c. 3),
     env_remote_unwindstack = sample_stack, env_remote_regs = 3, env_stopped = True\<rparr>"

definition sample_handle :: bun_handle where
  "sample_handle = zero_handle\<lparr>unwind := Some libbacktrace_unwind_fn,
     destroy := Some libbacktrace_destroy_fn\<rparr>"

theorem bun_unwind_entry_points_witness:
  "(\<exists>fn. unwind sample_handle = Some fn \<and>
      bun_unwind sample_env (\<lambda>_. Some sample_handle) 9 [] (sample_rw 0) \<lparr>buf_data = 0, buf_size = 0\<rparr> 5
        = call_unwind sample_env fn (\<lambda>_. Some sample_handle) 9 [] (sample_rw 0)
            \<lparr>buf_data = 0, buf_size = 0\<rparr> 5) \<and>
    bun_unwind_context sample_env 0 (\<lambda>_. Some sample_handle) 9 [] (sample_rw 0)
      \<lparr>buf_data = 0, buf_size = 0\<rparr> 5 = None \<and>
    bun_unwind_remote sample_env 42 (\<lambda>_. Some sample_handle) 9 [] (sample_rw 0)
      \<lparr>buf_data = 0, buf_size = 0\<rparr> 5 = None"
proof -
  have "bun_handle_init sample_build 0 zero_handle BUN_BACKEND_LIBBACKTRACE = (True, sample_handle)"
    by (simp add: handle_init_defs sample_build_def sample_handle_def)
  from bun_unwind_entry_points [OF this, of "\<lambda>_. Some sample_handle" 5] show ?thesis
    by simp
qed

theorem bun_unwind_replay_witness:
  "\<exists>m' gs. bun_unwind sample_env (\<lambda>_. Some sample_handle) 9 (replicate 300 0) (sample_rw 0)
      \<lparr>buf_data = 0, buf_size = 300\<rparr> 5 =
      Some (24 + of_nat (accounted (libbacktrace_frames sample_bt)), m') \<and>
    stream_header m' \<lparr>buf_data = 0, buf_size = 300\<rparr> 0 =
      Some (9, backend_value BUN_BACKEND_LIBBACKTRACE) \<and>
    replay_stream m' (sample_rw 0) \<lparr>buf_data = 0, buf_size = 300\<rparr> 0 zero_frame = Some gs \<and>
    map parsed_of_frame gs = map parsed_of_frame (libbacktrace_frames sample_bt)"
proof (rule bun_unwind_replay [where d = 0 and sz = 300 and ?m0.0 = "replicate 300 0" and
      ?b0.0 = "\<lparr>buf_data = 0, buf_size = 0\<rparr>" and build = sample_build and ctx = 0 and
      ?h0.0 = zero_handle and h = sample_handle])
  show "bun_handle_init sample_build 0 zero_handle BUN_BACKEND_LIBBACKTRACE = (True, sample_handle)"
    by (simp add: handle_init_defs sample_build_def sample_handle_def)
  show "env_yields sample_env BUN_BACKEND_LIBBACKTRACE (libbacktrace_frames sample_bt)"
    by (simp add: sample_env_def sample_bt_ok)
qed (simp_all add: bun_buffer_init_ok patch_def sample_bt_sizes flip: replicate_add)

lemma sample_bt_frames:
  "libbacktrace_frames sample_bt = [libbacktrace_frames sample_bt ! 0, libbacktrace_frames sample_bt ! 1]"
  using sample_bt_sizes(1) by (auto simp: list_eq_iff_nth_eq less_Suc_eq numeral_2_eq_2)

lemma sample_bt_frame_sizes:
  "frame_size (libbacktrace_frames sample_bt ! 0) = 29" "frame_size (libbacktrace_frames sample_bt ! 1) = 26"
  by (simp_all add: libbacktrace_frames_def sample_bt_def libbacktrace_frame_def zero_frame_def
      frame_size_def sym_bytes_def file_bytes_def Let_def function_name_def syminfo_callback_def
      LIBBACKTRACE_MAX_SYMBOL_NAME_def)

theorem bun_unwind_full_witness:
  "\<exists>m' gs. bun_unwind sample_env (\<lambda>_. Some sample_handle) 9 (replicate 80 0) (sample_rw 0)
      \<lparr>buf_data = 0, buf_size = 80\<rparr> 5 = Some (0, m') \<and>
    stream_header m' \<lparr>buf_data = 0, buf_size = 80\<rparr> 0 =
      Some (9, backend_value BUN_BACKEND_LIBBACKTRACE) \<and>
    replay_stream m' (sample_rw 0) \<lparr>buf_data = 0, buf_size = 80\<rparr> 0 zero_frame = Some gs \<and>
    map parsed_of_frame gs = map parsed_of_frame [libbacktrace_frames sample_bt ! 0]"
proof (rule bun_unwind_full [where d = 0 and sz = 80 and ?m0.0 = "replicate 80 0" and
      ?b0.0 = "\<lparr>buf_data = 0, buf_size = 0\<rparr>" and build = sample_build and ctx = 0 and
      ?h0.0 = zero_handle and h = sample_handle and f = "libbacktrace_frames sample_bt ! 1" and
      fs' = "[]"])
  show "bun_handle_init sample_build 0 zero_handle BUN_BACKEND_LIBBACKTRACE = (True, sample_handle)"
    by (simp add: handle_init_defs sample_build_def sample_handle_def)
  show "env_yields sample_env BUN_BACKEND_LIBBACKTRACE
      ([libbacktrace_frames sample_bt ! 0] @ libbacktrace_frames sample_bt ! 1 # [])"
    by (simp add: sample_env_def sample_bt_ok sample_bt_frames [symmetric, simplified])
qed (simp_all add: bun_buffer_init_ok patch_def sample_bt_frame_sizes [simplified] flip: replicate_add)

end
