(* ===== verification/Bun_Signal.thy ===== *)
theory Bun_Signal
  imports Bun_Handle
begin

text \<open>
  \<open>tests/helper/bun_signal.c\<close>: unwinding from a signal handler. \<open>bun_sigaction_set\<close> installs
  the handler and keeps the dispositions it replaces; the handler unwinds into the registered
  buffer unless another one is at it, and passes the signal on. The first part runs one
  handler after the other, the second interleaves handlers of several threads and handlers
  that interrupt each other.
\<close>

section \<open>Installing the handler\<close>

text \<open>
  A disposition: the handler and whether \<open>SA_SIGINFO\<close> is among its flags. \<open>so_self\<close> is the
  address of \<open>signal_handler\<close>; the two functions say for which signals \<open>sigaction(2)\<close> tells
  and sets the disposition.
\<close>

record disposition =
  sa_action :: ptr
  sa_siginfo :: bool

record signal_os =
  so_self :: ptr
  so_query :: "int \<Rightarrow> bool"
  so_install :: "int \<Rightarrow> bool"

record handler_pair =
  hp_current :: disposition
  hp_old :: disposition
  hp_has_old :: bool

text \<open>
  The static variables, with the buffer \<open>signal_data.buffer\<close> points to, and the dispositions
  the kernel holds.
\<close>

record signal_data =
  sd_handlers :: "handler_pair list"
  sd_handle :: ptr
  sd_buffer :: "bun_buffer option"
  sd_in_use :: bool
  sd_lock :: bool
  sd_dispositions :: "int \<Rightarrow> disposition"

definition signal_count :: nat where
  "signal_count = 32"

text \<open>\<open>signum\<close> is converted to \<open>size_t\<close> in the comparison.\<close>

definition signal_index :: "int \<Rightarrow> nat" where
  "signal_index signum = unat (word_of_int signum :: u64)"

definition set_signal_handler :: "signal_os \<Rightarrow> int \<Rightarrow> signal_data \<Rightarrow> bool \<times> signal_data" where
  "set_signal_handler Sys signum S =
     (if signal_count \<le> signal_index signum then (False, S)
      else let i = signal_index signum;
               hp = (sd_handlers S ! i)\<lparr>hp_current := \<lparr>sa_action = so_self Sys, sa_siginfo = True\<rparr>\<rparr>;
               hp = (if sd_handle S = NULL \<and> so_query Sys signum
                     then hp\<lparr>hp_old := sd_dispositions S signum, hp_has_old := True\<rparr> else hp);
               S = S\<lparr>sd_handlers := (sd_handlers S)[i := hp]\<rparr>
           in if \<not> so_install Sys signum then (False, S)
              else (True, S\<lparr>sd_dispositions := (sd_dispositions S)(signum := hp_current hp)\<rparr>))"

text \<open>\<open>SIGABRT\<close>, \<open>SIGBUS\<close>, \<open>SIGFPE\<close>, \<open>SIGSEGV\<close>, \<open>SIGILL\<close> and \<open>SIGSYS\<close> of Linux.\<close>

definition bun_signals :: "int list" where
  "bun_signals = [6, 7, 8, 11, 4, 31]"

fun set_signal_handlers :: "signal_os \<Rightarrow> int list \<Rightarrow> signal_data \<Rightarrow> bool \<times> signal_data" where
  "set_signal_handlers Sys [] S = (True, S)"
| "set_signal_handlers Sys (s # ss) S =
     (let (ok, S) = set_signal_handler Sys s S
      in if \<not> ok then (False, S) else set_signal_handlers Sys ss S)"

text \<open>
  \<open>None\<close>: the call waits for the lock. Only \<open>bun_sigaction_set\<close> releases it, so a call that
  finds it locked when no other is running waits for ever.
\<close>

definition bun_sigaction_set ::
    "signal_os \<Rightarrow> ptr \<Rightarrow> bun_buffer option \<Rightarrow> signal_data \<Rightarrow> (bool \<times> signal_data) option" where
  "bun_sigaction_set Sys handle buffer S =
     (if sd_lock S then None
      else let (ok, S) = set_signal_handlers Sys bun_signals (S\<lparr>sd_lock := True\<rparr>)
           in if \<not> ok then Some (False, S)
              else Some (True, S\<lparr>sd_handle := handle, sd_buffer := buffer, sd_lock := False\<rparr>))"

section \<open>The handler\<close>

text \<open>
  The calls of the old handler with their signals; the \<open>siginfo_t\<close> and the context are passed
  on unread.
\<close>

definition pass_on :: "signal_data \<Rightarrow> int \<Rightarrow> (ptr \<times> int) list" where
  "pass_on S signum =
     (let hp = sd_handlers S ! signal_index signum
      in if hp_has_old hp then if sa_siginfo (hp_old hp) then [(sa_action (hp_old hp), signum)] else []
         else [])"

text \<open>A handler that is not interrupted; \<open>m\<close> is the memory, \<open>calls\<close> the old handlers' calls.\<close>

type_synonym handled = "signal_data \<times> mem \<times> (ptr \<times> int) list"

definition signal_handler ::
    "('c, 's, 'r, 'm, 'e) bun_env \<Rightarrow> handle_heap \<Rightarrow> u32 \<Rightarrow> bun_writer \<Rightarrow> int \<Rightarrow> handled
      \<Rightarrow> handled option" where
  "signal_handler E hs tid w signum X =
     (case X of (S, m, calls) \<Rightarrow>
        if signal_count \<le> signal_index signum then Some X
        else do {
          let already_in_use = sd_in_use S;
          let S = S\<lparr>sd_in_use := True\<rparr>;
          m \<leftarrow> (if \<not> already_in_use then do {
                  b \<leftarrow> sd_buffer S;
                  (n, m) \<leftarrow> bun_unwind E hs tid m w b (sd_handle S);
                  Some m
                } else Some m);
          let S = S\<lparr>sd_in_use := False\<rparr>;
          Some (S, m, calls @ pass_on S signum)
        })"

fun signal_handlers ::
    "('c, 's, 'r, 'm, 'e) bun_env \<Rightarrow> handle_heap \<Rightarrow> u32 \<Rightarrow> bun_writer \<Rightarrow> int list \<Rightarrow> handled
      \<Rightarrow> handled option" where
  "signal_handlers E hs tid w [] X = Some X"
| "signal_handlers E hs tid w (s # ss) X = do {
     X \<leftarrow> signal_handler E hs tid w s X;
     signal_handlers E hs tid w ss X
   }"

subsection \<open>What an installation leaves\<close>

text \<open>The state of the pairs: one per number, and only a handled signal has an old handler.\<close>

definition signal_ok :: "signal_data \<Rightarrow> bool" where
  "signal_ok S \<longleftrightarrow> length (sd_handlers S) = signal_count"

lemma signal_index_small: "0 \<le> s \<Longrightarrow> s < 32 \<Longrightarrow> signal_index s = nat s"
  by (simp add: signal_index_def word_of_int_inverse unat_eq_nat_uint uint_word_of_int)

lemma bun_signals_index [simp]:
  "signal_index 6 = 6" "signal_index 7 = 7" "signal_index 8 = 8" "signal_index 11 = 11"
  "signal_index 4 = 4" "signal_index 31 = 31"
  by (simp_all add: signal_index_small)

lemma bun_signals_small: "s \<in> set bun_signals \<Longrightarrow> signal_index s < signal_count"
  by (auto simp: bun_signals_def signal_count_def)

lemma bun_signals_index_inj: "inj_on signal_index (set bun_signals)"
  by (simp add: bun_signals_def)

text \<open>
  The pair of a signal after the installation: the old disposition is taken over unless a
  handle is registered already (or the kernel does not tell it).
\<close>

definition saved_pair :: "signal_os \<Rightarrow> signal_data \<Rightarrow> int \<Rightarrow> handler_pair" where
  "saved_pair Sys S s =
     (let hp = (sd_handlers S ! signal_index s)\<lparr>hp_current := \<lparr>sa_action = so_self Sys, sa_siginfo = True\<rparr>\<rparr>
      in if sd_handle S = NULL \<and> so_query Sys s
         then hp\<lparr>hp_old := sd_dispositions S s, hp_has_old := True\<rparr> else hp)"

lemma set_signal_handler_cases:
  assumes "signal_index s < signal_count"
  shows "set_signal_handler Sys s S =
    (so_install Sys s,
     S\<lparr>sd_handlers := (sd_handlers S)[signal_index s := saved_pair Sys S s],
       sd_dispositions := if so_install Sys s
         then (sd_dispositions S)(s := \<lparr>sa_action = so_self Sys, sa_siginfo = True\<rparr>)
         else sd_dispositions S\<rparr>)"
  using assms by (simp add: set_signal_handler_def saved_pair_def Let_def)

text \<open>What setting the handlers never touches.\<close>

lemma set_signal_handlers_frame:
  assumes "set_signal_handlers Sys ss S = (ok, S')" and "\<forall>s \<in> set ss. signal_index s < signal_count"
  shows "ok = (\<forall>s \<in> set ss. so_install Sys s)" and "signal_ok S' = signal_ok S"
    and "sd_handle S' = sd_handle S" and "sd_buffer S' = sd_buffer S"
    and "sd_in_use S' = sd_in_use S" and "sd_lock S' = sd_lock S"
  using assms
  by (induction ss arbitrary: S)
    (auto simp: set_signal_handler_cases signal_ok_def split: if_splits)

lemma set_signal_handlers_pairs:
  assumes "set_signal_handlers Sys ss S = (True, S')" and "signal_ok S"
    and "\<forall>s \<in> set ss. signal_index s < signal_count"
    and "distinct ss" and "inj_on signal_index (insert t (set ss))"
  shows "sd_handlers S' ! signal_index t =
      (if t \<in> set ss then saved_pair Sys S t else sd_handlers S ! signal_index t) \<and>
    sd_dispositions S' t =
      (if t \<in> set ss then \<lparr>sa_action = so_self Sys, sa_siginfo = True\<rparr> else sd_dispositions S t)"
  using assms
proof (induction ss arbitrary: S)
  case Nil
  then show ?case by simp
next
  case (Cons s ss)
  let ?T = "snd (set_signal_handler Sys s S)"
  have s: "signal_index s < signal_count"
    using Cons.prems(3) by simp
  have run: "set_signal_handlers Sys ss ?T = (True, S')" and inst: "so_install Sys s"
    using Cons.prems(1) s by (auto simp: set_signal_handler_cases split: if_splits)
  have inj: "inj_on signal_index (insert t (set ss))"
    using Cons.prems(5) by (rule inj_on_subset) auto
  have ok: "signal_ok ?T"
    using Cons.prems(2) s by (simp add: set_signal_handler_cases signal_ok_def)
  have IH: "sd_handlers S' ! signal_index t =
      (if t \<in> set ss then saved_pair Sys ?T t else sd_handlers ?T ! signal_index t) \<and>
    sd_dispositions S' t =
      (if t \<in> set ss then \<lparr>sa_action = so_self Sys, sa_siginfo = True\<rparr> else sd_dispositions ?T t)"
    using Cons.prems(3,4) by (intro Cons.IH run ok inj) auto
  show ?case
  proof (cases "t = s")
    case True
    then have "t \<notin> set ss"
      using Cons.prems(4) by simp
    with IH True s inst Cons.prems(2) show ?thesis
      by (simp add: set_signal_handler_cases signal_ok_def)
  next
    case False
    then have ne: "signal_index t \<noteq> signal_index s"
      using Cons.prems(5) by (auto dest: inj_onD)
    then have "saved_pair Sys ?T t = saved_pair Sys S t"
      using s inst False by (simp add: saved_pair_def set_signal_handler_cases Let_def)
    with IH False ne s inst show ?thesis
      by (simp add: set_signal_handler_cases)
  qed
qed

text \<open>
  An installation answers whether every signal could be set. After a failure the lock is held
  and every further call hangs.
\<close>

lemma bun_sigaction_set_result:
  assumes "bun_sigaction_set Sys p buf S = Some (ok, S')"
  shows "ok = (\<forall>s \<in> set bun_signals. so_install Sys s)" and "sd_lock S' = (\<not> ok)"
    and "sd_in_use S' = sd_in_use S" and "signal_ok S' = signal_ok S"
    and "ok \<Longrightarrow> sd_handle S' = p \<and> sd_buffer S' = buf"
proof -
  obtain ok' S1 where run: "set_signal_handlers Sys bun_signals (S\<lparr>sd_lock := True\<rparr>) = (ok', S1)"
    by (cases "set_signal_handlers Sys bun_signals (S\<lparr>sd_lock := True\<rparr>)")
  have small: "\<forall>s \<in> set bun_signals. signal_index s < signal_count"
    using bun_signals_small by blast
  note fr = set_signal_handlers_frame [OF run small]
  have res: "ok' = ok" "S' = (if ok then S1\<lparr>sd_handle := p, sd_buffer := buf, sd_lock := False\<rparr> else S1)"
    using assms run by (auto simp: bun_sigaction_set_def split: if_splits)
  show "ok = (\<forall>s \<in> set bun_signals. so_install Sys s)" and "sd_lock S' = (\<not> ok)"
    and "sd_in_use S' = sd_in_use S" and "signal_ok S' = signal_ok S"
    and "ok \<Longrightarrow> sd_handle S' = p \<and> sd_buffer S' = buf"
    using fr res by (simp_all add: signal_ok_def)
qed

lemma bun_sigaction_set_returns:
  "\<not> sd_lock S \<Longrightarrow> \<exists>ok S'. bun_sigaction_set Sys p buf S = Some (ok, S')"
  by (cases "fst (set_signal_handlers Sys bun_signals (S\<lparr>sd_lock := True\<rparr>))")
    (auto simp: bun_sigaction_set_def case_prod_beta')

theorem bun_sigaction_set_hangs:
  assumes "bun_sigaction_set Sys p buf S = Some (False, S')"
  shows "bun_sigaction_set Sys' p' buf' S' = None"
  using bun_sigaction_set_result(2) [OF assms] by (simp add: bun_sigaction_set_def)

lemma bun_sigaction_set_pairs:
  assumes "bun_sigaction_set Sys p buf S = Some (True, S')" and "signal_ok S" and "t \<in> set bun_signals"
  shows "sd_handlers S' ! signal_index t = saved_pair Sys S t"
    and "sd_dispositions S' t = \<lparr>sa_action = so_self Sys, sa_siginfo = True\<rparr>"
proof -
  let ?S = "S\<lparr>sd_lock := True\<rparr>"
  obtain S1 where run: "set_signal_handlers Sys bun_signals ?S = (True, S1)"
    and S': "S' = S1\<lparr>sd_handle := p, sd_buffer := buf, sd_lock := False\<rparr>"
    using assms(1) by (auto simp: bun_sigaction_set_def split: if_splits prod.splits)
  have "signal_ok ?S" "\<forall>s \<in> set bun_signals. signal_index s < signal_count" "distinct bun_signals"
    "inj_on signal_index (insert t (set bun_signals))"
    using assms(2,3) bun_signals_small bun_signals_index_inj
    by (auto simp: signal_ok_def insert_absorb bun_signals_def)
  from set_signal_handlers_pairs [OF run this] assms(3) S'
  show "sd_handlers S' ! signal_index t = saved_pair Sys S t"
    and "sd_dispositions S' t = \<lparr>sa_action = so_self Sys, sa_siginfo = True\<rparr>"
    by (simp_all add: saved_pair_def Let_def)
qed

subsection \<open>Signals one after the other\<close>

lemma signal_in_use_again: "\<not> sd_in_use S \<Longrightarrow> S\<lparr>sd_in_use := False\<rparr> = S"
  by (cases S) simp

text \<open>A handler that is not interrupted: the recording can be repeated on what it leaves.\<close>

lemma signal_handler_records:
  assumes h: "bun_handle_init build ctx h0 kind = (True, h)" "hs p = Some h" "p \<noteq> NULL"
    and y: "env_yields E kind fs"
    and S: "sd_handle S = p" "sd_buffer S = Some b" "\<not> sd_in_use S" "s \<in> set bun_signals"
    and ok: "buffer_ok m b"
    and owner: "load64 m (buf_data b + off_handle) = Some ow" "ow = NULL \<or> ow = p"
    and fits: "40 + total_size fs \<le> unat (buf_size b)" and small: "24 + accounted fs < 2 ^ 32"
    and short: "length fs \<le> 13"
  shows "\<exists>m' gs. signal_handler E hs tid w s (S, m, calls) = Some (S, m', calls @ pass_on S s) \<and>
    buffer_ok m' b \<and> load64 m' (buf_data b + off_handle) = Some p \<and>
    stream_header m' b p' = Some (tid, backend_value kind) \<and>
    replay_stream m' r b p' g = Some gs \<and> map parsed_of_frame gs = map parsed_of_frame fs"
proof -
  obtain arch t where rec: "bun_unwind E hs tid m w b p = backend_record hs tid m w b arch p kind t fs"
    "(case t of None \<Rightarrow> tid | Some t' \<Rightarrow> t') = tid" and fok: "\<forall>f \<in> set fs. frame_ok f"
    using bun_unwind_records [where hs = hs and p = p, OF h(1,2) y] by blast
  have fl: "flags h = 0"
    by (rule handle_init_flags [OF h(1)])
  have all: "readable (24 + accounted fs) 24 fs = fs"
    using short by (intro readable_short [where d = 0]) auto
  from backend_record_again [where hs = hs and handle = p, OF ok h(3,2) fl owner fok fits small,
      of tid w arch kind t p' r g]
  obtain m' gs where m': "bun_unwind E hs tid m w b p = Some (24 + of_nat (accounted fs), m')"
    and rest: "buffer_ok m' b" "load64 m' (buf_data b + off_handle) = Some p"
      "stream_header m' b p' = Some (tid, backend_value kind)"
      "replay_stream m' r b p' g = Some gs" "map parsed_of_frame gs = map parsed_of_frame fs"
    unfolding rec backend_value_short [OF y] all by (elim exE conjE)
  have "signal_handler E hs tid w s (S, m, calls) = Some (S, m', calls @ pass_on S s)"
    using S m' bun_signals_small [OF S(4)]
    by (simp add: signal_handler_def Let_def signal_in_use_again)
  with rest show ?thesis by blast
qed

text \<open>
  The handlers are installed before the handle and the buffer are registered: a signal that
  comes in between unwinds with \<open>NULL\<close>.
\<close>

lemma signal_handler_unregistered:
  assumes "sd_buffer S = None" and "\<not> sd_in_use S" and "s \<in> set bun_signals"
  shows "signal_handler E hs tid w s (S, m, calls) = None"
  using assms bun_signals_small [of s] by (simp add: signal_handler_def Let_def)

lemma signal_handlers_record:
  assumes h: "bun_handle_init build ctx h0 kind = (True, h)" "hs p = Some h" "p \<noteq> NULL"
    and y: "env_yields E kind fs"
    and S: "sd_handle S = p" "sd_buffer S = Some b" "\<not> sd_in_use S"
    and fits: "40 + total_size fs \<le> unat (buf_size b)" and small: "24 + accounted fs < 2 ^ 32"
    and short: "length fs \<le> 13"
    and ok: "buffer_ok m b"
    and owner: "load64 m (buf_data b + off_handle) = Some ow" "ow = NULL \<or> ow = p"
    and sigs: "sigs \<noteq> []" "set sigs \<subseteq> set bun_signals"
  shows "\<exists>m' gs. signal_handlers E hs tid w sigs (S, m, calls) =
      Some (S, m', calls @ concat (map (pass_on S) sigs)) \<and>
    stream_header m' b p' = Some (tid, backend_value kind) \<and>
    replay_stream m' r b p' g = Some gs \<and> map parsed_of_frame gs = map parsed_of_frame fs"
  using ok owner sigs
proof (induction sigs arbitrary: m ow calls)
  case Nil
  then show ?case by simp
next
  case (Cons s sigs)
  have s: "s \<in> set bun_signals"
    using Cons.prems(5) by simp
  obtain m1 gs where step: "signal_handler E hs tid w s (S, m, calls) = Some (S, m1, calls @ pass_on S s)"
    and m1: "buffer_ok m1 b" "load64 m1 (buf_data b + off_handle) = Some p"
    and client: "stream_header m1 b p' = Some (tid, backend_value kind)"
      "replay_stream m1 r b p' g = Some gs" "map parsed_of_frame gs = map parsed_of_frame fs"
    using signal_handler_records [where hs = hs, OF h y S s Cons.prems(1-3) fits small short,
        of tid w calls p' r g] by blast
  show ?case
  proof (cases "sigs = []")
    case True
    with step client show ?thesis by auto
  next
    case False
    with Cons.IH [OF m1 _ False, of "calls @ pass_on S s"] Cons.prems(5) step show ?thesis by simp
  qed
qed

text \<open>What the handler passes on after the first installation.\<close>

definition previous_handler :: "signal_data \<Rightarrow> int \<Rightarrow> (ptr \<times> int) list" where
  "previous_handler S s =
     (let d = sd_dispositions S s in if sa_siginfo d then [(sa_action d, s)] else [])"

text \<open>
  C13: unwinding in a signal handler. After the first successful installation with a handle of
  any backend the six signals have the handler. After any number of such signals, each handled
  before the next one, and for a trace of at most 13 frames that fits the registered buffer,
  the buffer holds a stream that names the thread and the backend and from which a reader gets
  exactly the frames of the library; every signal was passed on to the handler the client had
  for it with \<open>SA_SIGINFO\<close>, once and in order.
\<close>

theorem bun_signals_replay:
  assumes "bun_sigaction_set Sys p (Some b) S0 = Some (True, S)"
    and "signal_ok S0" and "\<not> sd_in_use S0" and "sd_handle S0 = NULL"
    and "\<forall>s \<in> set bun_signals. so_query Sys s"
    and "bun_handle_init build ctx h0 kind = (True, h)" and "hs p = Some h" and "p \<noteq> NULL"
    and "env_yields E kind fs"
    and "buffer_ok m b" and "load64 m (buf_data b + off_handle) = Some ow" and "ow = NULL \<or> ow = p"
    and "40 + total_size fs \<le> unat (buf_size b)" and "24 + accounted fs < 2 ^ 32"
    and "length fs \<le> 13"
    and "sigs \<noteq> []" and "set sigs \<subseteq> set bun_signals"
  shows "(\<forall>s \<in> set bun_signals. sd_dispositions S s = \<lparr>sa_action = so_self Sys, sa_siginfo = True\<rparr>) \<and>
    (\<exists>m' gs. signal_handlers E hs tid w sigs (S, m, calls) =
        Some (S, m', calls @ concat (map (previous_handler S0) sigs)) \<and>
      stream_header m' b p' = Some (tid, backend_value kind) \<and>
      replay_stream m' r b p' g = Some gs \<and> map parsed_of_frame gs = map parsed_of_frame fs)"
proof
  note pairs = bun_sigaction_set_pairs [OF assms(1,2)]
  show "\<forall>s \<in> set bun_signals. sd_dispositions S s = \<lparr>sa_action = so_self Sys, sa_siginfo = True\<rparr>"
    using pairs(2) by blast
  have S: "sd_handle S = p" "sd_buffer S = Some b" "\<not> sd_in_use S"
    using bun_sigaction_set_result [OF assms(1)] assms(3) by simp_all
  have "pass_on S s = previous_handler S0 s" if "s \<in> set bun_signals" for s
    using pairs(1) [OF that] assms(4,5) that
    by (simp add: pass_on_def previous_handler_def saved_pair_def Let_def)
  then have "map (pass_on S) sigs = map (previous_handler S0) sigs"
    using assms(17) by auto
  with signal_handlers_record [where hs = hs, OF assms(6-9) S assms(13-15,10-12,16,17),
      of tid w calls p' r g]
  show "\<exists>m' gs. signal_handlers E hs tid w sigs (S, m, calls) =
        Some (S, m', calls @ concat (map (previous_handler S0) sigs)) \<and>
      stream_header m' b p' = Some (tid, backend_value kind) \<and>
      replay_stream m' r b p' g = Some gs \<and> map parsed_of_frame gs = map parsed_of_frame fs"
    by simp
qed

section \<open>Handlers that overlap\<close>

text \<open>
  Where an activation of the handler stands: before the test of the flag, inside
  \<open>bun_unwind\<close> or past the refusal, and after the flag is cleared. Each thread has a stack of
  activations, the one that runs first; a signal is blocked while its own handler runs.
\<close>

datatype handler_phase = Entered | Unwinding | Refused | Cleared

datatype handler_action = Deliver | Acquire | Refuse | Clear | Clear_refused | Leave

record handler_state =
  hs_flag :: bool
  hs_stacks :: "nat \<Rightarrow> (int \<times> handler_phase) list"

definition set_stack :: "nat \<Rightarrow> (int \<times> handler_phase) list \<Rightarrow> handler_state \<Rightarrow> handler_state" where
  "set_stack t st X = X\<lparr>hs_stacks := (hs_stacks X)(t := st)\<rparr>"

definition handlers_idle :: handler_state where
  "handlers_idle = \<lparr>hs_flag = False, hs_stacks = (\<lambda>_. [])\<rparr>"

inductive handler_step :: "handler_state \<Rightarrow> handler_action \<Rightarrow> handler_state \<Rightarrow> bool" where
  deliver: "s \<in> set bun_signals \<Longrightarrow> s \<notin> fst ` set (hs_stacks X t) \<Longrightarrow>
    handler_step X Deliver (set_stack t ((s, Entered) # hs_stacks X t) X)"
| acquire: "hs_stacks X t = (s, Entered) # st \<Longrightarrow> \<not> hs_flag X \<Longrightarrow>
    handler_step X Acquire (set_stack t ((s, Unwinding) # st) (X\<lparr>hs_flag := True\<rparr>))"
| refuse: "hs_stacks X t = (s, Entered) # st \<Longrightarrow> hs_flag X \<Longrightarrow>
    handler_step X Refuse (set_stack t ((s, Refused) # st) (X\<lparr>hs_flag := True\<rparr>))"
| clear: "hs_stacks X t = (s, Unwinding) # st \<Longrightarrow>
    handler_step X Clear (set_stack t ((s, Cleared) # st) (X\<lparr>hs_flag := False\<rparr>))"
| clear_refused: "hs_stacks X t = (s, Refused) # st \<Longrightarrow>
    handler_step X Clear_refused (set_stack t ((s, Cleared) # st) (X\<lparr>hs_flag := False\<rparr>))"
| leave: "hs_stacks X t = (s, Cleared) # st \<Longrightarrow> handler_step X Leave (set_stack t st X)"

inductive_cases handler_stepE: "handler_step X a Y"

inductive handler_run :: "handler_action list \<Rightarrow> handler_state \<Rightarrow> bool" where
  start: "handler_run [] handlers_idle"
| step: "handler_run as X \<Longrightarrow> handler_step X a Y \<Longrightarrow> handler_run (as @ [a]) Y"

text \<open>The activations inside \<open>bun_unwind\<close>.\<close>

definition unwinding_in :: "handler_state \<Rightarrow> nat \<Rightarrow> int \<Rightarrow> bool" where
  "unwinding_in X t s \<longleftrightarrow> (s, Unwinding) \<in> set (hs_stacks X t)"

definition guarded :: "handler_state \<Rightarrow> bool" where
  "guarded X \<longleftrightarrow>
     (\<forall>t. distinct (map fst (hs_stacks X t))) \<and>
     (\<forall>t s t' s'. unwinding_in X t s \<longrightarrow> unwinding_in X t' s' \<longrightarrow> t = t' \<and> s = s') \<and>
     (\<forall>t s. unwinding_in X t s \<longrightarrow> hs_flag X)"

lemma set_stack_simps [simp]:
  "hs_flag (set_stack t st X) = hs_flag X"
  "hs_stacks (set_stack t st X) t' = (if t' = t then st else hs_stacks X t')"
  by (simp_all add: set_stack_def)

lemma guarded_idle: "guarded handlers_idle"
  by (simp add: guarded_def unwinding_in_def handlers_idle_def)

lemma unwinding_set_stack:
  "unwinding_in (set_stack t st X) t' s =
    (if t' = t then (s, Unwinding) \<in> set st else unwinding_in X t' s)"
  by (simp add: unwinding_in_def)

lemma unwinding_flag [simp]: "unwinding_in (X\<lparr>hs_flag := f\<rparr>) t s = unwinding_in X t s"
  by (simp add: unwinding_in_def)

text \<open>A step that puts no activation into \<open>bun_unwind\<close> and leaves a set flag set.\<close>

lemma guarded_set_stack:
  assumes "guarded X" and "distinct (map fst st)" and "hs_flag X \<longrightarrow> f"
    and "\<And>s. (s, Unwinding) \<in> set st \<Longrightarrow> unwinding_in X t s"
  shows "guarded (set_stack t st (X\<lparr>hs_flag := f\<rparr>))"
proof -
  have sub: "unwinding_in (set_stack t st (X\<lparr>hs_flag := f\<rparr>)) t' s \<Longrightarrow> unwinding_in X t' s" for t' s
    using assms(4) by (simp add: unwinding_set_stack split: if_splits)
  have X: "\<And>t. distinct (map fst (hs_stacks X t))" "\<And>t s. unwinding_in X t s \<Longrightarrow> hs_flag X"
    "\<And>t s t' s'. unwinding_in X t s \<Longrightarrow> unwinding_in X t' s' \<Longrightarrow> t = t' \<and> s = s'"
    using assms(1) unfolding guarded_def by blast+
  show ?thesis
    unfolding guarded_def
  proof (intro conjI allI impI)
    show "distinct (map fst (hs_stacks (set_stack t st (X\<lparr>hs_flag := f\<rparr>)) t'))" for t'
      using X(1) assms(2) by simp
  qed (use X(2,3) sub assms(3) in \<open>simp_all, blast+\<close>)
qed

lemma guarded_top:
  assumes "guarded X" and "hs_stacks X t = (s, ph) # st"
  shows "distinct (map fst ((s, ph') # st))" and "distinct (map fst st)"
    and "(s', Unwinding) \<in> set st \<Longrightarrow> unwinding_in X t s'"
proof -
  have "distinct (map fst (hs_stacks X t))"
    using assms(1) by (simp add: guarded_def)
  then show "distinct (map fst ((s, ph') # st))" and "distinct (map fst st)"
    using assms(2) by simp_all
  show "(s', Unwinding) \<in> set st \<Longrightarrow> unwinding_in X t s'"
    using assms(2) by (simp add: unwinding_in_def)
qed

text \<open>With the flag clear, or when the one activation comes out, nobody else is inside.\<close>

lemma guarded_alone:
  assumes "guarded X" and "\<And>t' s'. \<not> unwinding_in Y t' s' \<or> (t' = t \<and> s' = s \<and> hs_flag Y)"
    and "\<And>t'. distinct (map fst (hs_stacks Y t'))"
  shows "guarded Y"
  unfolding guarded_def using assms(2,3) by blast

text \<open>Only the clearing by a refused activation lets a second one in.\<close>

lemma guarded_step:
  assumes "handler_step X a Y" and X: "guarded X" and "a \<noteq> Clear_refused"
  shows "guarded Y"
  using assms(1)
proof cases
  case (deliver s t)
  have "distinct (map fst ((s, Entered) # hs_stacks X t))"
    using X deliver by (simp add: guarded_def)
  from guarded_set_stack [OF X this, of "hs_flag X" t] deliver show ?thesis
    by (simp add: unwinding_in_def)
next
  case (acquire t s st)
  have none: "\<not> unwinding_in X t' s'" for t' s'
    using X acquire by (auto simp: guarded_def)
  show ?thesis
  proof (rule guarded_alone [OF X])
    show "\<not> unwinding_in Y t' s' \<or> (t' = t \<and> s' = s \<and> hs_flag Y)" for t' s'
      using acquire none guarded_top(3) [OF X acquire(3)] by (auto simp: unwinding_set_stack)
    show "distinct (map fst (hs_stacks Y t'))" for t'
      using X acquire guarded_top(1) [OF X acquire(3)] by (auto simp: guarded_def)
  qed
next
  case (refuse t s st)
  with guarded_set_stack [OF X guarded_top(1) [OF X refuse(3)], of True Refused t]
    guarded_top(3) [OF X refuse(3)]
  show ?thesis by auto
next
  case (clear t s st)
  have "unwinding_in X t s"
    using clear(3) by (simp add: unwinding_in_def)
  then have only: "unwinding_in X t' s' \<Longrightarrow> t' = t \<and> s' = s" for t' s'
    using X unfolding guarded_def by blast
  have out: "(s', Unwinding) \<notin> set st" for s'
  proof
    assume in_st: "(s', Unwinding) \<in> set st"
    then have "s' = s"
      using only guarded_top(3) [OF X clear(3)] by blast
    with in_st guarded_top(1) [OF X clear(3), of Cleared] show False
      by (force simp: image_iff)
  qed
  show ?thesis
  proof (rule guarded_alone [OF X])
    show "\<not> unwinding_in Y t' s' \<or> (t' = t \<and> s' = s \<and> hs_flag Y)" for t' s'
      using clear only out by (auto simp: unwinding_set_stack)
    show "distinct (map fst (hs_stacks Y t'))" for t'
      using X clear guarded_top(1) [OF X clear(3)] by (auto simp: guarded_def)
  qed
next
  case (leave t s st)
  with guarded_set_stack [OF X guarded_top(2) [OF X leave(3)], of "hs_flag X" t]
    guarded_top(3) [OF X leave(3)]
  show ?thesis by simp
qed (use assms(3) in simp)

lemma handler_run_guarded: "handler_run as X \<Longrightarrow> Clear_refused \<notin> set as \<Longrightarrow> guarded X"
  by (induction rule: handler_run.induct) (auto simp: guarded_idle intro: guarded_step)

text \<open>
  C20: in every interleaving of handlers in any number of threads, interrupting each other in
  any way, at most one activation is inside \<open>bun_unwind\<close> as long as no refused activation has
  come to the line that clears the flag.
\<close>

theorem handlers_exclude:
  assumes "handler_run as X" and "Clear_refused \<notin> set as"
    and "unwinding_in X t s" and "unwinding_in X t' s'"
  shows "t = t' \<and> s = s'"
  using handler_run_guarded [OF assms(1,2)] assms(3,4) by (simp add: guarded_def)

text \<open>
  The refused activation clears the flag it does not own: any number of threads can be inside
  \<open>bun_unwind\<close> with the one buffer at the same time.
\<close>

lemma handler_readmits:
  assumes run: "handler_run as X" and idle: "hs_stacks X t = []"
  shows "\<exists>as' X'. handler_run as' X' \<and> \<not> hs_flag X' \<and> hs_stacks X' = hs_stacks X"
proof (cases "hs_flag X")
  case False
  with run show ?thesis by blast
next
  case True
  define X1 where "X1 = set_stack t [(6, Entered)] X"
  define X2 where "X2 = set_stack t [(6, Refused)] (X1\<lparr>hs_flag := True\<rparr>)"
  define X3 where "X3 = set_stack t [(6, Cleared)] (X2\<lparr>hs_flag := False\<rparr>)"
  have "handler_step X Deliver X1"
    using idle handler_step.deliver [of 6 X t] by (simp add: X1_def bun_signals_def)
  moreover have "handler_step X1 Refuse X2"
    using True handler_step.refuse [of X1 t 6 "[]"] by (simp add: X1_def X2_def)
  moreover have "handler_step X2 Clear_refused X3"
    using handler_step.clear_refused [of X2 t 6 "[]"] by (simp add: X2_def X3_def)
  moreover have "handler_step X3 Leave (set_stack t [] X3)"
    using handler_step.leave [of X3 t 6 "[]"] by (simp add: X3_def)
  ultimately have "handler_run ((((as @ [Deliver]) @ [Refuse]) @ [Clear_refused]) @ [Leave]) (set_stack t [] X3)"
    using run by (blast intro: handler_run.step)
  moreover have "hs_stacks (set_stack t [] X3) = hs_stacks X" "\<not> hs_flag (set_stack t [] X3)"
    using idle by (auto simp: X1_def X2_def X3_def)
  ultimately show ?thesis by blast
qed

lemma handlers_pile_up:
  "\<exists>as X. handler_run as X \<and> hs_stacks X = (\<lambda>t. if t < n then [(6, Unwinding)] else [])"
proof (induction n)
  case 0
  have "hs_stacks handlers_idle = (\<lambda>t. [])"
    by (simp add: handlers_idle_def)
  then show ?case
    using handler_run.start by auto
next
  case (Suc n)
  then obtain as X where run: "handler_run as X"
    and st: "hs_stacks X = (\<lambda>t. if t < n then [(6, Unwinding)] else [])"
    by blast
  then have "hs_stacks X n = []"
    by simp
  from handler_readmits [OF run this] obtain as Y where Y: "handler_run as Y" "\<not> hs_flag Y"
    "hs_stacks Y = hs_stacks X"
    by blast
  define Y1 where "Y1 = set_stack n [(6, Entered)] Y"
  define Y2 where "Y2 = set_stack n [(6, Unwinding)] (Y1\<lparr>hs_flag := True\<rparr>)"
  have "handler_step Y Deliver Y1"
    using Y(3) st handler_step.deliver [of 6 Y n] by (simp add: Y1_def bun_signals_def)
  moreover have "handler_step Y1 Acquire Y2"
    using Y(2) handler_step.acquire [of Y1 n 6 "[]"] by (simp add: Y1_def Y2_def)
  ultimately have "handler_run ((as @ [Deliver]) @ [Acquire]) Y2"
    using Y(1) by (blast intro: handler_run.step)
  moreover have "hs_stacks Y2 = (\<lambda>t. if t < Suc n then [(6, Unwinding)] else [])"
    using Y(3) st by (intro ext) (auto simp: Y1_def Y2_def less_Suc_eq)
  ultimately show ?case by blast
qed

theorem handlers_overlap: "\<exists>as X. handler_run as X \<and> (\<forall>t < n. unwinding_in X t 6)"
proof -
  obtain as X where "handler_run as X" "hs_stacks X = (\<lambda>t. if t < n then [(6, Unwinding)] else [])"
    using handlers_pile_up [of n] by blast
  then show ?thesis
    by (auto simp: unwinding_in_def intro!: exI [of _ as] exI [of _ X])
qed

section \<open>Concrete instances\<close>

text \<open>A process with a \<open>SA_SIGINFO\<close> handler for \<open>SIGABRT\<close> and the default for the others.\<close>

definition sample_signal_os :: signal_os where
  "sample_signal_os = \<lparr>so_self = 77, so_query = (\<lambda>_. True), so_install = (\<lambda>_. True)\<rparr>"

definition sample_signals :: signal_data where
  "sample_signals =
     \<lparr>sd_handlers = replicate 32 \<lparr>hp_current = \<lparr>sa_action = 0, sa_siginfo = False\<rparr>,
        hp_old = \<lparr>sa_action = 0, sa_siginfo = False\<rparr>, hp_has_old = False\<rparr>,
      sd_handle = NULL, sd_buffer = None, sd_in_use = False, sd_lock = False,
      sd_dispositions = (\<lambda>s. if s = 6 then \<lparr>sa_action = 99, sa_siginfo = True\<rparr>
        else \<lparr>sa_action = 0, sa_siginfo = False\<rparr>)\<rparr>"

lemma sample_signals_unlocked: "\<not> sd_lock sample_signals"
  by (simp add: sample_signals_def)

lemma sample_signal_buffer:
  "buffer_ok (replicate 300 0) \<lparr>buf_data = 0, buf_size = 300\<rparr>"
  "load64 (replicate 300 0) (buf_data \<lparr>buf_data = 0, buf_size = 300\<rparr> + off_handle) = Some 0"
proof -
  show "buffer_ok (replicate 300 0) \<lparr>buf_data = 0, buf_size = 300\<rparr>"
    by (simp add: buffer_ok_def layout_defs)
  have "at_mem (replicate 300 0) 8 (enc64 0)"
    by (simp add: at_mem_def enc64_def le_encode_zero)
  then show "load64 (replicate 300 0) (buf_data \<lparr>buf_data = 0, buf_size = 300\<rparr> + off_handle) = Some 0"
    by (simp add: off_handle_def load64_at)
qed

theorem bun_signals_replay_witness:
  "\<exists>S. bun_sigaction_set sample_signal_os 5 (Some \<lparr>buf_data = 0, buf_size = 300\<rparr>) sample_signals = Some (True, S) \<and>
    (\<forall>s \<in> set bun_signals. sd_dispositions S s = \<lparr>sa_action = so_self sample_signal_os, sa_siginfo = True\<rparr>) \<and>
    (\<exists>m' gs. signal_handlers sample_env (\<lambda>_. Some sample_handle) 9 (sample_rw 0) [6, 11, 6]
        (S, replicate 300 0, []) =
        Some (S, m', [] @ concat (map (previous_handler sample_signals) [6, 11, 6])) \<and>
      stream_header m' \<lparr>buf_data = 0, buf_size = 300\<rparr> 0 =
        Some (9, backend_value BUN_BACKEND_LIBBACKTRACE) \<and>
      replay_stream m' (sample_rw 0) \<lparr>buf_data = 0, buf_size = 300\<rparr> 0 zero_frame = Some gs \<and>
      map parsed_of_frame gs = map parsed_of_frame (libbacktrace_frames sample_bt))"
proof -
  let ?b = "\<lparr>buf_data = 0, buf_size = 300\<rparr>"
  obtain ok S where set: "bun_sigaction_set sample_signal_os 5 (Some ?b) sample_signals = Some (ok, S)"
    using bun_sigaction_set_returns [OF sample_signals_unlocked] by blast
  have ok: "ok"
    using bun_sigaction_set_result(1) [OF set] by (simp add: sample_signal_os_def)
  have handle: "bun_handle_init sample_build 0 zero_handle BUN_BACKEND_LIBBACKTRACE = (True, sample_handle)"
    by (simp add: handle_init_defs sample_build_def sample_handle_def)
  have lib: "env_yields sample_env BUN_BACKEND_LIBBACKTRACE (libbacktrace_frames sample_bt)"
    by (simp add: sample_env_def sample_bt_ok)
  have S0: "signal_ok sample_signals" "\<not> sd_in_use sample_signals" "sd_handle sample_signals = NULL"
    by (simp_all add: sample_signals_def signal_ok_def signal_count_def)
  show ?thesis
  proof (intro exI [of _ S], rule conjI)
    show set: "bun_sigaction_set sample_signal_os 5 (Some ?b) sample_signals = Some (True, S)"
      using set ok by simp
    show "(\<forall>s \<in> set bun_signals. sd_dispositions S s = \<lparr>sa_action = so_self sample_signal_os, sa_siginfo = True\<rparr>) \<and>
      (\<exists>m' gs. signal_handlers sample_env (\<lambda>_. Some sample_handle) 9 (sample_rw 0) [6, 11, 6]
          (S, replicate 300 0, []) =
          Some (S, m', [] @ concat (map (previous_handler sample_signals) [6, 11, 6])) \<and>
        stream_header m' ?b 0 = Some (9, backend_value BUN_BACKEND_LIBBACKTRACE) \<and>
        replay_stream m' (sample_rw 0) ?b 0 zero_frame = Some gs \<and>
        map parsed_of_frame gs = map parsed_of_frame (libbacktrace_frames sample_bt))"
      by (rule bun_signals_replay [OF set S0 _ handle _ _ lib sample_signal_buffer])
        (simp_all add: sample_signal_os_def sample_bt_sizes bun_signals_def)
  qed
qed

theorem handlers_exclude_witness:
  "\<exists>X. handler_run [Deliver, Acquire] X \<and> unwinding_in X 0 6 \<and> (0 :: nat) = 0 \<and> (6 :: int) = 6"
proof -
  define X1 where "X1 = set_stack 0 [(6, Entered)] handlers_idle"
  define X2 where "X2 = set_stack 0 [(6, Unwinding)] (X1\<lparr>hs_flag := True\<rparr>)"
  have "handler_step handlers_idle Deliver X1"
    using handler_step.deliver [of 6 handlers_idle 0] by (simp add: X1_def bun_signals_def handlers_idle_def)
  moreover have "handler_step X1 Acquire X2"
    using handler_step.acquire [of X1 0 6 "[]"] by (simp add: X1_def X2_def handlers_idle_def)
  ultimately have run: "handler_run [Deliver, Acquire] X2"
    using handler_run.step [OF handler_run.step [OF handler_run.start]] by fastforce
  have u: "unwinding_in X2 0 6"
    by (simp add: X2_def unwinding_in_def)
  have "Clear_refused \<notin> set [Deliver, Acquire]"
    by simp
  from handlers_exclude [OF run this u u] run u show ?thesis by blast
qed

end
