(* ===== verification/Bcd_Config.thy ===== *)
theory Bcd_Config
  imports Prelude "HOL-Library.Char_ord"
begin

text \<open>
  The configuration of bcd (\<open>external/bcd\<close>, the out-of-process tracer libbun ships): the
  public structure of \<open>bcd.h\<close>, its defaults and the copy into the library's own
  configuration. The public structure, \<open>struct bcd_config_v1\<close> and \<open>struct
  bcd_config_internal\<close> have the same members.
\<close>

text \<open>A string literal as the bytes of a C string.\<close>

definition cstr_of :: "string \<Rightarrow> cstr" where
  "cstr_of s = map of_char s"

datatype bcd_ipc = BCD_IPC_UNIX_SOCKET

record bcd_config_v1 =
  cf_version :: u32
  cf_flags :: u64
  cf_oom_adjust :: u32
  cf_handler :: ptr
  cf_timeout :: u32
  cf_umask :: u32
  cf_chown_user :: "cstr option"
  cf_chown_group :: "cstr option"
  cf_suid_user :: "cstr option"
  cf_suid_group :: "cstr option"
  cf_invoke_path :: "cstr option"
  cf_invoke_kp :: "cstr option"
  cf_invoke_separator :: byte
  cf_invoke_ks :: byte
  cf_invoke_tp :: "cstr option"
  cf_invoke_output_file :: "cstr option"
  cf_ipc_mechanism :: bcd_ipc
  cf_ipc_us_path :: "cstr option"
  cf_affinity_target_cpu :: u32
  cf_monitor_init :: ptr
  cf_request_handler :: ptr

type_synonym bcd_config = bcd_config_v1
type_synonym bcd_config_internal = bcd_config_v1

text \<open>\<open>default_handler\<close> is the address of \<open>bcd_error_handler_default\<close>.\<close>

definition bcd_config_init_v1 :: "ptr \<Rightarrow> bcd_config_v1" where
  "bcd_config_init_v1 default_handler =
     \<lparr>cf_version = 1, cf_flags = 0, cf_oom_adjust = 1, cf_handler = default_handler, cf_timeout = 30,
      cf_umask = 127, cf_chown_user = None, cf_chown_group = None, cf_suid_user = None, cf_suid_group = None,
      cf_invoke_path = Some (cstr_of ''/opt/backtrace/bin/ptrace''),
      cf_invoke_kp = Some (cstr_of ''--kv=''), cf_invoke_separator = of_char (CHR '',''),
      cf_invoke_ks = of_char (CHR '':''), cf_invoke_tp = Some (cstr_of ''--thread=''),
      cf_invoke_output_file = None, cf_ipc_mechanism = BCD_IPC_UNIX_SOCKET, cf_ipc_us_path = None,
      cf_affinity_target_cpu = -1, cf_monitor_init = NULL, cf_request_handler = NULL\<rparr>"

text \<open>The structure before and after, and the return value.\<close>

definition bcd_config_init_internal ::
    "ptr \<Rightarrow> bcd_config \<Rightarrow> u32 \<Rightarrow> int \<times> bcd_config" where
  "bcd_config_init_internal default_handler cf caller_version =
     (if caller_version = 1 then (0, bcd_config_init_v1 default_handler) else (-1, cf))"

text \<open>Member by member, as the code does it; \<open>g\<close> is the global \<open>bcd_config\<close>.\<close>

definition bcd_config_assign_from_v1 :: "bcd_config_internal \<Rightarrow> bcd_config_v1 \<Rightarrow> int \<times> bcd_config_internal" where
  "bcd_config_assign_from_v1 g cf =
     (0, g\<lparr>cf_version := cf_version cf, cf_flags := cf_flags cf, cf_oom_adjust := cf_oom_adjust cf,
           cf_handler := cf_handler cf, cf_timeout := cf_timeout cf, cf_umask := cf_umask cf,
           cf_chown_user := cf_chown_user cf, cf_chown_group := cf_chown_group cf,
           cf_suid_user := cf_suid_user cf, cf_suid_group := cf_suid_group cf,
           cf_invoke_path := cf_invoke_path cf, cf_invoke_kp := cf_invoke_kp cf,
           cf_invoke_separator := cf_invoke_separator cf, cf_invoke_ks := cf_invoke_ks cf,
           cf_invoke_tp := cf_invoke_tp cf, cf_invoke_output_file := cf_invoke_output_file cf,
           cf_ipc_mechanism := cf_ipc_mechanism cf, cf_ipc_us_path := cf_ipc_us_path cf,
           cf_affinity_target_cpu := cf_affinity_target_cpu cf, cf_monitor_init := cf_monitor_init cf,
           cf_request_handler := cf_request_handler cf\<rparr>)"

definition bcd_config_assign :: "bcd_config_internal \<Rightarrow> bcd_config \<Rightarrow> int \<times> bcd_config_internal" where
  "bcd_config_assign g cf =
     (if cf_version cf = 1 then bcd_config_assign_from_v1 g cf else (-1, g))"

text \<open>
  Preloading: the environment overrides the defaults. \<open>getenv\<close> and \<open>strcmp\<close> are the C
  library's; of \<open>strcmp\<close> the standard fixes only the sign.
\<close>

definition string_from_env ::
    "(string \<Rightarrow> cstr option) \<Rightarrow> string \<Rightarrow> cstr option \<Rightarrow> cstr option" where
  "string_from_env getenv variable out =
     (case getenv variable of Some v \<Rightarrow> if v \<noteq> [] then Some v else out | None \<Rightarrow> out)"

definition char_from_env :: "(string \<Rightarrow> cstr option) \<Rightarrow> string \<Rightarrow> byte \<Rightarrow> byte" where
  "char_from_env getenv variable out =
     (case getenv variable of Some v \<Rightarrow> if v \<noteq> [] then hd v else out | None \<Rightarrow> out)"

definition bcd_config_from_env ::
    "(string \<Rightarrow> cstr option) \<Rightarrow> (cstr \<Rightarrow> cstr \<Rightarrow> int) \<Rightarrow> bcd_config \<Rightarrow> bcd_config" where
  "bcd_config_from_env getenv strcmp cf =
     (let cf = (case getenv ''BCD_OOM_ADJUST'' of
                  Some v \<Rightarrow> if strcmp v (cstr_of ''1'') = 1 then cf\<lparr>cf_oom_adjust := 1\<rparr> else cf
                | None \<Rightarrow> cf)
      in cf\<lparr>cf_invoke_path := string_from_env getenv ''BCD_INVOKE_PATH'' (cf_invoke_path cf),
            cf_invoke_kp := string_from_env getenv ''BCD_INVOKE_KP'' (cf_invoke_kp cf),
            cf_invoke_separator :=
              char_from_env getenv ''BCD_INVOKE_SEPARATOR'' (cf_invoke_separator cf),
            cf_invoke_ks := char_from_env getenv ''BCD_INVOKE_KS'' (cf_invoke_ks cf),
            cf_invoke_tp := string_from_env getenv ''BCD_INVOKE_TP'' (cf_invoke_tp cf),
            cf_invoke_output_file :=
              string_from_env getenv ''BCD_INVOKE_OUTPUT_FILE'' (cf_invoke_output_file cf),
            cf_ipc_us_path := string_from_env getenv ''BCD_IPC_US_PATH'' (cf_ipc_us_path cf)\<rparr>)"

lemma bcd_config_assign_from_v1_copies: "bcd_config_assign_from_v1 g cf = (0, cf)"
  by (simp add: bcd_config_assign_from_v1_def)

text \<open>
  \<open>bcd_config_assign\<close> accepts exactly version 1, and then the library's configuration
  agrees with the caller's in every member; any other version is refused and the library's
  configuration is untouched. In particular a configuration made by
  \<open>bcd_config_init_internal\<close> for a supported version is always accepted.
\<close>

theorem bcd_config_assign_copies:
  "bcd_config_assign g cf = (if cf_version cf = 1 then (0, cf) else (-1, g)) \<and>
   (let (r, cf') = bcd_config_init_internal dh cf v
    in if v = 1 then r = 0 \<and> bcd_config_assign g cf' = (0, cf') else r = -1 \<and> cf' = cf)"
  by (simp add: bcd_config_assign_def bcd_config_assign_from_v1_copies
      bcd_config_init_internal_def bcd_config_init_v1_def)

text \<open>
  \<open>BCD_OOM_ADJUST=1\<close> never switches the adjustment on: the code asks whether \<open>strcmp\<close>
  returns 1, but equal strings compare as 0.
\<close>

theorem bcd_config_from_env_oom:
  assumes "\<And>s. strcmp s s = 0"
    and "getenv ''BCD_OOM_ADJUST'' = Some (cstr_of ''1'')"
  shows "cf_oom_adjust (bcd_config_from_env getenv strcmp cf) = cf_oom_adjust cf"
  using assms by (simp add: bcd_config_from_env_def)

theorem bcd_config_from_env_oom_witness:
  "cf_oom_adjust (bcd_config_from_env [''BCD_OOM_ADJUST'' \<mapsto> cstr_of ''1'']
     (\<lambda>a b. if a = b then 0 else 1) ((bcd_config_init_v1 5)\<lparr>cf_oom_adjust := 0\<rparr>)) = 0"
  by (subst bcd_config_from_env_oom) simp_all

end
