(* ===== verification/Bcd_Base.thy ===== *)
theory Bcd_Base
  imports Bcd_Config
begin

text \<open>
  The protocol and the state of the bcd monitor (\<open>external/bcd/bcd-amalgamated.c\<close>).

  A packet is the raw memory of a \<open>BCD_PACKET_INSTANCE\<close>: the operation and the payload
  length, 4 bytes each, then the payload. The monitor's global variables are the record
  \<open>bcd_monitor\<close>; what it reports through the configured error handler, the argument
  vectors it executes and the signals it sends are recorded there too. A result \<open>None\<close> is an access outside an object.
\<close>

section \<open>Packets\<close>

datatype bcd_op =
    BCD_OP_CF
  | BCD_OP_OK
  | BCD_OP_TID
  | BCD_OP_KV
  | BCD_OP_TR_PROCESS
  | BCD_OP_TR_THREAD
  | BCD_OP_TR_FATAL
  | BCD_OP_DETACH
  | BCD_OP_ARG

definition bcd_ops :: "bcd_op list" where
  "bcd_ops = [BCD_OP_CF, BCD_OP_OK, BCD_OP_TID, BCD_OP_KV, BCD_OP_TR_PROCESS, BCD_OP_TR_THREAD,
     BCD_OP_TR_FATAL, BCD_OP_DETACH, BCD_OP_ARG]"

fun op_value :: "bcd_op \<Rightarrow> u32" where
  "op_value BCD_OP_CF = 0"
| "op_value BCD_OP_OK = 1"
| "op_value BCD_OP_TID = 2"
| "op_value BCD_OP_KV = 3"
| "op_value BCD_OP_TR_PROCESS = 4"
| "op_value BCD_OP_TR_THREAD = 5"
| "op_value BCD_OP_TR_FATAL = 6"
| "op_value BCD_OP_DETACH = 7"
| "op_value BCD_OP_ARG = 8"

text \<open>The constant a switch over \<open>packet->op\<close> finds; any other value is its default.\<close>

definition op_of :: "u32 \<Rightarrow> bcd_op option" where
  "op_of v = find (\<lambda>p. op_value p = v) bcd_ops"

definition BCD_PACKET_LIMIT :: nat where
  "BCD_PACKET_LIMIT = 1024"

text \<open>\<open>sizeof(struct bcd_packet)\<close>, the offset of the payload.\<close>

definition sizeof_packet :: nat where
  "sizeof_packet = 8"

definition packet_op :: "mem \<Rightarrow> u32 option" where
  "packet_op p = load32 p 0"

definition packet_length :: "mem \<Rightarrow> u32 option" where
  "packet_length p = load32 p 4"

text \<open>The bytes of a packet on the wire.\<close>

definition packet_bytes :: "bcd_op \<Rightarrow> byte list \<Rightarrow> byte list" where
  "packet_bytes p payload =
     enc32 (op_value p) @ enc32 (of_nat (length payload)) @ payload"

section \<open>Sessions\<close>

datatype bcd_session_state = BCD_SESSION_READING | BCD_SESSION_WRITING

record bcd_session =
  se_tid :: u32
  se_state :: bcd_session_state
  se_terminated :: bool
  se_offset :: nat
  se_packet :: mem

text \<open>The session \<open>bcd_handler_accept\<close> zeroes.\<close>

definition zero_session :: bcd_session where
  "zero_session = \<lparr>se_tid = 0, se_state = BCD_SESSION_READING, se_terminated = False,
     se_offset = 0, se_packet = replicate (sizeof_packet + BCD_PACKET_LIMIT) 0\<rparr>"

text \<open>The packet of a session lies in an instance of \<open>BCD_PACKET_LIMIT\<close> payload bytes.\<close>

definition session_ok :: "bcd_session \<Rightarrow> bool" where
  "session_ok s \<longleftrightarrow> length (se_packet s) = sizeof_packet + BCD_PACKET_LIMIT"

section \<open>The monitor\<close>

datatype bcd_event =
    BCD_EVENT_TRACE
  | BCD_EVENT_METADATA
  | BCD_EVENT_FATAL
  | BCD_EVENT_OTHER

datatype bcd_signal = SIGALRM | SIGCHLD | SIGTERM | SIGKILL

record kv_pair =
  kv_key :: cstr
  kv_value :: cstr

record bcd_monitor =
  config :: bcd_config_internal
  master_pid :: u32
  target_process :: cstr
  kv_list :: "kv_pair list"
  kv_length :: u64
  kv_count :: u64
  arg_list :: "cstr list"
  arg_length :: u64
  arg_count :: u64
  reports :: "(bcd_event \<times> u32 \<times> u32 \<times> string \<times> int) list"
  tracers :: "cstr option list list"
  kills :: "(int \<times> bcd_signal) list"

text \<open>
  How a handler ends: it returns, it leaves the process (\<open>_exit\<close>), it aborts, or it still
  waits when the script of its environment ends.
\<close>

datatype outcome = Returns int | Exits int | Aborts | Waits

text \<open>
  \<open>bcd_error\<close>: the configured handler is called with the event, the process, the thread of
  the session (0 without one), the message and the code, and the result is -1.
\<close>

definition bcd_error ::
    "bcd_event \<Rightarrow> bcd_session option \<Rightarrow> string \<Rightarrow> int \<Rightarrow> bcd_monitor \<Rightarrow> int \<times> bcd_monitor" where
  "bcd_error event session msg code st =
     (let tid = (case session of Some s \<Rightarrow> se_tid s | None \<Rightarrow> 0)
      in (-1, st\<lparr>reports := reports st @ [(event, master_pid st, tid, msg, code)]\<rparr>))"

text \<open>\<open>memchr(p, '\0', n)\<close>: it reads no further than the first zero.\<close>

definition memchr0 :: "mem \<Rightarrow> nat \<Rightarrow> nat \<Rightarrow> nat option option" where
  "memchr0 m p n =
     (let w = take n (drop p m); k = length (nonzero_prefix w)
      in if k < length w then Some (Some (p + k))
         else if p + n \<le> length m then Some None else None)"

text \<open>\<open>strlen(p)\<close>: undefined when no zero follows in the object.\<close>

definition mem_strlen :: "mem \<Rightarrow> nat \<Rightarrow> nat option" where
  "mem_strlen m p =
     (let k = length (nonzero_prefix (drop p m)) in if p + k < length m then Some k else None)"

lemma op_of_value [simp]: "op_of (op_value p) = Some p"
  by (cases p) (simp_all add: op_of_def bcd_ops_def)

lemma length_packet_bytes [simp]: "length (packet_bytes p d) = 8 + length d"
  by (simp add: packet_bytes_def)

lemma at_mem_cstr_drop:
  assumes "at_mem m p (s @ [0])"
  obtains cs where "drop p m = s @ 0 # cs" and "p + length s < length m"
proof -
  have "drop p m = take (length s + 1) (drop p m) @ drop (length s + 1) (drop p m)"
    by (rule append_take_drop_id [symmetric])
  then have "drop p m = s @ 0 # drop (length s + 1) (drop p m)"
    using assms by (simp add: at_mem_def)
  with assms show thesis by (intro that) (auto simp: at_mem_def)
qed

lemma memchr0_cstr:
  assumes "at_mem m p (s @ [0])" and "cstr_ok s" and "length s < n"
  shows "memchr0 m p n = Some (Some (p + length s))"
proof -
  obtain cs where d: "drop p m = s @ 0 # cs"
    using at_mem_cstr_drop [OF assms(1)] .
  obtain k where k: "n - length s = Suc k"
    using assms(3) by (metis Suc_diff_Suc)
  show ?thesis
    unfolding memchr0_def Let_def d using assms(3) k
    by (simp add: nonzero_prefix_cstr [OF assms(2)])
qed

lemma mem_strlen_cstr:
  assumes "at_mem m p (s @ [0])" and "cstr_ok s"
  shows "mem_strlen m p = Some (length s)"
  using at_mem_cstr_drop [OF assms(1)]
  by (metis mem_strlen_def nonzero_prefix_cstr [OF assms(2)])

lemma take_nonzero_prefix: "take (length (nonzero_prefix bs)) bs = nonzero_prefix bs"
  unfolding nonzero_prefix_def by (rule takeWhile_eq_take [symmetric])

lemma memchr0_inside:
  assumes "p + n \<le> length m"
  shows "memchr0 m p n =
    Some (if length (nonzero_prefix (take n (drop p m))) < n
          then Some (p + length (nonzero_prefix (take n (drop p m)))) else None)"
  using assms by (simp add: memchr0_def Let_def)

lemma load_nonzero_prefix:
  assumes "take n (drop p m) = w" and "p + n \<le> length m"
  shows "load m p (length (nonzero_prefix w)) = Some (nonzero_prefix w)"
proof -
  let ?k = "length (nonzero_prefix w)"
  have "?k \<le> n"
    using assms length_nonzero_prefix [of w] by auto
  then have "take ?k (drop p m) = take ?k (take n (drop p m))"
    by (simp add: min_absorb1)
  then have "take ?k (drop p m) = nonzero_prefix w"
    unfolding assms(1) take_nonzero_prefix .
  with \<open>?k \<le> n\<close> assms(2) show ?thesis
    by (simp add: load_def)
qed

text \<open>The payload of the packet a session holds.\<close>

definition se_payload :: "bcd_session \<Rightarrow> byte list" where
  "se_payload s =
     (case packet_length (se_packet s) of
        Some n \<Rightarrow> take (unat n) (drop sizeof_packet (se_packet s)) | None \<Rightarrow> [])"

text \<open>The packet is complete: its length stays within the instance.\<close>

definition packet_ok :: "bcd_session \<Rightarrow> bool" where
  "packet_ok s \<longleftrightarrow> session_ok s \<and>
     (case packet_length (se_packet s) of Some n \<Rightarrow> unat n \<le> BCD_PACKET_LIMIT | None \<Rightarrow> False)"

lemma packet_okE:
  assumes "packet_ok s"
  obtains n where "packet_length (se_packet s) = Some n" and "unat n \<le> 1024"
    and "length (se_packet s) = 1032"
    and "se_payload s = take (unat n) (drop 8 (se_packet s))" and "length (se_payload s) = unat n"
proof -
  from assms obtain n where n: "packet_length (se_packet s) = Some n" "unat n \<le> 1024"
    unfolding packet_ok_def BCD_PACKET_LIMIT_def by (cases "packet_length (se_packet s)") simp_all
  have l: "length (se_packet s) = 1032"
    using assms by (simp add: packet_ok_def session_ok_def sizeof_packet_def BCD_PACKET_LIMIT_def)
  have p: "se_payload s = take (unat n) (drop 8 (se_packet s))"
    unfolding se_payload_def n(1) sizeof_packet_def by simp
  moreover from this n(2) l have "length (se_payload s) = unat n"
    by simp
  ultimately show thesis
    using n l by (intro that)
qed

text \<open>A session that has received a packet.\<close>

definition hold_packet :: "bcd_session \<Rightarrow> bcd_op \<Rightarrow> byte list \<Rightarrow> bcd_session" where
  "hold_packet s p d = s\<lparr>se_packet := patch (se_packet s) 0 (packet_bytes p d)\<rparr>"

lemma hold_packet_fields:
  assumes "session_ok s" and "length d \<le> BCD_PACKET_LIMIT"
  shows "packet_op (se_packet (hold_packet s p d)) = Some (op_value p)"
    and "packet_length (se_packet (hold_packet s p d)) = Some (of_nat (length d))"
    and "se_payload (hold_packet s p d) = d" and "packet_ok (hold_packet s p d)"
    and "at_mem (se_packet (hold_packet s p d)) 8 d"
proof -
  let ?pkt = "se_packet (hold_packet s p d)"
  have len: "length (se_packet s) = 1032" and d: "length d \<le> 1024"
    using assms by (simp_all add: session_ok_def sizeof_packet_def BCD_PACKET_LIMIT_def)
  have "at_mem ?pkt 0 (packet_bytes p d)"
    unfolding hold_packet_def using len d by (simp add: at_mem_patch_same)
  then have parts: "at_mem ?pkt 0 (enc32 (op_value p))"
      "at_mem ?pkt 4 (enc32 (of_nat (length d)))" "at_mem ?pkt 8 d"
    by (simp_all add: packet_bytes_def at_mem_append)
  then show "packet_op ?pkt = Some (op_value p)"
    and l: "packet_length ?pkt = Some (of_nat (length d))" and "at_mem ?pkt 8 d"
    by (simp_all add: packet_op_def packet_length_def load32_at)
  have n: "unat (of_nat (length d) :: u32) = length d"
    using d by (simp add: unat_of_nat)
  show "se_payload (hold_packet s p d) = d"
    using parts(3) by (simp add: se_payload_def l n sizeof_packet_def at_mem_def)
  have "length ?pkt = 1032"
    unfolding hold_packet_def using len d by simp
  then show "packet_ok (hold_packet s p d)"
    using d by (simp add: packet_ok_def session_ok_def l n sizeof_packet_def BCD_PACKET_LIMIT_def)
qed

lemma session_ok_zero: "session_ok zero_session"
  by (simp add: session_ok_def zero_session_def)

text \<open>\<open>%ju\<close> of a \<open>pid_t\<close> converted to \<open>uintmax_t\<close>.\<close>

definition pid_string :: "u32 \<Rightarrow> cstr" where
  "pid_string pid = cstr_of (dec_string (unat (scast pid :: u64)))"

text \<open>The monitor when its process starts.\<close>

definition start_monitor :: "bcd_config_internal \<Rightarrow> u32 \<Rightarrow> bcd_monitor" where
  "start_monitor cf pid =
     \<lparr>config = cf, master_pid = pid,
      target_process = pid_string pid,
      kv_list = [], kv_length = 0, kv_count = 0, arg_list = [], arg_length = 0, arg_count = 0,
      reports = [], tracers = [], kills = []\<rparr>"

text \<open>A monitor with the default configuration, for the examples.\<close>

abbreviation example_start :: bcd_monitor where
  "example_start \<equiv> start_monitor (bcd_config_init_v1 1) 5"

lemma start_monitor_lists [simp]:
  "kv_list (start_monitor cf pid) = []" "arg_list (start_monitor cf pid) = []"
  "kv_count (start_monitor cf pid) = 0" "arg_count (start_monitor cf pid) = 0"
  "kv_length (start_monitor cf pid) = 0" "arg_length (start_monitor cf pid) = 0"
  "config (start_monitor cf pid) = cf" "target_process (start_monitor cf pid) = pid_string pid"
  "reports (start_monitor cf pid) = []" "tracers (start_monitor cf pid) = []"
  "kills (start_monitor cf pid) = []"
  by (simp_all add: start_monitor_def)

end
