(* ===== verification/Bcd_IO.thy ===== *)
theory Bcd_IO
  imports Bcd_Base
begin

text \<open>
  Descriptor input and output of bcd (\<open>bcd_io_fd_wait\<close>, \<open>bcd_io_fd_read\<close>,
  \<open>bcd_io_fd_write\<close>, \<open>bcd_io_fd_prepare\<close>, \<open>bcd_io_fd_close\<close>). The operating system is a
  script: what successive \<open>read\<close>, \<open>write\<close> and \<open>select\<close> calls find. \<open>read\<close> hands out the
  bytes of the script in order, in whatever pieces it holds them, and never more than it is
  asked for. A script that ends leaves a silent descriptor: \<open>read\<close> and \<open>write\<close> fail with
  \<open>EAGAIN\<close>, \<open>select\<close> does not return (\<open>None\<close>).
\<close>

datatype io_errno = E_INTR | E_AGAIN | E_OTHER int

datatype rd_event = Rd_data "byte list" | Rd_eof | Rd_intr | Rd_again | Rd_error int

datatype wr_event = Wr_room nat | Wr_intr | Wr_again | Wr_error int

datatype sel_event = Sel_ready nat | Sel_intr | Sel_error int

datatype 'a io_result = Ok 'a | Failed io_errno

text \<open>\<open>read(fd, b, n)\<close>: the bytes read; none is the return value 0.\<close>

fun sys_read :: "nat \<Rightarrow> rd_event list \<Rightarrow> byte list io_result \<times> rd_event list" where
  "sys_read n [] = (if n = 0 then Ok [] else Failed E_AGAIN, [])"
| "sys_read n (Rd_data bs # es) =
     (if n = 0 then (Ok [], Rd_data bs # es)
      else if bs = [] then sys_read n es
      else if length bs \<le> n then (Ok bs, es)
      else (Ok (take n bs), Rd_data (drop n bs) # es))"
| "sys_read n (Rd_eof # es) = (Ok [], Rd_eof # es)"
| "sys_read n (Rd_intr # es) = (if n = 0 then (Ok [], Rd_intr # es) else (Failed E_INTR, es))"
| "sys_read n (Rd_again # es) = (if n = 0 then (Ok [], Rd_again # es) else (Failed E_AGAIN, es))"
| "sys_read n (Rd_error e # es) =
     (if n = 0 then (Ok [], Rd_error e # es) else (Failed (E_OTHER e), es))"

text \<open>\<open>write(fd, b, n)\<close>: how many bytes the descriptor takes.\<close>

fun sys_write :: "nat \<Rightarrow> wr_event list \<Rightarrow> nat io_result \<times> wr_event list" where
  "sys_write n [] = (Failed E_AGAIN, [])"
| "sys_write n (Wr_room k # es) = (Ok (min k n), es)"
| "sys_write n (Wr_intr # es) = (Failed E_INTR, es)"
| "sys_write n (Wr_again # es) = (Failed E_AGAIN, es)"
| "sys_write n (Wr_error e # es) = (Failed (E_OTHER e), es)"

text \<open>
  \<open>bcd_io_fd_wait\<close>: the clock and the result of each \<open>select\<close>. The result is that of the
  last call and the timeout it was given (\<open>None\<close>: no timeout).
\<close>

definition wait_seconds :: "u32 \<Rightarrow> int \<Rightarrow> int \<Rightarrow> int" where
  "wait_seconds timeout abstime now =
     (if abstime \<le> now then 0
      else if int (unat timeout) < abstime - now then int (unat timeout)
      else abstime - now)"

fun bcd_io_fd_wait ::
    "u32 \<Rightarrow> int \<Rightarrow> (int \<times> sel_event) list \<Rightarrow>
     (int \<times> int option \<times> (int \<times> sel_event) list) option" where
  "bcd_io_fd_wait timeout abstime [] = None"
| "bcd_io_fd_wait timeout abstime ((now, ev) # sels) =
     (let tv = (if abstime = 0 then None else Some (wait_seconds timeout abstime now))
      in case ev of
           Sel_ready n \<Rightarrow> Some (int n, tv, sels)
         | Sel_intr \<Rightarrow> bcd_io_fd_wait timeout abstime sels
         | Sel_error e \<Rightarrow> Some (-1, tv, sels))"

record io_env =
  rd_events :: "rd_event list"
  wr_events :: "wr_event list"
  sel_events :: "(int \<times> sel_event) list"
  sent :: "byte list"

fun rd_weight :: "rd_event list \<Rightarrow> nat" where
  "rd_weight [] = 0"
| "rd_weight (Rd_data bs # es) = 1 + length bs + rd_weight es"
| "rd_weight (e # es) = 1 + rd_weight es"

lemma sys_read_weight:
  "sys_read n es = (Ok bs, es') \<Longrightarrow> bs \<noteq> [] \<Longrightarrow> rd_weight es' < rd_weight es"
  by (induction n es rule: sys_read.induct) (auto split: if_splits)

lemma sys_read_intr: "sys_read n es = (Failed e, es') \<Longrightarrow> e \<noteq> E_AGAIN \<Longrightarrow> rd_weight es' < rd_weight es"
  by (induction n es rule: sys_read.induct) (auto split: if_splits)

lemma sys_read_again: "sys_read n es = (Failed e, es') \<Longrightarrow> rd_weight es' \<le> rd_weight es"
  by (induction n es rule: sys_read.induct) (auto split: if_splits)

lemma fd_wait_shorter:
  "bcd_io_fd_wait timeout abstime sels = Some (r, tv, sels') \<Longrightarrow> length sels' < length sels"
  by (induction timeout abstime sels rule: bcd_io_fd_wait.induct)
    (auto split: sel_event.splits simp: Let_def)

text \<open>
  \<open>bcd_io_fd_read\<close>: the return value, the \<open>errno\<close> of a failure, the bytes in the buffer and
  the environment that is left.
\<close>

function fd_read_loop ::
    "u32 \<Rightarrow> nat \<Rightarrow> int \<Rightarrow> byte list \<Rightarrow> io_env \<Rightarrow>
     (int \<times> io_errno option \<times> byte list \<times> io_env) option" where
  "fd_read_loop timeout n abstime acc env =
     (case sys_read (n - length acc) (rd_events env) of
        (Ok bs, es) \<Rightarrow>
          if bs = [] then Some (0, None, acc, env\<lparr>rd_events := es\<rparr>)
          else if length acc + length bs = n
               then Some (int n, None, acc @ bs, env\<lparr>rd_events := es\<rparr>)
               else fd_read_loop timeout n abstime (acc @ bs) (env\<lparr>rd_events := es\<rparr>)
      | (Failed E_INTR, es) \<Rightarrow> fd_read_loop timeout n abstime acc (env\<lparr>rd_events := es\<rparr>)
      | (Failed E_AGAIN, es) \<Rightarrow>
          (case bcd_io_fd_wait timeout abstime (sel_events env) of
             None \<Rightarrow> None
           | Some (ret, tv, sels) \<Rightarrow>
               if ret = 1
               then fd_read_loop timeout n abstime acc (env\<lparr>rd_events := es, sel_events := sels\<rparr>)
               else Some (-1, Some E_AGAIN, acc, env\<lparr>rd_events := es, sel_events := sels\<rparr>))
      | (Failed (E_OTHER e), es) \<Rightarrow> Some (-1, Some (E_OTHER e), acc, env\<lparr>rd_events := es\<rparr>))"
  by pat_completeness auto

termination fd_read_loop
proof (relation "measure (\<lambda>(timeout, n, abstime, acc, env). rd_weight (rd_events env) + length (sel_events env))",
    goal_cases)
  case 1
  then show ?case by simp
next
  case (2 timeout n abstime acc env res es bs)
  then show ?case
    using sys_read_weight [of "n - length acc" "rd_events env" bs es] by simp
next
  case (3 timeout n abstime acc env res es e)
  then show ?case
    using sys_read_intr [of "n - length acc" "rd_events env" E_INTR es] by simp
next
  case (4 timeout n abstime acc env res es e w ret p tv sels)
  then show ?case
    using sys_read_again [of "n - length acc" "rd_events env" E_AGAIN es]
      fd_wait_shorter [of timeout abstime "sel_events env"] by fastforce
qed

declare fd_read_loop.simps [simp del]

definition bcd_io_fd_read ::
    "u32 \<Rightarrow> nat \<Rightarrow> int \<Rightarrow> io_env \<Rightarrow> (int \<times> io_errno option \<times> byte list \<times> io_env) option" where
  "bcd_io_fd_read timeout n abstime env = fd_read_loop timeout n abstime [] env"

text \<open>\<open>bcd_io_fd_write\<close>: \<open>sent\<close> collects the bytes the descriptor has taken.\<close>

lemma sys_write_weight: "sys_write n es = (r, es') \<Longrightarrow> r \<noteq> Failed E_AGAIN \<Longrightarrow> length es' < length es"
  by (induction n es rule: sys_write.induct) auto

lemma sys_write_again: "sys_write n es = (r, es') \<Longrightarrow> length es' \<le> length es"
  by (induction n es rule: sys_write.induct) auto

function fd_write_loop ::
    "u32 \<Rightarrow> byte list \<Rightarrow> int \<Rightarrow> nat \<Rightarrow> io_env \<Rightarrow> (int \<times> io_errno option \<times> io_env) option" where
  "fd_write_loop timeout b abstime ac env =
     (case sys_write (length b - ac) (wr_events env) of
        (Ok r, es) \<Rightarrow>
          if r = 0 then Some (0, None, env\<lparr>wr_events := es\<rparr>)
          else (let env' = env\<lparr>wr_events := es, sent := sent env @ take r (drop ac b)\<rparr>
                in if ac + r = length b then Some (int (length b), None, env')
                   else fd_write_loop timeout b abstime (ac + r) env')
      | (Failed E_INTR, es) \<Rightarrow> fd_write_loop timeout b abstime ac (env\<lparr>wr_events := es\<rparr>)
      | (Failed E_AGAIN, es) \<Rightarrow>
          (case bcd_io_fd_wait timeout abstime (sel_events env) of
             None \<Rightarrow> None
           | Some (ret, tv, sels) \<Rightarrow>
               if ret = 1
               then fd_write_loop timeout b abstime ac (env\<lparr>wr_events := es, sel_events := sels\<rparr>)
               else Some (-1, Some E_AGAIN, env\<lparr>wr_events := es, sel_events := sels\<rparr>))
      | (Failed (E_OTHER e), es) \<Rightarrow> Some (-1, Some (E_OTHER e), env\<lparr>wr_events := es\<rparr>))"
  by pat_completeness auto

termination fd_write_loop
proof (relation "measure (\<lambda>(timeout, b, abstime, ac, env). length (wr_events env) + length (sel_events env))",
    goal_cases)
  case 1
  then show ?case by simp
next
  case (2 timeout b abstime ac env res es r env')
  then show ?case
    using sys_write_weight [of "length b - ac" "wr_events env" "Ok r" es] by simp
next
  case (3 timeout b abstime ac env res es e)
  then show ?case
    using sys_write_weight [of "length b - ac" "wr_events env" "Failed E_INTR" es] by simp
next
  case (4 timeout b abstime ac env res es e w ret p tv sels)
  then show ?case
    using sys_write_again [of "length b - ac" "wr_events env" "Failed E_AGAIN" es]
      fd_wait_shorter [of timeout abstime "sel_events env"] by fastforce
qed

declare fd_write_loop.simps [simp del]

definition bcd_io_fd_write ::
    "u32 \<Rightarrow> byte list \<Rightarrow> int \<Rightarrow> io_env \<Rightarrow> (int \<times> io_errno option \<times> io_env) option" where
  "bcd_io_fd_write timeout b abstime env = fd_write_loop timeout b abstime 0 env"

section \<open>Descriptor modes\<close>

text \<open>
  \<open>bcd_io_fd_prepare\<close>: the flags \<open>F_GETFL\<close> returns (or -1) and the flags the descriptor is
  set to; \<open>bcd_io_fd_close\<close> repeats \<open>close\<close> while it is interrupted: the number of calls.
\<close>

definition O_NONBLOCK :: u32 where
  "O_NONBLOCK = 2048"

definition bcd_io_fd_prepare :: "int \<Rightarrow> (u32 \<Rightarrow> bool) \<Rightarrow> int \<times> u32 option" where
  "bcd_io_fd_prepare flags setfl =
     (if flags = -1 then (-1, None)
      else if setfl (or (word_of_int flags) O_NONBLOCK)
           then (0, Some (or (word_of_int flags) O_NONBLOCK)) else (-1, None))"

fun bcd_io_fd_close :: "io_errno option list \<Rightarrow> nat" where
  "bcd_io_fd_close (Some E_INTR # rs) = Suc (bcd_io_fd_close rs)"
| "bcd_io_fd_close _ = 1"

section \<open>The bytes that pass\<close>

text \<open>The bytes a script offers before the end of the file.\<close>

fun rd_bytes :: "rd_event list \<Rightarrow> byte list" where
  "rd_bytes [] = []"
| "rd_bytes (Rd_data bs # es) = bs @ rd_bytes es"
| "rd_bytes (Rd_eof # es) = []"
| "rd_bytes (e # es) = rd_bytes es"

lemma sys_read_bytes:
  "sys_read n es = (Ok bs, es') \<Longrightarrow> rd_bytes es = bs @ rd_bytes es' \<and> length bs \<le> n"
  "sys_read n es = (Failed e, es') \<Longrightarrow> rd_bytes es = rd_bytes es' \<and> n \<noteq> 0"
  by (induction n es rule: sys_read.induct) (auto split: if_splits)

lemma sys_write_min: "sys_write n es = (Ok r, es') \<Longrightarrow> r \<le> n"
  by (cases "(n, es)" rule: sys_write.cases) auto

lemma fd_read_loop_bytes:
  assumes "fd_read_loop timeout n abstime acc env = Some (r, e, acc', env')"
    and "length acc \<le> n"
  shows "acc @ rd_bytes (rd_events env) = acc' @ rd_bytes (rd_events env') \<and> length acc' \<le> n \<and>
    sent env' = sent env \<and> wr_events env' = wr_events env \<and>
    (r = int n \<and> length acc' = n \<or> r = 0 \<or> r = -1 \<and> e \<noteq> None)"
  using assms
proof (induction timeout n abstime acc env rule: fd_read_loop.induct)
  case (1 timeout n abstime acc env)
  obtain res es where read: "sys_read (n - length acc) (rd_events env) = (res, es)"
    by (cases "sys_read (n - length acc) (rd_events env)")
  note run = "1.prems"(1) [unfolded fd_read_loop.simps [of timeout n abstime acc env] read prod.case]
  show ?case
  proof (cases res)
    case (Ok bs)
    have bytes: "rd_bytes (rd_events env) = bs @ rd_bytes es" "length bs \<le> n - length acc"
      using sys_read_bytes(1) [OF read [unfolded Ok]] by auto
    show ?thesis
    proof (cases "bs = [] \<or> length acc + length bs = n")
      case True
      then show ?thesis
        using run bytes "1.prems"(2) Ok by (auto split: if_splits)
    next
      case False
      then show ?thesis
        using "1.IH"(1) [OF read [symmetric] Ok] run bytes "1.prems"(2) Ok by simp
    qed
  next
    case (Failed er)
    note bytes = sys_read_bytes(2) [OF read [unfolded Failed]]
    show ?thesis
    proof (cases er)
      case E_INTR
      then show ?thesis
        using "1.IH"(2) [OF read [symmetric] Failed E_INTR] run bytes "1.prems"(2) Failed
        by simp
    next
      case E_AGAIN
      show ?thesis
      proof (cases "bcd_io_fd_wait timeout abstime (sel_events env)")
        case None
        with run Failed E_AGAIN show ?thesis by simp
      next
        case (Some w)
        obtain ret tv sels where w: "w = (ret, tv, sels)"
          by (cases w)
        show ?thesis
        proof (cases "ret = 1")
          case True
          then show ?thesis
            using "1.IH"(3) [OF read [symmetric] Failed E_AGAIN Some w [symmetric] refl]
              run bytes "1.prems"(2) Failed E_AGAIN Some w by simp
        next
          case False
          then show ?thesis
            using run bytes "1.prems"(2) Failed E_AGAIN Some w by auto
        qed
      qed
    next
      case (E_OTHER c)
      then show ?thesis
        using run bytes "1.prems"(2) Failed by auto
    qed
  qed
qed

text \<open>A script without end of file and errors, and how often it makes the reader wait.\<close>

fun rd_live :: "rd_event list \<Rightarrow> bool" where
  "rd_live [] = True"
| "rd_live (Rd_eof # es) = False"
| "rd_live (Rd_error e # es) = False"
| "rd_live (_ # es) = rd_live es"

fun rd_waits :: "rd_event list \<Rightarrow> nat" where
  "rd_waits [] = 0"
| "rd_waits (Rd_again # es) = Suc (rd_waits es)"
| "rd_waits (_ # es) = rd_waits es"

lemma sys_read_live:
  assumes "rd_live es" and "n \<noteq> 0" and "rd_bytes es \<noteq> []" and "sys_read n es = (res, es')"
  shows "rd_live es' \<and>
    (case res of
       Ok bs \<Rightarrow> bs \<noteq> [] \<and> rd_waits es' \<le> rd_waits es
     | Failed E_INTR \<Rightarrow> rd_waits es' \<le> rd_waits es
     | Failed E_AGAIN \<Rightarrow> rd_waits es' < rd_waits es
     | Failed (E_OTHER _) \<Rightarrow> False)"
  using assms
  by (induction n es rule: sys_read.induct) (auto split: if_splits io_result.splits io_errno.splits)

definition ready_selects :: "(int \<times> sel_event) list \<Rightarrow> bool" where
  "ready_selects sels \<longleftrightarrow> (\<forall>(now, ev) \<in> set sels. ev = Sel_ready 1)"

lemma fd_wait_ready:
  "ready_selects sels \<Longrightarrow> sels \<noteq> [] \<Longrightarrow>
    \<exists>tv. bcd_io_fd_wait timeout abstime sels = Some (1, tv, tl sels) \<and> ready_selects (tl sels)"
  by (cases sels) (auto simp: ready_selects_def Let_def)

lemma fd_read_loop_done:
  assumes "rd_live (rd_events env)" and "length acc < n"
    and "n \<le> length acc + length (rd_bytes (rd_events env))"
    and "ready_selects (sel_events env)" and "rd_waits (rd_events env) \<le> length (sel_events env)"
  shows "\<exists>acc' env'. fd_read_loop timeout n abstime acc env = Some (int n, None, acc', env') \<and>
    rd_live (rd_events env') \<and> ready_selects (sel_events env') \<and>
    rd_waits (rd_events env') \<le> length (sel_events env')"
  using assms
proof (induction timeout n abstime acc env rule: fd_read_loop.induct)
  case (1 timeout n abstime acc env)
  obtain res es where read: "sys_read (n - length acc) (rd_events env) = (res, es)"
    by (cases "sys_read (n - length acc) (rd_events env)")
  note step = fd_read_loop.simps [of timeout n abstime acc env, unfolded read prod.case]
  have nz: "n - length acc \<noteq> 0" "rd_bytes (rd_events env) \<noteq> []"
    using "1.prems"(2,3) by auto
  note live = sys_read_live [OF "1.prems"(1) nz read]
  show ?case
  proof (cases res)
    case (Ok bs)
    have bytes: "rd_bytes (rd_events env) = bs @ rd_bytes es" "length bs \<le> n - length acc"
      using sys_read_bytes(1) [OF read [unfolded Ok]] by auto
    have ne: "bs \<noteq> []"
      using live Ok by simp
    show ?thesis
    proof (cases "length acc + length bs = n")
      case True
      then show ?thesis using ne Ok live "1.prems"(4,5) by (simp add: step)
    next
      case False
      then show ?thesis
        using "1.IH"(1) [OF read [symmetric] Ok ne False] live bytes "1.prems" Ok ne
        by (simp add: step)
    qed
  next
    case (Failed er)
    note bytes = sys_read_bytes(2) [OF read [unfolded Failed]]
    show ?thesis
    proof (cases er)
      case E_INTR
      then show ?thesis
        using "1.IH"(2) [OF read [symmetric] Failed E_INTR] live bytes "1.prems" Failed
        by (simp add: step)
    next
      case E_AGAIN
      then have sels: "sel_events env \<noteq> []"
        using live Failed "1.prems"(5) by auto
      from fd_wait_ready [OF "1.prems"(4) this] obtain tv where
        w: "bcd_io_fd_wait timeout abstime (sel_events env) = Some (1, tv, tl (sel_events env))"
          "ready_selects (tl (sel_events env))" by blast
      have "rd_waits es \<le> length (tl (sel_events env))"
        using live Failed E_AGAIN "1.prems"(5) by auto
      with w show ?thesis
        using "1.IH"(3) [OF read [symmetric] Failed E_AGAIN w(1) refl refl refl] live bytes "1.prems"
          Failed E_AGAIN by (simp add: step)
    next
      case (E_OTHER c)
      then show ?thesis using live Failed by simp
    qed
  qed
qed

text \<open>
  C36: \<open>bcd_io_fd_read\<close> delivers all or nothing. Whatever the descriptor does, the bytes in
  the buffer are the first of the stream and the rest stays in it; a positive result is the
  size that was asked for, never a short count. It reaches that result over any
  fragmentation, interruption and pause, as long as the bytes come and the waits succeed.
\<close>

theorem bcd_io_fd_read_exact:
  "case bcd_io_fd_read timeout n abstime env of
     None \<Rightarrow> True
   | Some (r, e, buf, env') \<Rightarrow>
       rd_bytes (rd_events env) = buf @ rd_bytes (rd_events env') \<and> length buf \<le> n \<and>
       (r = int n \<and> length buf = n \<or> r = 0 \<or> r = -1 \<and> e \<noteq> None)"
  using fd_read_loop_bytes [of timeout n abstime "[]" env]
  by (auto simp: bcd_io_fd_read_def split: option.split)

lemma fd_read_done:
  assumes "rd_live (rd_events env)" and "0 < n" and "n \<le> length (rd_bytes (rd_events env))"
    and "ready_selects (sel_events env)" and "rd_waits (rd_events env) \<le> length (sel_events env)"
  shows "\<exists>env'. bcd_io_fd_read timeout n abstime env =
      Some (int n, None, take n (rd_bytes (rd_events env)), env') \<and>
    rd_bytes (rd_events env') = drop n (rd_bytes (rd_events env)) \<and>
    sent env' = sent env \<and> wr_events env' = wr_events env \<and>
    rd_live (rd_events env') \<and> ready_selects (sel_events env') \<and>
    rd_waits (rd_events env') \<le> length (sel_events env')"
proof -
  obtain buf env' where run: "fd_read_loop timeout n abstime [] env = Some (int n, None, buf, env')"
      and flows: "rd_live (rd_events env')" "ready_selects (sel_events env')"
        "rd_waits (rd_events env') \<le> length (sel_events env')"
    using fd_read_loop_done [of env "[]" n timeout abstime] assms by auto
  from fd_read_loop_bytes [OF run] assms(2)
  have "rd_bytes (rd_events env) = buf @ rd_bytes (rd_events env')" "length buf = n"
      "sent env' = sent env" "wr_events env' = wr_events env"
    by auto
  then show ?thesis
    using run flows by (simp add: bcd_io_fd_read_def)
qed

text \<open>
  How long \<open>bcd_io_fd_wait\<close> lets \<open>select\<close> sleep: not at all once the deadline has
  passed, never longer than the configured timeout or past the deadline, and without limit
  exactly for the deadline 0.
\<close>

theorem bcd_io_fd_wait_bounds:
  "case bcd_io_fd_wait timeout abstime sels of
     None \<Rightarrow> set (map snd sels) \<subseteq> {Sel_intr}
   | Some (r, tv, rest) \<Rightarrow>
       \<exists>pre now ev. sels = pre @ (now, ev) # rest \<and> set (map snd pre) \<subseteq> {Sel_intr} \<and>
         tv = (if abstime = 0 then None else Some (wait_seconds timeout abstime now)) \<and>
         0 \<le> wait_seconds timeout abstime now \<and>
         wait_seconds timeout abstime now \<le> int (unat timeout) \<and>
         now + wait_seconds timeout abstime now \<le> max now abstime \<and>
         (r = -1 \<or> (\<exists>n. ev = Sel_ready n \<and> r = int n))"
proof (induction timeout abstime sels rule: bcd_io_fd_wait.induct)
  case (1 timeout abstime)
  then show ?case by simp
next
  case (2 timeout abstime now ev sels)
  have b: "0 \<le> wait_seconds timeout abstime now \<and> wait_seconds timeout abstime now \<le> int (unat timeout) \<and>
      now + wait_seconds timeout abstime now \<le> max now abstime"
    by (auto simp: wait_seconds_def)
  show ?case
  proof (cases ev)
    case (Sel_ready n)
    with b show ?thesis
      by (auto simp: Let_def intro!: exI [of _ "[]"])
  next
    case (Sel_error e)
    with b show ?thesis
      by (auto simp: Let_def intro!: exI [of _ "[]"])
  next
    case Sel_intr
    show ?thesis
    proof (cases "bcd_io_fd_wait timeout abstime sels")
      case None
      with "2.IH" [OF refl Sel_intr] Sel_intr show ?thesis by simp
    next
      case (Some x)
      obtain r tv rest where x: "x = (r, tv, rest)" by (cases x)
      from "2.IH" [OF refl Sel_intr] Some x obtain pre now' ev'
        where "sels = pre @ (now', ev') # rest" "set (map snd pre) \<subseteq> {Sel_intr}"
          and R: "tv = (if abstime = 0 then None else Some (wait_seconds timeout abstime now')) \<and>
           0 \<le> wait_seconds timeout abstime now' \<and>
           wait_seconds timeout abstime now' \<le> int (unat timeout) \<and>
           now' + wait_seconds timeout abstime now' \<le> max now' abstime \<and>
           (r = -1 \<or> (\<exists>n. ev' = Sel_ready n \<and> r = int n))"
        by auto
      then have "(now, ev) # sels = ((now, ev) # pre) @ (now', ev') # rest"
        "set (map snd ((now, ev) # pre)) \<subseteq> {Sel_intr}"
        using Sel_intr by simp_all
      with R Some x Sel_intr show ?thesis
        by (simp add: Let_def)
    qed
  qed
qed

lemma fd_write_loop_bytes:
  assumes "fd_write_loop timeout b abstime ac env = Some (r, e, env')" and "ac \<le> length b"
  shows "\<exists>k. ac \<le> k \<and> k \<le> length b \<and> sent env' = sent env @ take (k - ac) (drop ac b) \<and>
    rd_events env' = rd_events env \<and>
    (r = int (length b) \<and> k = length b \<or> r = 0 \<or> r = -1 \<and> e \<noteq> None)"
  using assms
proof (induction timeout b abstime ac env rule: fd_write_loop.induct)
  case (1 timeout b abstime ac env)
  obtain res es where wr: "sys_write (length b - ac) (wr_events env) = (res, es)"
    by (cases "sys_write (length b - ac) (wr_events env)")
  note run = "1.prems"(1) [unfolded fd_write_loop.simps [of timeout b abstime ac env] wr prod.case]
  show ?case
  proof (cases res)
    case (Ok n)
    have n: "n \<le> length b - ac"
      using sys_write_min [OF wr [unfolded Ok]] .
    show ?thesis
    proof (cases "n = 0 \<or> ac + n = length b")
      case True
      with run Ok n "1.prems"(2) show ?thesis
        by (auto simp: Let_def split: if_splits)
    next
      case False
      then have nz: "n \<noteq> 0" and go: "ac + n \<noteq> length b"
        by auto
      have "ac + n \<le> length b"
        using n "1.prems"(2) by simp
      with "1.IH"(1) [OF wr [symmetric] Ok nz refl go] run Ok nz go
      obtain k where k: "ac + n \<le> k" "k \<le> length b"
          "sent env' = (sent env @ take n (drop ac b)) @ take (k - (ac + n)) (drop (ac + n) b)"
          "rd_events env' = rd_events env"
          "r = int (length b) \<and> k = length b \<or> r = 0 \<or> r = -1 \<and> e \<noteq> None"
        by (auto simp: Let_def)
      have "take n (drop ac b) @ take (k - (ac + n)) (drop (ac + n) b) = take (k - ac) (drop ac b)"
      proof -
        have "k - ac = n + (k - (ac + n))"
          using k(1) by simp
        then show ?thesis
          by (simp add: take_add drop_drop add.commute)
      qed
      with k show ?thesis by (intro exI [of _ k]) auto
    qed
  next
    case (Failed er)
    show ?thesis
    proof (cases er)
      case E_INTR
      then show ?thesis
        using "1.IH"(2) [OF wr [symmetric] Failed E_INTR] run "1.prems"(2) Failed by simp
    next
      case E_AGAIN
      show ?thesis
      proof (cases "bcd_io_fd_wait timeout abstime (sel_events env)")
        case None
        with run Failed E_AGAIN show ?thesis by simp
      next
        case (Some w)
        obtain ret tv sels where w: "w = (ret, tv, sels)"
          by (cases w)
        show ?thesis
        proof (cases "ret = 1")
          case True
          then show ?thesis
            using "1.IH"(3) [OF wr [symmetric] Failed E_AGAIN Some w [symmetric] refl]
              run "1.prems"(2) Failed E_AGAIN Some w by simp
        next
          case False
          then show ?thesis
            using run "1.prems"(2) Failed E_AGAIN Some w by auto
        qed
      qed
    next
      case (E_OTHER c)
      then show ?thesis
        using run "1.prems"(2) Failed by auto
    qed
  qed
qed

text \<open>
  \<open>bcd_io_fd_write\<close> sends a prefix of its buffer, in order and without gaps, and claims
  success only for all of it.
\<close>

theorem bcd_io_fd_write_exact:
  "case bcd_io_fd_write timeout b abstime env of
     None \<Rightarrow> True
   | Some (r, e, env') \<Rightarrow>
       \<exists>k \<le> length b. sent env' = sent env @ take k b \<and> rd_events env' = rd_events env \<and>
         (r = int (length b) \<and> k = length b \<or> r = 0 \<or> r = -1 \<and> e \<noteq> None)"
  using fd_write_loop_bytes [of timeout b abstime 0 env]
  by (auto simp: bcd_io_fd_write_def split: option.split)

text \<open>A descriptor with room for everything.\<close>

lemma fd_write_room:
  assumes "wr_events env = Wr_room k # es" and "b \<noteq> []" and "length b \<le> k"
  shows "bcd_io_fd_write timeout b abstime env =
    Some (int (length b), None, env\<lparr>wr_events := es, sent := sent env @ b\<rparr>)"
  using assms
  by (simp add: bcd_io_fd_write_def fd_write_loop.simps [of timeout b abstime 0 env] Let_def)

end
