(* ===== verification/Bcd_Events.thy ===== *)
theory Bcd_Events
  imports Bcd_IO
begin

text \<open>
  The event list of bcd (\<open>bcd_io_event_*\<close>). An event is a heap object; here a number names
  it. \<open>readyevents\<close> is the queue of the events whose handlers are to run; the flag of an
  event says that it is in the queue. \<open>epoll\<close> is edge-triggered, so an event stays in the
  queue until its handler has drained the descriptor and takes it out.
\<close>

record 'p bcd_io_event =
  ev_fd :: int
  ev_mask :: u32
  ev_in_ready :: bool
  ev_payload :: 'p

record 'p io_loop =
  io_events :: "nat \<Rightarrow> 'p bcd_io_event option"
  readyevents :: "nat list"

definition EPOLLIN :: u32 where "EPOLLIN = 1"
definition EPOLLOUT :: u32 where "EPOLLOUT = 4"
definition EPOLLERR :: u32 where "EPOLLERR = 8"
definition EPOLLET :: u32 where "EPOLLET = 0x80000000"

definition BCD_IO_EVENT_READ :: u32 where "BCD_IO_EVENT_READ = or EPOLLIN EPOLLET"
definition BCD_IO_EVENT_WRITE :: u32 where "BCD_IO_EVENT_WRITE = or EPOLLOUT EPOLLET"

text \<open>Access to an object that does not exist is \<open>None\<close>.\<close>

definition update_event ::
    "nat \<Rightarrow> ('p bcd_io_event \<Rightarrow> 'p bcd_io_event) \<Rightarrow> 'p io_loop \<Rightarrow> 'p io_loop option" where
  "update_event i f L =
     (case io_events L i of
        None \<Rightarrow> None
      | Some ev \<Rightarrow> Some (L\<lparr>io_events := (io_events L)(i \<mapsto> f ev)\<rparr>))"

definition bcd_io_event_unset :: "nat \<Rightarrow> u32 \<Rightarrow> 'p io_loop \<Rightarrow> 'p io_loop option" where
  "bcd_io_event_unset i msk L = update_event i (\<lambda>ev. ev\<lparr>ev_mask := and (ev_mask ev) (not msk)\<rparr>) L"

definition bcd_io_event_has_error :: "nat \<Rightarrow> 'p io_loop \<Rightarrow> bool option" where
  "bcd_io_event_has_error i L = map_option (\<lambda>ev. and (ev_mask ev) EPOLLERR \<noteq> 0) (io_events L i)"

text \<open>\<open>malloc\<close> returns the object \<open>i\<close>, which is not in use, or fails.\<close>

definition bcd_io_event_create ::
    "nat option \<Rightarrow> int \<Rightarrow> 'p \<Rightarrow> 'p io_loop \<Rightarrow> nat option \<times> 'p io_loop" where
  "bcd_io_event_create malloc fd payload L =
     (case malloc of
        None \<Rightarrow> (None, L)
      | Some i \<Rightarrow> (Some i, L\<lparr>io_events := (io_events L)(i \<mapsto>
          \<lparr>ev_fd = fd, ev_mask = 0, ev_in_ready = False, ev_payload = payload\<rparr>)\<rparr>))"

definition bcd_io_event_destroy :: "nat option \<Rightarrow> 'p io_loop \<Rightarrow> 'p io_loop" where
  "bcd_io_event_destroy event L =
     (case event of None \<Rightarrow> L | Some i \<Rightarrow> L\<lparr>io_events := (io_events L)(i := None)\<rparr>)"

definition bcd_io_event_add_to_ready_list :: "nat \<Rightarrow> 'p io_loop \<Rightarrow> 'p io_loop option" where
  "bcd_io_event_add_to_ready_list i L = do {
     ev \<leftarrow> io_events L i;
     if \<not> ev_in_ready ev
     then update_event i (\<lambda>ev. ev\<lparr>ev_in_ready := True\<rparr>) (L\<lparr>readyevents := readyevents L @ [i]\<rparr>)
     else Some L
   }"

definition bcd_io_event_remove_from_ready_list :: "nat \<Rightarrow> 'p io_loop \<Rightarrow> 'p io_loop option" where
  "bcd_io_event_remove_from_ready_list i L = do {
     ev \<leftarrow> io_events L i;
     if ev_in_ready ev
     then update_event i (\<lambda>ev. ev\<lparr>ev_in_ready := False\<rparr>)
            (L\<lparr>readyevents := remove1 i (readyevents L)\<rparr>)
     else Some L
   }"

definition bcd_io_event_ready_list_is_empty :: "'p io_loop \<Rightarrow> bool" where
  "bcd_io_event_ready_list_is_empty L \<longleftrightarrow> readyevents L = []"

text \<open>\<open>epoll_ctl\<close>: whether it succeeds.\<close>

definition bcd_io_event_add :: "bool \<Rightarrow> nat \<Rightarrow> 'p io_loop \<Rightarrow> (int \<times> 'p io_loop) option" where
  "bcd_io_event_add ctl i L = do {
     ev \<leftarrow> io_events L i;
     if \<not> ctl then Some (-1, L)
     else do { L \<leftarrow> bcd_io_event_add_to_ready_list i L; Some (0, L) }
   }"

definition bcd_io_event_remove :: "bool \<Rightarrow> nat \<Rightarrow> 'p io_loop \<Rightarrow> (int \<times> 'p io_loop) option" where
  "bcd_io_event_remove ctl i L = do {
     L \<leftarrow> bcd_io_event_remove_from_ready_list i L;
     Some (if ctl then 0 else -1, L)
   }"

text \<open>The loop of \<open>bcd_io_enter\<close> over the events \<open>epoll_wait\<close> returned.\<close>

fun epoll_collect :: "(nat \<times> u32) list \<Rightarrow> 'p io_loop \<Rightarrow> 'p io_loop option" where
  "epoll_collect [] L = Some L"
| "epoll_collect ((i, events) # evs) L = do {
     L \<leftarrow> update_event i (\<lambda>ev. ev\<lparr>ev_mask := or (ev_mask ev) events\<rparr>) L;
     L \<leftarrow> bcd_io_event_add_to_ready_list i L;
     epoll_collect evs L
   }"

text \<open>\<open>TAILQ_NEXT\<close>: the element behind one that is in the queue.\<close>

fun next_ready :: "nat \<Rightarrow> nat list \<Rightarrow> nat option" where
  "next_ready i [] = None"
| "next_ready i (j # js) = (if i = j then (case js of [] \<Rightarrow> None | k # _ \<Rightarrow> Some k) else next_ready i js)"

text \<open>
  \<open>bcd_io_event_dispatch_ready_list\<close>: the successor is read before the handler runs, and is
  used after it. A handler can add events behind it, so the loop need not end.
\<close>

partial_function (option) dispatch_from ::
    "(nat \<Rightarrow> 'p io_loop \<times> 'w \<Rightarrow> ('p io_loop \<times> 'w) option) \<Rightarrow> nat option \<Rightarrow> 'p io_loop \<times> 'w \<Rightarrow>
     ('p io_loop \<times> 'w) option" where
  "dispatch_from h cur s =
     (case cur of
        None \<Rightarrow> Some s
      | Some i \<Rightarrow>
          if io_events (fst s) i = None then None
          else (let nxt = next_ready i (readyevents (fst s))
                in Option.bind (h i s) (dispatch_from h nxt)))"

definition bcd_io_event_dispatch_ready_list ::
    "(nat \<Rightarrow> 'p io_loop \<times> 'w \<Rightarrow> ('p io_loop \<times> 'w) option) \<Rightarrow> 'p io_loop \<times> 'w \<Rightarrow>
     ('p io_loop \<times> 'w) option" where
  "bcd_io_event_dispatch_ready_list h s =
     dispatch_from h (case readyevents (fst s) of [] \<Rightarrow> None | i # _ \<Rightarrow> Some i) s"

section \<open>The queue and the flags agree\<close>

definition ready_ok :: "'p io_loop \<Rightarrow> bool" where
  "ready_ok L \<longleftrightarrow> distinct (readyevents L) \<and>
     (\<forall>i. i \<in> set (readyevents L) \<longleftrightarrow> (\<exists>ev. io_events L i = Some ev \<and> ev_in_ready ev))"

named_theorems event_defs

declare update_event_def [event_defs] bcd_io_event_unset_def [event_defs]
  bcd_io_event_create_def [event_defs] bcd_io_event_destroy_def [event_defs]
  bcd_io_event_add_to_ready_list_def [event_defs]
  bcd_io_event_remove_from_ready_list_def [event_defs] bcd_io_event_add_def [event_defs]
  bcd_io_event_remove_def [event_defs]

lemma update_event_ready:
  assumes "ready_ok L" and "update_event i f L = Some L'" and "\<And>ev. ev_in_ready (f ev) = ev_in_ready ev"
  shows "ready_ok L'"
  using assms by (auto simp: ready_ok_def update_event_def split: option.splits if_splits)

lemma add_to_ready:
  assumes "ready_ok L" and "io_events L i = Some ev"
  shows "\<exists>L' ev'. bcd_io_event_add_to_ready_list i L = Some L' \<and> ready_ok L' \<and>
    set (readyevents L') = insert i (set (readyevents L)) \<and>
    dom (io_events L') = dom (io_events L) \<and> io_events L' i = Some (ev\<lparr>ev_in_ready := True\<rparr>) \<and>
    (\<forall>j. j \<noteq> i \<longrightarrow> io_events L' j = io_events L j)"
proof (cases "ev_in_ready ev")
  case True
  moreover have "i \<in> set (readyevents L)"
    using assms True by (auto simp: ready_ok_def)
  moreover have "ev\<lparr>ev_in_ready := True\<rparr> = ev"
    using True by (cases ev) simp
  ultimately show ?thesis
    using assms by (auto simp: event_defs)
next
  case False
  moreover have "i \<notin> set (readyevents L)"
    using assms False by (auto simp: ready_ok_def)
  ultimately show ?thesis
    using assms by (auto simp: event_defs ready_ok_def)
qed

lemma remove_from_ready:
  assumes "ready_ok L" and "io_events L i = Some ev"
  shows "\<exists>L'. bcd_io_event_remove_from_ready_list i L = Some L' \<and> ready_ok L' \<and>
    readyevents L' = remove1 i (readyevents L) \<and> i \<notin> set (readyevents L') \<and>
    io_events L' = (io_events L)(i \<mapsto> ev\<lparr>ev_in_ready := False\<rparr>)"
proof (cases "ev_in_ready ev")
  case True
  then show ?thesis
    using assms by (auto simp: event_defs ready_ok_def set_remove1_eq)
next
  case False
  moreover have "i \<notin> set (readyevents L)"
    using assms False by (auto simp: ready_ok_def)
  moreover have "ev\<lparr>ev_in_ready := False\<rparr> = ev"
    using False by (cases ev) simp
  ultimately show ?thesis
    using assms by (auto simp: event_defs remove1_idem fun_upd_idem)
qed

text \<open>
  Every operation of the event list keeps the queue duplicate-free and equal to the set of
  flagged events: creating a new event, changing a mask, adding, removing, and destroying an
  event that has left the queue.
\<close>

theorem ready_list_invariant:
  assumes "ready_ok L" and "io_events L i = Some ev" and "io_events L new = None"
  shows "ready_ok (snd (bcd_io_event_create (Some new) fd p L)) \<and>
    (\<exists>L'. bcd_io_event_unset i msk L = Some L' \<and> ready_ok L') \<and>
    (\<exists>r L'. bcd_io_event_add ctl i L = Some (r, L') \<and> ready_ok L') \<and>
    (\<exists>r L'. bcd_io_event_remove ctl i L = Some (r, L') \<and> ready_ok L' \<and>
      ready_ok (bcd_io_event_destroy (Some i) L'))"
proof (intro conjI)
  show "ready_ok (snd (bcd_io_event_create (Some new) fd p L))"
    using assms(1,3) by (auto simp: ready_ok_def event_defs)
  show "\<exists>L'. bcd_io_event_unset i msk L = Some L' \<and> ready_ok L'"
    using assms by (auto simp: bcd_io_event_unset_def update_event_def intro!: update_event_ready [of L i])
  show "\<exists>r L'. bcd_io_event_add ctl i L = Some (r, L') \<and> ready_ok L'"
    using add_to_ready [OF assms(1,2)] assms(1,2) by (auto simp: bcd_io_event_add_def)
  obtain L' where "bcd_io_event_remove_from_ready_list i L = Some L'" "ready_ok L'"
      "i \<notin> set (readyevents L')"
    using remove_from_ready [OF assms(1,2)] by blast
  then show "\<exists>r L'. bcd_io_event_remove ctl i L = Some (r, L') \<and> ready_ok L' \<and>
      ready_ok (bcd_io_event_destroy (Some i) L')"
    by (auto simp: bcd_io_event_remove_def ready_ok_def bcd_io_event_destroy_def)
qed

section \<open>Dispatch\<close>

text \<open>The handlers of a list of events, one after another.\<close>

primrec run_all ::
    "(nat \<Rightarrow> 'p io_loop \<times> 'w \<Rightarrow> ('p io_loop \<times> 'w) option) \<Rightarrow> nat list \<Rightarrow> 'p io_loop \<times> 'w \<Rightarrow>
     ('p io_loop \<times> 'w) option" where
  "run_all h [] s = Some s"
| "run_all h (i # is) s = Option.bind (h i s) (run_all h is)"

lemma next_ready_split:
  "distinct (pre @ i # rest) \<Longrightarrow>
    next_ready i (pre @ i # rest) = (case rest of [] \<Rightarrow> None | k # _ \<Rightarrow> Some k)"
  by (induction pre) auto

text \<open>
  What a handler may do to the queue while it runs, in states that satisfy \<open>I\<close>: leave it or
  take its own event out, and keep every other event alive. The client and the pipe handlers
  behave like this; the listener's does while it accepts nothing.
\<close>

locale queue_handler =
  fixes I :: "'p io_loop \<times> 'w \<Rightarrow> bool"
    and h :: "nat \<Rightarrow> 'p io_loop \<times> 'w \<Rightarrow> ('p io_loop \<times> 'w) option"
  assumes keeps: "I (L, w) \<Longrightarrow> i \<in> set (readyevents L) \<Longrightarrow> h i (L, w) = Some (L', w') \<Longrightarrow> I (L', w')"
    and own_entry: "I (L, w) \<Longrightarrow> i \<in> set (readyevents L) \<Longrightarrow> h i (L, w) = Some (L', w') \<Longrightarrow>
      readyevents L' = readyevents L \<or> readyevents L' = remove1 i (readyevents L)"
    and others_live: "I (L, w) \<Longrightarrow> i \<in> set (readyevents L) \<Longrightarrow> h i (L, w) = Some (L', w') \<Longrightarrow>
      j \<noteq> i \<Longrightarrow> io_events L j \<noteq> None \<Longrightarrow> io_events L' j \<noteq> None"

begin

lemma dispatch_from_run_all:
  assumes "I s" and "readyevents (fst s) = pre @ rest" and "distinct (pre @ rest)"
    and "\<And>i. i \<in> set rest \<Longrightarrow> io_events (fst s) i \<noteq> None"
  shows "dispatch_from h (case rest of [] \<Rightarrow> None | k # _ \<Rightarrow> Some k) s = run_all h rest s"
  using assms
proof (induction rest arbitrary: pre s)
  case Nil
  then show ?case by (simp add: dispatch_from.simps)
next
  case (Cons i rest)
  obtain L w where s: "s = (L, w)" by (cases s)
  have alive: "io_events L i \<noteq> None"
    using Cons.prems(4) [of i] s by simp
  have nxt: "next_ready i (readyevents L) = (case rest of [] \<Rightarrow> None | k # _ \<Rightarrow> Some k)"
    using Cons.prems(2,3) s next_ready_split [of pre i rest] by simp
  note step = dispatch_from.simps [of h "Some i" "(L, w)"]
  show ?case
  proof (cases "h i (L, w)")
    case None
    with alive show ?thesis by (simp add: step s Let_def)
  next
    case (Some s')
    obtain L' w' where s': "s' = (L', w')" by (cases s')
    have i: "I (L, w)" "i \<in> set (readyevents L)"
      using Cons.prems(1,2) s by simp_all
    note kept = keeps [OF i Some [unfolded s']] own_entry [OF i Some [unfolded s']]
      others_live [OF i Some [unfolded s']]
    have "\<exists>pre'. readyevents L' = pre' @ rest \<and> distinct (pre' @ rest)"
      using kept(2) Cons.prems(2,3) s by (auto simp: remove1_append)
    then obtain pre' where pre': "readyevents (fst (L', w')) = pre' @ rest" "distinct (pre' @ rest)"
      by auto
    have "io_events (fst (L', w')) j \<noteq> None" if "j \<in> set rest" for j
      using kept(3) [of j] that Cons.prems(3) Cons.prems(4) [of j] s by auto
    from Cons.IH [OF kept(1) pre' this] show ?thesis
      using Some s' nxt alive by (auto simp add: step s Let_def)
  qed
qed

lemma dispatch_run_all:
  assumes "I (L, w)" and "ready_ok L"
  shows "bcd_io_event_dispatch_ready_list h (L, w) = run_all h (readyevents L) (L, w)"
proof -
  have "io_events L i \<noteq> None" if "i \<in> set (readyevents L)" for i
    using assms(2) that by (auto simp: ready_ok_def)
  then show ?thesis
    using dispatch_from_run_all [of "(L, w)" "[]" "readyevents L"] assms
    by (simp add: ready_ok_def bcd_io_event_dispatch_ready_list_def)
qed

end

text \<open>
  C35: one round of the event loop runs the handler of every ready event exactly once, in
  queue order, for handlers that leave the queue as it is or take their own entry out of it
  while it is traversed, and keep the other events alive. The right side is a recursion over
  the queue as it was: the round ends. A handler that appends events, as the listener's does
  when it accepts a connection, is not covered.
\<close>

theorem dispatch_runs_each_once:
  assumes "queue_handler I h" and "I (L, w)" and "ready_ok L"
  shows "bcd_io_event_dispatch_ready_list h (L, w) = run_all h (readyevents L) (L, w)"
  by (rule queue_handler.dispatch_run_all [OF assms])

text \<open>
  Two events whose handlers take themselves out and record their visit.
\<close>

definition visit :: "nat \<Rightarrow> unit io_loop \<times> nat list \<Rightarrow> (unit io_loop \<times> nat list) option" where
  "visit i s = map_option (\<lambda>L. (L, snd s @ [i])) (bcd_io_event_remove_from_ready_list i (fst s))"

definition two_events :: "unit io_loop" where
  "two_events = \<lparr>io_events = (\<lambda>i. if i < 2 then Some \<lparr>ev_fd = 3, ev_mask = 1, ev_in_ready = True,
      ev_payload = ()\<rparr> else None), readyevents = [1, 0]\<rparr>"

interpretation visits: queue_handler "\<lambda>_. True" visit
  by unfold_locales
    (auto simp: visit_def event_defs bind_eq_Some_conv split: option.splits if_splits)

lemma ready_ok_two_events: "ready_ok two_events"
  by (auto simp: ready_ok_def two_events_def)

theorem dispatch_runs_each_once_witness:
  "map_option snd (bcd_io_event_dispatch_ready_list visit (two_events, [])) = Some [1, 0]"
  using dispatch_runs_each_once [OF visits.queue_handler_axioms TrueI ready_ok_two_events, of "[]"]
  by (simp add: two_events_def visit_def event_defs)

theorem ready_list_invariant_witness:
  "\<exists>r L'. bcd_io_event_remove True 0 two_events = Some (r, L') \<and> ready_ok L' \<and>
    ready_ok (bcd_io_event_destroy (Some 0) L')"
  using ready_list_invariant [OF ready_ok_two_events, of 0 _ 2] by (simp add: two_events_def)

end
