(* ===== verification/Bcd_KV.thy ===== *)
theory Bcd_KV
  imports Bcd_Base "HOL-Library.Multiset"
begin

text \<open>
  The monitor's two lists (\<open>bcd_kv_set\<close>, \<open>bcd_arg_set\<close>): key-value pairs, newest first, and
  tracer arguments, oldest first. Both keep one element per key, their number and the bytes
  they need when they are printed. The locale \<open>tracked_list\<close> is what they share; its
  interpretations give that after any number of requests a key has the value set last.
\<close>

section \<open>Lists with one element per key\<close>

lemma extract_filter:
  assumes "List.extract P xs = Some (ys, x, zs)" and "distinct (map k xs)"
    and "\<And>y. P y \<longleftrightarrow> k y = c"
  shows "ys @ zs = filter (\<lambda>y. k y \<noteq> c) xs" and "k x = c" and "xs = ys @ x # zs"
proof -
  show xs: "xs = ys @ x # zs"
    using assms(1) by (simp add: extract_Some_iff)
  have "P x" using assms(1) by (simp add: extract_Some_iff)
  then show x: "k x = c" using assms(3) by simp
  have "k x \<notin> k ` set ys" and "k x \<notin> k ` set zs"
    using assms(2) unfolding xs by auto
  then have "filter (\<lambda>y. k y \<noteq> c) ys = ys" and "filter (\<lambda>y. k y \<noteq> c) zs = zs"
    unfolding x by (metis (mono_tags, lifting) filter_True image_eqI)+
  then show "ys @ zs = filter (\<lambda>y. k y \<noteq> c) xs"
    unfolding xs using x by simp
qed

definition keyed :: "('a \<Rightarrow> 'k) \<Rightarrow> 'a list \<Rightarrow> 'k \<Rightarrow> 'a option" where
  "keyed key xs = map_of (map (\<lambda>a. (key a, a)) xs)"

text \<open>
  \<open>tracked_list\<close>: a state with a list of elements, a key and a printed size for each, a
  counter and a byte count. Its laws: in a tracked state, an addition replaces the element
  with the same key and keeps both counts.
\<close>

locale tracked_list =
  fixes elems :: "'s \<Rightarrow> 'a list"
    and key :: "'a \<Rightarrow> 'k"
    and weight :: "'a \<Rightarrow> nat"
    and count :: "'s \<Rightarrow> u64"
    and bytes :: "'s \<Rightarrow> u64"
    and add :: "'a \<Rightarrow> 's \<Rightarrow> 's"
    and tracked :: "'s \<Rightarrow> bool"
  assumes tracked_iff: "tracked s \<longleftrightarrow> distinct (map key (elems s)) \<and>
      count s = of_nat (length (elems s)) \<and> bytes s = of_nat (sum_list (map weight (elems s)))"
    and add_elems: "tracked s \<Longrightarrow> length (elems s) < 2 ^ 64 \<Longrightarrow>
      mset (elems (add a s)) = add_mset a (filter_mset (\<lambda>b. key b \<noteq> key a) (mset (elems s)))"
    and add_counts: "tracked s \<Longrightarrow> length (elems s) < 2 ^ 64 \<Longrightarrow>
      count (add a s) = of_nat (length (elems (add a s))) \<and>
      bytes (add a s) = of_nat (sum_list (map weight (elems (add a s))))"
begin

lemma add_set:
  "tracked s \<Longrightarrow> length (elems s) < 2 ^ 64 \<Longrightarrow>
    set (elems (add a s)) = insert a {b \<in> set (elems s). key b \<noteq> key a}"
  using arg_cong [where f = set_mset, OF add_elems, of s a] by simp

lemma add_tracked:
  assumes "tracked s" and "length (elems s) < 2 ^ 64"
  shows "tracked (add a s)"
proof -
  have "image_mset key (mset (elems (add a s))) =
      add_mset (key a) (image_mset key (mset (filter (\<lambda>b. key b \<noteq> key a) (elems s))))"
    using add_elems [OF assms] by simp
  then have m: "mset (map key (elems (add a s))) =
      mset (key a # map key (filter (\<lambda>b. key b \<noteq> key a) (elems s)))"
    by simp
  have "distinct (key a # map key (filter (\<lambda>b. key b \<noteq> key a) (elems s)))"
    using assms(1) by (auto simp: tracked_iff distinct_map_filter)
  then have "distinct (map key (elems (add a s)))"
    using mset_eq_imp_distinct_iff [OF m] by simp
  with add_counts [OF assms] show ?thesis
    by (simp add: tracked_iff)
qed

lemma keyed_iff: "tracked s \<Longrightarrow> keyed key (elems s) k = Some a \<longleftrightarrow> a \<in> set (elems s) \<and> key a = k"
  by (auto simp: keyed_def tracked_iff map_of_eq_Some_iff comp_def)

lemma add_keyed:
  assumes "tracked s" and "length (elems s) < 2 ^ 64"
  shows "keyed key (elems (add a s)) = (keyed key (elems s))(key a \<mapsto> a)"
proof
  fix k
  have iff: "keyed key (elems (add a s)) k = Some b \<longleftrightarrow> ((keyed key (elems s))(key a \<mapsto> a)) k = Some b" for b
    using keyed_iff [OF add_tracked [OF assms]] keyed_iff [OF assms(1)] add_set [OF assms]
    by auto
  show "keyed key (elems (add a s)) k = ((keyed key (elems s))(key a \<mapsto> a)) k"
    by (cases "keyed key (elems (add a s)) k"; cases "((keyed key (elems s))(key a \<mapsto> a)) k") (use iff in auto)
qed

lemma add_length:
  "tracked s \<Longrightarrow> length (elems s) < 2 ^ 64 \<Longrightarrow> length (elems (add a s)) \<le> Suc (length (elems s))"
proof -
  assume "tracked s" and "length (elems s) < 2 ^ 64"
  from arg_cong [where f = size, OF add_elems [OF this, of a]]
  have "length (elems (add a s)) = Suc (size (filter_mset (\<lambda>b. key b \<noteq> key a) (mset (elems s))))"
    by simp
  also have "\<dots> \<le> Suc (length (elems s))"
    using size_filter_mset_lesseq [of _ "mset (elems s)"] by simp
  finally show ?thesis .
qed

text \<open>Any number of additions: the last one for a key counts.\<close>

lemma fold_add:
  assumes "tracked s" and "length (elems s) + length as \<le> 2 ^ 64"
  shows "tracked (fold add as s) \<and>
    keyed key (elems (fold add as s)) = keyed key (elems s) ++ map_of (rev (map (\<lambda>a. (key a, a)) as)) \<and>
    length (elems (fold add as s)) \<le> length (elems s) + length as"
  using assms
proof (induction as arbitrary: s)
  case Nil
  then show ?case by simp
next
  case (Cons a as)
  have small: "length (elems s) < 2 ^ 64"
    using Cons.prems(2) by simp
  have "tracked (add a s)" and len: "length (elems (add a s)) \<le> Suc (length (elems s))"
    using add_tracked add_length Cons.prems(1) small by auto
  with Cons.IH [of "add a s"] Cons.prems(2) have IH: "tracked (fold add (a # as) s)"
    "keyed key (elems (fold add (a # as) s)) =
       keyed key (elems (add a s)) ++ map_of (rev (map (\<lambda>a. (key a, a)) as))"
    "length (elems (fold add (a # as) s)) \<le> length (elems s) + length (a # as)"
    by auto
  have "keyed key (elems (add a s)) ++ map_of (rev (map (\<lambda>a. (key a, a)) as)) =
      keyed key (elems s) ++ map_of (rev (map (\<lambda>a. (key a, a)) (a # as)))"
    by (rule ext) (simp add: add_keyed [OF Cons.prems(1) small] map_add_def split: option.split)
  with IH show ?case by simp
qed

end

section \<open>Key-value pairs\<close>

definition kv_weight :: "kv_pair \<Rightarrow> nat" where
  "kv_weight kv = length (kv_key kv) + length (kv_value kv) + 1"

text \<open>The \<open>LIST_FOREACH\<close> that unlinks the first pair with the key.\<close>

definition kv_unlink :: "cstr \<Rightarrow> bcd_monitor \<Rightarrow> bcd_monitor" where
  "kv_unlink k st =
     (case List.extract (\<lambda>kv. kv_key kv = k) (kv_list st) of
        None \<Rightarrow> st
      | Some (ys, kv, zs) \<Rightarrow>
          st\<lparr>kv_list := ys @ zs,
             kv_length := kv_length st - of_nat (kv_weight kv),
             kv_count := kv_count st - 1\<rparr>)"

text \<open>The list operations of \<open>bcd_kv_set\<close>, after its checks.\<close>

definition kv_insert :: "kv_pair \<Rightarrow> bcd_monitor \<Rightarrow> bcd_monitor" where
  "kv_insert kv st =
     (let st = (if kv_count st = 0 then st\<lparr>kv_list := []\<rparr> else st);
          st = kv_unlink (kv_key kv) st
      in st\<lparr>kv_list := kv # kv_list st,
            kv_count := kv_count st + 1,
            kv_length := kv_length st + of_nat (kv_weight kv)\<rparr>)"

text \<open>
  \<open>bcd_kv_set\<close>: \<open>malloc\<close> is the \<open>errno\<close> of a failed allocation, if it fails. Pointers are
  offsets in the session's packet; the payload starts at \<open>sizeof_packet\<close>. The subtraction
  \<open>packet->length - k_l - 1\<close> cannot wrap, since the zero was found within the length.
\<close>

definition bcd_kv_set ::
    "int option \<Rightarrow> bcd_session \<Rightarrow> bcd_monitor \<Rightarrow> (int \<times> bcd_monitor) option" where
  "bcd_kv_set malloc s st = do {
     let pkt = se_packet s;
     let key = sizeof_packet;
     let fail = bcd_error BCD_EVENT_METADATA (Some s) ''malformed key-value pair'' 0 st;
     first \<leftarrow> load pkt key 1;
     if first = [0] then Some fail
     else do {
       len \<leftarrow> packet_length pkt;
       value \<leftarrow> memchr0 pkt key (unat len);
       case value of
         None \<Rightarrow> Some fail
       | Some value \<Rightarrow> do {
           let k_l = value - key;
           let value = value + 1;
           e \<leftarrow> memchr0 pkt value (unat len - k_l - 1);
           case e of
             None \<Rightarrow> Some fail
           | Some e \<Rightarrow> do {
               let v_l = e - value;
               if key + unat len \<le> value then Some fail
               else case malloc of
                 Some errno \<Rightarrow> Some (bcd_error BCD_EVENT_METADATA (Some s)
                     ''internal memory allocation error'' errno st)
               | None \<Rightarrow> do {
                   k \<leftarrow> load pkt key k_l;
                   v \<leftarrow> load pkt value v_l;
                   Some (0, kv_insert \<lparr>kv_key = k, kv_value = v\<rparr> st)
                 }
             }
         }
     }
   }"

text \<open>The state of the list, and what it means.\<close>

definition kv_ok :: "bcd_monitor \<Rightarrow> bool" where
  "kv_ok st \<longleftrightarrow> distinct (map kv_key (kv_list st)) \<and>
     kv_count st = of_nat (length (kv_list st)) \<and>
     kv_length st = of_nat (sum_list (map kv_weight (kv_list st)))"

definition kv_map :: "bcd_monitor \<Rightarrow> cstr \<Rightarrow> cstr option" where
  "kv_map st k = map_option kv_value (keyed kv_key (kv_list st) k)"

text \<open>The list a successful request leaves.\<close>

lemma count_zero_Nil:
  "(of_nat (length xs) :: u64) = 0 \<Longrightarrow> length xs < 2 ^ 64 \<Longrightarrow> xs = []"
  by (auto simp: word_of_nat_eq_0_iff dest: nat_dvd_not_less)

lemma kv_insert_eq:
  assumes "kv_ok st" and "length (kv_list st) < 2 ^ 64"
  shows "kv_insert kv st = st\<lparr>
     kv_list := kv # filter (\<lambda>p. kv_key p \<noteq> kv_key kv) (kv_list st),
     kv_count := of_nat (Suc (length (filter (\<lambda>p. kv_key p \<noteq> kv_key kv) (kv_list st)))),
     kv_length := of_nat (kv_weight kv +
       sum_list (map kv_weight (filter (\<lambda>p. kv_key p \<noteq> kv_key kv) (kv_list st))))\<rparr>"
proof -
  have init: "(if kv_count st = 0 then st\<lparr>kv_list := []\<rparr> else st) = st"
    using assms count_zero_Nil [of "kv_list st"] by (auto simp: kv_ok_def)
  show ?thesis
  proof (cases "List.extract (\<lambda>p. kv_key p = kv_key kv) (kv_list st)")
    case None
    then have rest: "filter (\<lambda>p. kv_key p \<noteq> kv_key kv) (kv_list st) = kv_list st"
      unfolding extract_None_iff by (simp add: filter_id_conv)
    have c: "kv_count st + 1 = of_nat (Suc (length (kv_list st)))"
      and l: "kv_length st + of_nat (kv_weight kv) =
        of_nat (kv_weight kv + sum_list (map kv_weight (kv_list st)))"
      using assms(1) by (simp_all add: kv_ok_def)
    have "kv_unlink (kv_key kv) st = st"
      by (simp add: kv_unlink_def None)
    then show ?thesis
      unfolding kv_insert_def init rest Let_def c [symmetric] l [symmetric] by simp
  next
    case (Some r)
    obtain ys p zs where r: "r = (ys, p, zs)"
      by (cases r)
    note split = extract_filter [where k = kv_key and c = "kv_key kv", OF Some [unfolded r]]
    have rest: "filter (\<lambda>p. kv_key p \<noteq> kv_key kv) (kv_list st) = ys @ zs"
      and list: "kv_list st = ys @ p # zs"
      using split assms(1) by (auto simp: kv_ok_def)
    have c: "kv_count st - 1 + 1 = of_nat (Suc (length (ys @ zs)))"
      using assms(1) by (simp add: kv_ok_def list)
    have l: "kv_length st - of_nat (kv_weight p) + of_nat (kv_weight kv) =
        of_nat (kv_weight kv + sum_list (map kv_weight (ys @ zs)))"
      using assms(1) by (simp add: kv_ok_def list)
    have "kv_unlink (kv_key kv) st = st\<lparr>kv_list := ys @ zs,
        kv_length := kv_length st - of_nat (kv_weight p), kv_count := kv_count st - 1\<rparr>"
      by (simp add: kv_unlink_def Some r)
    then show ?thesis
      unfolding kv_insert_def init rest Let_def c [symmetric] l [symmetric] by simp
  qed
qed

interpretation kvs: tracked_list kv_list kv_key kv_weight kv_count kv_length kv_insert kv_ok
proof unfold_locales
  fix st kv
  assume "kv_ok st" and "length (kv_list st) < 2 ^ 64"
  note eq = kv_insert_eq [OF this, of kv]
  show "mset (kv_list (kv_insert kv st)) =
      add_mset kv (filter_mset (\<lambda>p. kv_key p \<noteq> kv_key kv) (mset (kv_list st)))"
    by (simp add: eq)
  show "kv_count (kv_insert kv st) = of_nat (length (kv_list (kv_insert kv st))) \<and>
      kv_length (kv_insert kv st) = of_nat (sum_list (map kv_weight (kv_list (kv_insert kv st))))"
    by (simp add: eq)
qed (rule kv_ok_def)

section \<open>Requests\<close>

text \<open>What a key-value request means: two C strings, the first not empty.\<close>

definition kv_parse :: "byte list \<Rightarrow> (cstr \<times> cstr) option" where
  "kv_parse bs =
     (let k = nonzero_prefix bs; rest = drop (length k + 1) bs; v = nonzero_prefix rest
      in if k \<noteq> [] \<and> length k < length bs \<and> length v < length rest then Some (k, v) else None)"

lemma kv_parse_print:
  "cstr_ok k \<Longrightarrow> cstr_ok v \<Longrightarrow> k \<noteq> [] \<Longrightarrow> kv_parse (k @ 0 # v @ 0 # bs) = Some (k, v)"
  by (simp add: kv_parse_def nonzero_prefix_cstr)

lemma bcd_kv_set_parse:
  assumes "packet_ok s"
  shows "bcd_kv_set malloc s st = Some
    (case kv_parse (se_payload s) of
       None \<Rightarrow> bcd_error BCD_EVENT_METADATA (Some s) ''malformed key-value pair'' 0 st
     | Some (k, v) \<Rightarrow>
         (case malloc of
            Some errno \<Rightarrow> bcd_error BCD_EVENT_METADATA (Some s)
              ''internal memory allocation error'' errno st
          | None \<Rightarrow> (0, kv_insert \<lparr>kv_key = k, kv_value = v\<rparr> st)))"
proof -
  obtain n where n: "packet_length (se_packet s) = Some n" "unat n \<le> 1024"
      and len: "length (se_packet s) = 1032"
      and p: "take (unat n) (drop 8 (se_packet s)) = se_payload s" and lp: "length (se_payload s) = unat n"
    using packet_okE [OF assms] by metis
  let ?pkt = "se_packet s" and ?k = "nonzero_prefix (se_payload s)"
  let ?rest = "drop (length ?k + 1) (se_payload s)"
  let ?v = "nonzero_prefix ?rest"
  have first: "load ?pkt 8 (Suc 0) = Some [?pkt ! 8]"
    using len by (simp add: load_def take_Suc_conv_app_nth)
  have lk: "length ?k \<le> unat n"
    using length_nonzero_prefix [of "se_payload s"] lp by simp
  have empty: "?k = [] \<longleftrightarrow> ?pkt ! 8 = 0" if "unat n \<noteq> 0"
  proof -
    have "se_payload s \<noteq> []" and "hd (se_payload s) = ?pkt ! 8"
      using that lp len by (auto simp: hd_drop_conv_nth simp flip: p)
    then show ?thesis
      by (cases "se_payload s") (auto simp: nonzero_prefix_def)
  qed
  have c1: "memchr0 ?pkt 8 (unat n) = Some (if length ?k < unat n then Some (8 + length ?k) else None)"
    using n(2) len by (subst memchr0_inside) (simp_all add: p)
  have rest: "take (unat n - length ?k - 1) (drop (8 + length ?k + 1) ?pkt) = ?rest"
    by (simp add: p [symmetric] drop_take add.commute add.left_commute)
  have c2: "memchr0 ?pkt (8 + length ?k + 1) (unat n - length ?k - 1) =
      Some (if length ?v < unat n - length ?k - 1 then Some (8 + length ?k + 1 + length ?v) else None)"
    if "length ?k < unat n"
    using n(2) len that by (subst memchr0_inside) (simp_all add: rest [simplified])
  have lk': "load ?pkt 8 (length ?k) = Some ?k"
    using p n(2) len by (intro load_nonzero_prefix) simp_all
  have lv: "load ?pkt (8 + length ?k + 1) (length ?v) = Some ?v"
    if "length ?k < unat n"
    using that n(2) len by (intro load_nonzero_prefix [OF rest]) simp
  have zero: "?k = []" if "unat n = 0"
    using lk that by simp
  show ?thesis
  proof (cases "?pkt ! 8 = 0")
    case True
    then have "?k = []"
      using empty zero by blast
    with True show ?thesis
      by (simp add: bcd_kv_set_def kv_parse_def sizeof_packet_def Let_def first)
  next
    case False
    show ?thesis
    proof (cases "length ?k < unat n")
      case no_key: False
      with False show ?thesis
        by (simp add: bcd_kv_set_def kv_parse_def sizeof_packet_def Let_def first n(1) c1 lp)
    next
      case key: True
      then have "?k \<noteq> []"
        using False empty by auto
      with False key show ?thesis
        using c2 [OF key] lv [OF key] lk' 
        by (simp add: bcd_kv_set_def kv_parse_def sizeof_packet_def Let_def first n(1) c1 lp
            split: option.split)
    qed
  qed
qed

lemma kv_map_insert:
  assumes "kv_ok st" and "length (kv_list st) < 2 ^ 64"
  shows "kv_map (kv_insert kv st) = (kv_map st)(kv_key kv \<mapsto> kv_value kv)"
  using kvs.add_keyed [OF assms, of kv] by (auto simp: kv_map_def)

lemma kv_ok_reports: "kv_ok (st\<lparr>reports := rs\<rparr>) = kv_ok st"
  by (simp add: kv_ok_def)

lemma kv_map_reports: "kv_map (st\<lparr>reports := rs\<rparr>) = kv_map st"
  by (simp add: kv_map_def fun_eq_iff)

text \<open>
  C19: a key-value request is exactly an update of a map. For every complete packet, whatever
  its bytes, \<open>bcd_kv_set\<close> stays inside the packet; it accepts the payloads \<open>kv_parse\<close> reads
  and then maps the key to the value, with the pair at the head of the list; otherwise it
  reports one error and changes nothing. The list stays duplicate-free and its count and byte
  count stay right.
\<close>

theorem bcd_kv_set_refines:
  assumes "packet_ok s" and "kv_ok st" and "length (kv_list st) < 2 ^ 64"
  shows "\<exists>r st'. bcd_kv_set malloc s st = Some (r, st') \<and> kv_ok st' \<and>
    (case (kv_parse (se_payload s), malloc) of
       (Some (k, v), None) \<Rightarrow> r = 0 \<and> kv_map st' = (kv_map st)(k \<mapsto> v) \<and>
          hd (kv_list st') = \<lparr>kv_key = k, kv_value = v\<rparr> \<and> reports st' = reports st
     | _ \<Rightarrow> r = -1 \<and> kv_map st' = kv_map st \<and> kv_list st' = kv_list st \<and>
          length (reports st') = Suc (length (reports st)))"
proof -
  note ins = kvs.add_tracked [OF assms(2,3)] kv_map_insert [OF assms(2,3)] kv_insert_eq [OF assms(2,3)]
  show ?thesis
  proof (cases "\<exists>kv. kv_parse (se_payload s) = Some kv \<and> malloc = None")
    case True
    then obtain k v where kv: "kv_parse (se_payload s) = Some (k, v)" and m: "malloc = None"
      by auto
    show ?thesis
      unfolding bcd_kv_set_parse [OF assms(1)] kv m using ins [of "\<lparr>kv_key = k, kv_value = v\<rparr>"]
      by simp
  next
    case False
    then show ?thesis
      unfolding bcd_kv_set_parse [OF assms(1)] using assms(2)
      by (auto simp: bcd_error_def kv_ok_reports kv_map_reports split: option.splits)
  qed
qed

lemma kv_ok_start: "kv_ok (start_monitor cf pid)"
  by (simp add: kv_ok_def start_monitor_def)

theorem bcd_kv_set_refines_witness:
  "\<exists>r st'. bcd_kv_set None (hold_packet zero_session BCD_OP_KV [97, 0, 98, 0]) (example_start)
       = Some (r, st') \<and> r = 0 \<and> kv_map st' = [[97] \<mapsto> [98]] \<and> kv_ok st'"
proof -
  note h = hold_packet_fields [OF session_ok_zero, of "[97, 0, 98, 0]" BCD_OP_KV]
  have p: "kv_parse [97, 0, 98, 0] = Some ([97], [98])"
    using kv_parse_print [of "[97]" "[98]" "[]"] by (simp add: cstr_ok_def)
  have m: "kv_map (example_start) = Map.empty"
    by (simp add: kv_map_def keyed_def start_monitor_def fun_eq_iff)
  show ?thesis
    using bcd_kv_set_refines [of "hold_packet zero_session BCD_OP_KV [97, 0, 98, 0]" "example_start" None]
      h kv_ok_start
    by (auto simp: p m BCD_PACKET_LIMIT_def)
qed

text \<open>The requests of a session, one after another.\<close>

definition kv_requests :: "(cstr \<times> cstr) list \<Rightarrow> bcd_monitor \<Rightarrow> bcd_monitor" where
  "kv_requests kvs st = fold (\<lambda>(k, v). kv_insert \<lparr>kv_key = k, kv_value = v\<rparr>) kvs st"

text \<open>
  After any sequence of accepted key-value requests the monitor's list holds each key once
  with its last value; the counts are those of the list.
\<close>

theorem kv_requests_last:
  assumes "length kvs \<le> 2 ^ 64"
  shows "kv_ok (kv_requests kvs (start_monitor cf pid)) \<and>
    kv_map (kv_requests kvs (start_monitor cf pid)) = map_of (rev kvs)"
proof -
  let ?rec = "\<lambda>(k, v). \<lparr>kv_key = k, kv_value = v\<rparr>"
  have run: "kv_requests kvs st = fold kv_insert (map ?rec kvs) st" for st
    by (simp add: kv_requests_def fold_map comp_def split_def)
  note f = kvs.fold_add [of "start_monitor cf pid" "map ?rec kvs", OF kv_ok_start]
  have "map_option kv_value (map_of (map (\<lambda>kv. (kv_key kv, kv)) (map ?rec ps)) k) = map_of ps k" for ps k
    by (induction ps) auto
  from this [of "rev kvs"] show ?thesis
    unfolding run using f assms
    by (simp add: kv_map_def start_monitor_lists keyed_def rev_map fun_eq_iff)
qed

theorem kv_requests_last_witness:
  "kv_map (kv_requests [([97], [1]), ([98], [2]), ([97], [3])] (example_start)) [97] = Some [3]"
  using kv_requests_last [of "[([97], [1]), ([98], [2]), ([97], [3])]" "bcd_config_init_v1 1" 5] by simp

end
