(* ===== verification/Bcd_Args.thy ===== *)
theory Bcd_Args
  imports Bcd_KV
begin

text \<open>
  The tracer arguments (\<open>bcd_arg_set\<close>). They are kept like the key-value pairs, but in the
  order of their last request, and \<open>bcd_arg_set\<close> measures its argument with \<open>strlen\<close>, which
  does not know the packet's length.
\<close>

definition arg_weight :: "cstr \<Rightarrow> nat" where
  "arg_weight a = length a + 1"

text \<open>The \<open>TAILQ_FOREACH\<close> that unlinks the first equal argument.\<close>

definition arg_unlink :: "cstr \<Rightarrow> bcd_monitor \<Rightarrow> bcd_monitor" where
  "arg_unlink a st =
     (case List.extract (\<lambda>b. b = a) (arg_list st) of
        None \<Rightarrow> st
      | Some (ys, b, zs) \<Rightarrow>
          st\<lparr>arg_length := arg_length st - of_nat (arg_weight b),
             arg_list := ys @ zs,
             arg_count := arg_count st - 1\<rparr>)"

definition arg_insert :: "cstr \<Rightarrow> bcd_monitor \<Rightarrow> bcd_monitor" where
  "arg_insert a st =
     (let st = (if arg_count st = 0 then st\<lparr>arg_list := []\<rparr> else arg_unlink a st)
      in st\<lparr>arg_list := arg_list st @ [a],
            arg_count := arg_count st + 1,
            arg_length := arg_length st + of_nat (arg_weight a)\<rparr>)"

definition bcd_arg_set ::
    "int option \<Rightarrow> bcd_session \<Rightarrow> bcd_monitor \<Rightarrow> (int \<times> bcd_monitor) option" where
  "bcd_arg_set malloc s st = do {
     let pkt = se_packet s;
     arglen \<leftarrow> mem_strlen pkt sizeof_packet;
     if arglen = 0
     then Some (bcd_error BCD_EVENT_METADATA (Some s) ''malformed argument'' 0 st)
     else case malloc of
       Some errno \<Rightarrow> Some (bcd_error BCD_EVENT_METADATA (Some s)
           ''internal memory allocation error'' errno st)
     | None \<Rightarrow> do {
         arg \<leftarrow> load pkt sizeof_packet arglen;
         Some (0, arg_insert arg st)
       }
   }"

definition arg_ok :: "bcd_monitor \<Rightarrow> bool" where
  "arg_ok st \<longleftrightarrow> distinct (arg_list st) \<and>
     arg_count st = of_nat (length (arg_list st)) \<and>
     arg_length st = of_nat (sum_list (map arg_weight (arg_list st)))"

lemma arg_insert_eq:
  assumes "arg_ok st" and "length (arg_list st) < 2 ^ 64"
  shows "arg_insert a st = st\<lparr>
     arg_list := filter (\<lambda>b. b \<noteq> a) (arg_list st) @ [a],
     arg_count := of_nat (Suc (length (filter (\<lambda>b. b \<noteq> a) (arg_list st)))),
     arg_length := of_nat (arg_weight a +
       sum_list (map arg_weight (filter (\<lambda>b. b \<noteq> a) (arg_list st))))\<rparr>"
proof -
  have init: "(if arg_count st = 0 then st\<lparr>arg_list := []\<rparr> else arg_unlink a st) = arg_unlink a st"
    using assms count_zero_Nil [of "arg_list st"] by (auto simp: arg_ok_def arg_unlink_def extract_Nil_code)
  show ?thesis
  proof (cases "List.extract (\<lambda>b. b = a) (arg_list st)")
    case None
    then have rest: "filter (\<lambda>b. b \<noteq> a) (arg_list st) = arg_list st"
      unfolding extract_None_iff by (auto simp: filter_id_conv)
    have c: "arg_count st + 1 = of_nat (Suc (length (arg_list st)))"
      and l: "arg_length st + of_nat (arg_weight a) =
        of_nat (arg_weight a + sum_list (map arg_weight (arg_list st)))"
      using assms(1) by (simp_all add: arg_ok_def)
    have "arg_unlink a st = st"
      by (simp add: arg_unlink_def None)
    then show ?thesis
      unfolding arg_insert_def init rest Let_def c [symmetric] l [symmetric] by simp
  next
    case (Some r)
    obtain ys b zs where r: "r = (ys, b, zs)"
      by (cases r)
    note split = extract_filter [where k = "\<lambda>b. b" and c = a, OF Some [unfolded r]]
    have rest: "filter (\<lambda>b. b \<noteq> a) (arg_list st) = ys @ zs"
      and list: "arg_list st = ys @ b # zs"
      using split assms(1) by (auto simp: arg_ok_def)
    have c: "arg_count st - 1 + 1 = of_nat (Suc (length (ys @ zs)))"
      using assms(1) by (simp add: arg_ok_def list)
    have l: "arg_length st - of_nat (arg_weight b) + of_nat (arg_weight a) =
        of_nat (arg_weight a + sum_list (map arg_weight (ys @ zs)))"
      using assms(1) by (simp add: arg_ok_def list)
    have "arg_unlink a st = st\<lparr>arg_length := arg_length st - of_nat (arg_weight b),
        arg_list := ys @ zs, arg_count := arg_count st - 1\<rparr>"
      by (simp add: arg_unlink_def Some r)
    then show ?thesis
      unfolding arg_insert_def init rest Let_def c [symmetric] l [symmetric] by simp
  qed
qed

interpretation args: tracked_list arg_list "\<lambda>a. a" arg_weight arg_count arg_length arg_insert arg_ok
proof unfold_locales
  fix st a
  assume "arg_ok st" and "length (arg_list st) < 2 ^ 64"
  note eq = arg_insert_eq [OF this, of a]
  show "mset (arg_list (arg_insert a st)) =
      add_mset a (filter_mset (\<lambda>b. b \<noteq> a) (mset (arg_list st)))"
    by (simp add: eq)
  show "arg_count (arg_insert a st) = of_nat (length (arg_list (arg_insert a st))) \<and>
      arg_length (arg_insert a st) = of_nat (sum_list (map arg_weight (arg_list (arg_insert a st))))"
    by (simp add: eq)
qed (simp add: arg_ok_def)

lemma bcd_arg_set_string:
  assumes "at_mem (se_packet s) sizeof_packet (a @ [0])" and "cstr_ok a"
  shows "bcd_arg_set malloc s st = Some
    (if a = [] then bcd_error BCD_EVENT_METADATA (Some s) ''malformed argument'' 0 st
     else case malloc of
       Some errno \<Rightarrow> bcd_error BCD_EVENT_METADATA (Some s)
         ''internal memory allocation error'' errno st
     | None \<Rightarrow> (0, arg_insert a st))"
proof -
  have "load (se_packet s) sizeof_packet (length a) = Some a"
    using assms(1) by (simp add: at_mem_append load_at_mem)
  then show ?thesis
    by (simp add: bcd_arg_set_def mem_strlen_cstr [OF assms] split: option.split)
qed

text \<open>
  An argument request whose payload is a C string appends the argument to the list, moving
  an equal one to the end; an empty argument and a failed allocation report one error and
  change nothing. The list stays duplicate-free and its counts stay right.
\<close>

theorem bcd_arg_set_spec:
  assumes "at_mem (se_packet s) sizeof_packet (a @ [0])" and "cstr_ok a"
    and "arg_ok st" and "length (arg_list st) < 2 ^ 64"
  shows "\<exists>r st'. bcd_arg_set malloc s st = Some (r, st') \<and> arg_ok st' \<and>
    (if a \<noteq> [] \<and> malloc = None
     then r = 0 \<and> arg_list st' = filter (\<lambda>b. b \<noteq> a) (arg_list st) @ [a]
     else r = -1 \<and> arg_list st' = arg_list st \<and> length (reports st') = Suc (length (reports st)))"
  unfolding bcd_arg_set_string [OF assms(1,2)]
  using args.add_tracked [OF assms(3,4)] arg_insert_eq [OF assms(3,4)] assms(3)
  by (auto simp: bcd_error_def arg_ok_def split: option.splits)

theorem bcd_arg_set_spec_witness:
  "\<exists>r st'. bcd_arg_set None (hold_packet zero_session BCD_OP_ARG [45, 0]) (example_start)
     = Some (r, st') \<and> r = 0 \<and> arg_list st' = [[45]]"
  using bcd_arg_set_spec [of "hold_packet zero_session BCD_OP_ARG [45, 0]" "[45]" "example_start" None]
    hold_packet_fields(5) [OF session_ok_zero, of "[45, 0]" BCD_OP_ARG]
  by (auto simp: cstr_ok_def BCD_PACKET_LIMIT_def sizeof_packet_def arg_ok_def)

text \<open>
  \<open>bcd_arg_set\<close> does not stop at the packet's length. A request of a full packet without
  a terminating zero makes it read past the packet; a shorter one takes the bytes an earlier
  packet left behind it as part of the argument.
\<close>

theorem bcd_arg_set_unbounded:
  "bcd_arg_set None (hold_packet zero_session BCD_OP_ARG (replicate 1024 45)) st = None \<and>
   bcd_arg_set None
     (hold_packet (hold_packet zero_session BCD_OP_ARG [45, 97, 0]) BCD_OP_ARG [45]) st =
       Some (0, arg_insert [45, 97] st)"
proof -
  let ?z = "hold_packet zero_session BCD_OP_ARG"
  have full: "mem_strlen (se_packet (?z (replicate 1024 45))) 8 = None"
  proof -
    have "drop 8 (se_packet (?z (replicate 1024 45))) = replicate 1024 45"
      by (simp add: hold_packet_def zero_session_def patch_def packet_bytes_def
          sizeof_packet_def BCD_PACKET_LIMIT_def)
    then show ?thesis
      by (simp add: mem_strlen_def nonzero_prefix_def hold_packet_def zero_session_def
          sizeof_packet_def BCD_PACKET_LIMIT_def)
  qed
  have "session_ok (?z [45, 97, 0])"
    using hold_packet_fields(4) [OF session_ok_zero, of "[45, 97, 0]" BCD_OP_ARG]
    by (simp add: packet_ok_def BCD_PACKET_LIMIT_def)
  have left: "at_mem (se_packet (hold_packet (?z [45, 97, 0]) BCD_OP_ARG [45])) 8 [45, 97, 0]"
    by (simp add: hold_packet_def zero_session_def patch_def packet_bytes_def at_mem_def
        sizeof_packet_def BCD_PACKET_LIMIT_def)
  show ?thesis
    using bcd_arg_set_string [of "hold_packet (?z [45, 97, 0]) BCD_OP_ARG [45]" "[45, 97]" None st] left
    by (simp add: bcd_arg_set_def full sizeof_packet_def cstr_ok_def)
qed

end
