(* ===== verification/Bcd_Argv.thy ===== *)
theory Bcd_Argv
  imports Bcd_Args
begin

text \<open>
  The argument vector of the tracer (\<open>bcd_arg_get\<close>, \<open>bcd_kv_get\<close> and the two functions
  \<open>bcd_backtrace_thread\<close>, \<open>bcd_backtrace_process\<close> that call them). The vector is an array
  of \<open>BCD_ARGC_LIMIT\<close> pointers; writing past it is \<open>None\<close>.
\<close>

definition BCD_ARGC_LIMIT :: nat where
  "BCD_ARGC_LIMIT = 32"

text \<open>A slot: not yet assigned, a null pointer, or a string.\<close>

datatype slot = Unset | Null_slot | Str cstr

definition slot_of :: "cstr option \<Rightarrow> slot" where
  "slot_of p = (case p of None \<Rightarrow> Null_slot | Some s \<Rightarrow> Str s)"

definition put_slot :: "slot list \<Rightarrow> nat \<Rightarrow> slot \<Rightarrow> slot list option" where
  "put_slot argv i v = (if i < length argv then Some (argv[i := v]) else None)"

text \<open>
  The allocator: which strings \<open>asprintf\<close> has room for, and the block \<open>malloc\<close> returns for
  a size, with its arbitrary contents.
\<close>

record bcd_alloc =
  alloc_string :: "cstr \<Rightarrow> bool"
  alloc_block :: "u64 \<Rightarrow> mem option"

definition get_limit :: "u64 \<Rightarrow> u64 \<Rightarrow> u64" where
  "get_limit n_output stored =
     (let limit = (if stored < n_output then stored else n_output)
      in if of_nat BCD_ARGC_LIMIT < limit then of_nat BCD_ARGC_LIMIT else limit)"

text \<open>
  The loop both getters share: one \<open>asprintf\<close> per string, from slot \<open>off\<close> on, at most
  \<open>limit\<close>.
\<close>

fun string_slots ::
    "bcd_alloc \<Rightarrow> nat \<Rightarrow> nat \<Rightarrow> cstr list \<Rightarrow> nat \<Rightarrow> slot list \<Rightarrow> (int \<times> slot list) option" where
  "string_slots A off limit [] i argv = Some (int i, argv)"
| "string_slots A off limit (x # xs) i argv =
     (if i = limit then Some (int i, argv)
      else if alloc_string A x
      then do { argv \<leftarrow> put_slot argv (off + i) (Str x); string_slots A off limit xs (i + 1) argv }
      else Some (-1, argv))"

definition bcd_arg_get ::
    "bcd_alloc \<Rightarrow> slot list \<Rightarrow> nat \<Rightarrow> u64 \<Rightarrow> bcd_monitor \<Rightarrow> (int \<times> slot list) option" where
  "bcd_arg_get A argv off n_output st =
     (if arg_count st = 0 then Some (0, argv)
      else string_slots A off (unat (get_limit n_output (arg_count st))) (arg_list st) 0 argv)"

text \<open>The pairs copied one after another into the single string.\<close>

fun kv_copy :: "byte \<Rightarrow> byte \<Rightarrow> kv_pair list \<Rightarrow> nat \<Rightarrow> mem \<Rightarrow> (nat \<times> mem) option" where
  "kv_copy s ks [] p m = Some (p, m)"
| "kv_copy s ks (kv # kvs) p m = do {
     m \<leftarrow> store m p (kv_key kv);
     let p = p + length (kv_key kv);
     m \<leftarrow> store m p [ks];
     let p = p + 1;
     m \<leftarrow> store m p (kv_value kv);
     let p = p + length (kv_value kv);
     if kvs = [] then kv_copy s ks kvs p m
     else do { m \<leftarrow> store m p [s]; kv_copy s ks kvs (p + 1) m }
   }"

definition bcd_kv_get ::
    "bcd_alloc \<Rightarrow> slot list \<Rightarrow> nat \<Rightarrow> u64 \<Rightarrow> byte \<Rightarrow> byte \<Rightarrow> cstr option \<Rightarrow> bcd_monitor \<Rightarrow>
     (int \<times> slot list) option" where
  "bcd_kv_get A argv off n_output s ks prefix st =
     (if kv_count st = 0 \<or> cf_invoke_kp (config st) = None then Some (0, argv)
      else do {
        pre \<leftarrow> prefix;
        if s = 0 then
          string_slots A off (unat (get_limit n_output (kv_count st)))
            (map (\<lambda>kv. pre @ kv_key kv @ [ks] @ kv_value kv) (kv_list st)) 0 argv
        else
          (case alloc_block A (of_nat (length pre) + kv_count st + kv_length st + 1) of
             None \<Rightarrow> do { argv \<leftarrow> put_slot argv off Null_slot; Some (-1, argv) }
           | Some block \<Rightarrow> do {
               block \<leftarrow> store block 0 pre;
               (p, block) \<leftarrow> kv_copy s ks (kv_list st) (length pre) block;
               block \<leftarrow> store block p [0];
               argv \<leftarrow> put_slot argv off (Str (nonzero_prefix block));
               Some (1, argv)
             })
      })"

section \<open>What the getters produce\<close>

lemma string_slots_ok:
  assumes "\<And>x. x \<in> set xs \<Longrightarrow> alloc_string A x"
    and "off + i + min (limit - i) (length xs) \<le> length argv" and "i \<le> limit"
  shows "string_slots A off limit xs i argv =
    Some (int (i + min (limit - i) (length xs)),
      take (off + i) argv @ map Str (take (limit - i) xs) @
      drop (off + i + min (limit - i) (length xs)) argv)"
  using assms
proof (induction xs arbitrary: i argv)
  case Nil
  then show ?case by simp
next
  case (Cons x xs)
  show ?case
  proof (cases "i = limit")
    case True
    then show ?thesis by simp
  next
    case False
    with Cons.prems(3) obtain d where d: "limit - i = Suc d" "limit - (i + 1) = d"
      by (metis Suc_diff_Suc add.commute le_neq_implies_less plus_1_eq_Suc diff_Suc_eq_diff_pred
          diff_commute diff_diff_left)
    have room: "off + i < length argv"
      using Cons.prems(2) d by simp
    have "string_slots A off limit xs (i + 1) (argv[off + i := Str x]) =
        Some (int (i + 1 + min d (length xs)),
          take (off + i + 1) (argv[off + i := Str x]) @ map Str (take d xs) @
          drop (off + i + 1 + min d (length xs)) (argv[off + i := Str x]))"
      using Cons.IH [of "i + 1" "argv[off + i := Str x]"] Cons.prems False d
      by (simp add: add.assoc)
    then show ?thesis
      using False room Cons.prems(1) d
      by (simp add: put_slot_def take_Suc_conv_app_nth)
  qed
qed

text \<open>The text of the single-string form: pairs with separators between them.\<close>

fun kv_text :: "byte \<Rightarrow> byte \<Rightarrow> kv_pair list \<Rightarrow> cstr" where
  "kv_text s ks [] = []"
| "kv_text s ks (kv # kvs) =
     kv_key kv @ [ks] @ kv_value kv @ (if kvs = [] then [] else s # kv_text s ks kvs)"

lemma length_kv_text:
  "kvs \<noteq> [] \<Longrightarrow>
    length (kv_text s ks kvs) + 1 = sum_list (map kv_weight kvs) + length kvs"
  by (induction kvs) (auto simp: kv_weight_def)

lemma kv_copy_text:
  "p + length (kv_text s ks kvs) \<le> length m \<Longrightarrow>
    kv_copy s ks kvs p m = Some (p + length (kv_text s ks kvs), patch m p (kv_text s ks kvs))"
proof (induction kvs arbitrary: p m)
  case Nil
  then show ?case by simp
next
  case (Cons kv kvs)
  let ?k = "kv_key kv" and ?v = "kv_value kv"
  let ?a = "?k @ [ks] @ ?v"
  have a: "p + length ?k + 1 + length ?v \<le> length m"
    using Cons.prems by simp
  have m3: "patch (patch (patch m p ?k) (p + length ?k) [ks]) (p + length ?k + 1) ?v = patch m p ?a"
    using a patch_patch_append [of p ?k "[ks]" m] patch_patch_append [of p "?k @ [ks]" ?v m]
    by (simp add: add.assoc)
  show ?case
  proof (cases "kvs = []")
    case True
    then show ?thesis
      using a m3 by (simp add: store_patch)
  next
    case False
    have b: "p + length ?a + 1 + length (kv_text s ks kvs) \<le> length m"
      using Cons.prems False by simp
    have m4: "patch (patch m p ?a) (p + length ?a) [s] = patch m p (?a @ [s])"
      using b by (intro patch_patch_append) simp
    have "kv_copy s ks kvs (p + length (?a @ [s])) (patch m p (?a @ [s])) =
        Some (p + length (?a @ [s]) + length (kv_text s ks kvs),
          patch (patch m p (?a @ [s])) (p + length (?a @ [s])) (kv_text s ks kvs))"
      using b by (intro Cons.IH) simp
    moreover have "patch (patch m p (?a @ [s])) (p + length (?a @ [s])) (kv_text s ks kvs) =
        patch m p ((?a @ [s]) @ kv_text s ks kvs)"
      using b by (intro patch_patch_append) simp
    ultimately show ?thesis
      using a b m3 m4 False by (simp add: store_patch add.assoc)
  qed
qed

lemma get_limit_unat:
  "n < 2 ^ 64 \<Longrightarrow> unat (get_limit m (of_nat n)) = min (unat m) (min n 32)"
  by (auto simp: get_limit_def Let_def BCD_ARGC_LIMIT_def word_less_nat_alt unat_of_nat min_def)

text \<open>The strings of the list are C strings.\<close>

definition kv_clean :: "bcd_monitor \<Rightarrow> bool" where
  "kv_clean st \<longleftrightarrow> (\<forall>kv \<in> set (kv_list st). cstr_ok (kv_key kv) \<and> cstr_ok (kv_value kv))"

lemma cstr_ok_append [simp]: "cstr_ok (a @ b) \<longleftrightarrow> cstr_ok a \<and> cstr_ok b"
  by (auto simp: cstr_ok_def)

lemma cstr_ok_Cons [simp]: "cstr_ok (x # a) \<longleftrightarrow> x \<noteq> 0 \<and> cstr_ok a"
  by (auto simp: cstr_ok_def)

lemma cstr_ok_Nil [simp]: "cstr_ok []"
  by (simp add: cstr_ok_def)

lemma kv_text_clean:
  "(\<forall>kv \<in> set kvs. cstr_ok (kv_key kv) \<and> cstr_ok (kv_value kv)) \<Longrightarrow> s \<noteq> 0 \<Longrightarrow> ks \<noteq> 0 \<Longrightarrow>
    cstr_ok (kv_text s ks kvs)"
  by (induction kvs) auto

lemma unat_of_nat64: "n < 2 ^ 64 \<Longrightarrow> unat (of_nat n :: u64) = n"
  by (simp add: unat_of_nat)

lemma bcd_kv_get_none:
  "kv_list st = [] \<Longrightarrow> kv_ok st \<Longrightarrow> bcd_kv_get A argv off n s ks pre st = Some (0, argv)"
  by (simp add: bcd_kv_get_def kv_ok_def)

text \<open>The allocation always has room for the text: one byte is to spare.\<close>

lemma bcd_kv_get_single:
  assumes ok: "kv_ok st" "kv_clean st" "kv_list st \<noteq> []" "cstr_ok pre" "s \<noteq> 0" "ks \<noteq> 0"
    and kp: "cf_invoke_kp (config st) = Some pre"
    and size: "n = length pre + length (kv_list st) + sum_list (map kv_weight (kv_list st)) + 1"
      "n < 2 ^ 64"
    and block: "alloc_block A (of_nat n) = Some block" "length block = n"
    and off: "off < length argv"
  shows "bcd_kv_get A argv off lim s ks (Some pre) st =
    Some (1, argv[off := Str (pre @ kv_text s ks (kv_list st))])"
proof -
  let ?t = "kv_text s ks (kv_list st)"
  have len: "length pre + length ?t + 2 = n"
    using length_kv_text [OF ok(3), of s ks] size(1) by simp
  have c0: "kv_count st \<noteq> 0"
    using ok(1,3) size count_zero_Nil [of "kv_list st"] by (auto simp: kv_ok_def)
  have sz: "of_nat (length pre) + kv_count st + kv_length st + 1 = (of_nat n :: u64)"
    using ok(1) by (simp add: kv_ok_def size(1))
  have m1: "store block 0 pre = Some (patch block 0 pre)"
    using block(2) len by (simp add: store_patch)
  have m2: "kv_copy s ks (kv_list st) (length pre) (patch block 0 pre) =
      Some (length pre + length ?t, patch block 0 (pre @ ?t))"
    using kv_copy_text [of "length pre" s ks "kv_list st" "patch block 0 pre"]
      patch_patch_append [of 0 pre ?t block] block(2) len by simp
  have m3: "store (patch block 0 (pre @ ?t)) (length pre + length ?t) [0] =
      Some (patch block 0 ((pre @ ?t) @ [0]))"
    using patch_patch_append [of 0 "pre @ ?t" "[0]" block] block(2) len
    by (simp add: store_patch)
  have "patch block 0 ((pre @ ?t) @ [0]) = (pre @ ?t) @ 0 # drop (length pre + length ?t + 1) block"
    by (simp add: patch_def)
  moreover have "cstr_ok (pre @ ?t)"
    using ok by (simp add: kv_clean_def kv_text_clean)
  ultimately have str: "nonzero_prefix (patch block 0 ((pre @ ?t) @ [0])) = pre @ ?t"
    using nonzero_prefix_cstr by metis
  show ?thesis
    by (simp only: bcd_kv_get_def c0 kp sz block(1) m1 m2 m3 str ok(5) put_slot_def off
        Option.bind.bind_lunit option.case prod.case if_True if_False simp_thms option.distinct)
qed

end
