(* ===== verification/Bcd_Exec.thy ===== *)
theory Bcd_Exec
  imports Bcd_Argv
begin

text \<open>
  Running the tracer (\<open>vfork_tracer\<close>, \<open>signal_check\<close>, \<open>bcd_execve\<close>), in the build with
  \<open>sigtimedwait\<close>. The environment is a script: what \<open>vfork\<close> returns, which handlers ran
  before the signals were blocked, and for each turn of the loop what \<open>sigtimedwait\<close> and
  \<open>waitpid\<close> return. A script that ends while the loop still waits gives \<open>Waits\<close>.
\<close>

datatype tracer_status = Tracer_exited int | Tracer_signaled int | Tracer_other

text \<open>
  One turn: the signal \<open>sigtimedwait\<close> returns (none when its second has passed), the result
  of \<open>waitpid\<close>, its \<open>errno\<close> and the status variable after the call.
\<close>

record wake =
  wk_signal :: "bcd_signal option"
  wk_wait :: int
  wk_errno :: int
  wk_status :: tracer_status

record tracer_run =
  tr_vfork :: int
  tr_errno :: int
  tr_term :: bool
  tr_chld :: bool
  tr_alrm :: bool
  tr_wakes :: "wake list"

text \<open>The handlers' flags, as \<open>signal_check\<close> reads and resets them.\<close>

record fired =
  sigterm_fired :: bool
  sigchld_fired :: bool
  sigalrm_fired :: bool

definition no_signals :: fired where
  "no_signals = \<lparr>sigterm_fired = False, sigchld_fired = False, sigalrm_fired = False\<rparr>"

definition handle_sigalrm :: "fired \<Rightarrow> fired" where
  "handle_sigalrm f = f\<lparr>sigalrm_fired := True\<rparr>"

definition handle_sigchld :: "fired \<Rightarrow> fired" where
  "handle_sigchld f = f\<lparr>sigchld_fired := True\<rparr>"

definition handle_sigterm :: "fired \<Rightarrow> fired" where
  "handle_sigterm f = f\<lparr>sigterm_fired := True\<rparr>"

text \<open>The flags after the signals delivered before the loop.\<close>

definition fired_before :: "tracer_run \<Rightarrow> fired" where
  "fired_before T =
     (if tr_alrm T then handle_sigalrm else id)
      ((if tr_chld T then handle_sigchld else id)
        ((if tr_term T then handle_sigterm else id) no_signals))"

definition signal_check :: "fired \<Rightarrow> (bcd_signal option \<times> fired)" where
  "signal_check f =
     (if sigterm_fired f then (Some SIGTERM, f\<lparr>sigterm_fired := False\<rparr>)
      else if sigchld_fired f then (Some SIGCHLD, f\<lparr>sigchld_fired := False\<rparr>)
      else if sigalrm_fired f then (Some SIGALRM, f\<lparr>sigalrm_fired := False\<rparr>)
      else (None, f))"

text \<open>
  The switch over the signal: \<open>Inr\<close> continues the loop. \<open>kill\<close> is recorded; a signal other
  than the three, and none at all, aborts.
\<close>

definition tracer_signal ::
    "bcd_session option \<Rightarrow> int \<Rightarrow> wake \<Rightarrow> bcd_signal option \<Rightarrow> bcd_monitor \<Rightarrow>
     (outcome + unit) \<times> bcd_monitor" where
  "tracer_signal s pid w sig st =
     (case sig of
        Some SIGALRM \<Rightarrow>
          (let st = st\<lparr>kills := kills st @ [(pid, SIGKILL)]\<rparr>;
               (r, st) = bcd_error BCD_EVENT_TRACE s ''tracer time out'' 0 st
           in (Inl (Returns r), st))
      | Some SIGCHLD \<Rightarrow>
          if wk_wait w = -1 then
            (let (r, st) = bcd_error BCD_EVENT_TRACE s ''failed to wait for tracer'' (wk_errno w) st
             in (Inl (Returns r), st))
          else
            (case wk_status w of
               Tracer_other \<Rightarrow> (Inr (), st)
             | Tracer_exited c \<Rightarrow>
                 if c \<noteq> 0 then
                   (let (r, st) = bcd_error BCD_EVENT_TRACE s ''tracer exited non-zero'' 0 st
                    in (Inl (Returns r), st))
                 else (Inl (Returns 0), st)
             | Tracer_signaled _ \<Rightarrow>
                 (let (r, st) = bcd_error BCD_EVENT_TRACE s ''tracer killed with signal'' 0 st
                  in (Inl (Returns r), st)))
      | Some SIGTERM \<Rightarrow> (Inl (Exits (128 + 15)), st\<lparr>kills := kills st @ [(pid, SIGTERM)]\<rparr>)
      | _ \<Rightarrow> (Inl Aborts, st))"

fun execve_loop ::
    "bcd_session option \<Rightarrow> int \<Rightarrow> fired \<Rightarrow> wake list \<Rightarrow> bcd_monitor \<Rightarrow> outcome \<times> bcd_monitor" where
  "execve_loop s pid f [] st = (Waits, st)"
| "execve_loop s pid f (w # ws) st =
     (let (sig, f) = signal_check f;
          sig = (if sig = None then wk_signal w else sig);
          (sig, f) = (if sig = None then signal_check f else (sig, f))
      in case tracer_signal s pid w sig st of
           (Inl r, st) \<Rightarrow> (r, st)
         | (Inr _, st) \<Rightarrow> execve_loop s pid f ws st)"

text \<open>
  \<open>bcd_execve\<close>. The strings from \<open>argv[fr]\<close> to the null pointer are freed at the end; the
  vector that was executed is recorded.
\<close>

definition argv_strings :: "slot list \<Rightarrow> cstr option list" where
  "argv_strings argv =
     map (\<lambda>x. case x of Str a \<Rightarrow> Some a | _ \<Rightarrow> None) (takeWhile (\<lambda>x. x \<noteq> Null_slot) argv)"

definition bcd_execve ::
    "tracer_run \<Rightarrow> bcd_session option \<Rightarrow> slot list \<Rightarrow> bcd_monitor \<Rightarrow> outcome \<times> bcd_monitor" where
  "bcd_execve T s argv st =
     (let f = fired_before T
      in if tr_vfork T = -1
         then (let (r, st) = bcd_error BCD_EVENT_TRACE s ''failed to execute tracer'' (tr_errno T) st
               in (Returns r, st))
         else execve_loop s (tr_vfork T) f (tr_wakes T)
                (st\<lparr>tracers := tracers st @ [argv_strings argv]\<rparr>))"

section \<open>The result of a run\<close>

text \<open>A turn that decides nothing: the child changed state without ending.\<close>

definition undecided :: "wake \<Rightarrow> bool" where
  "undecided w \<longleftrightarrow> wk_signal w = Some SIGCHLD \<and> wk_wait w \<noteq> -1 \<and> wk_status w = Tracer_other"

lemma signal_check_none [simp]: "signal_check no_signals = (None, no_signals)"
  by (simp add: signal_check_def no_signals_def)

lemma execve_loop_undecided:
  "undecided w \<Longrightarrow> execve_loop s pid no_signals (w # ws) st = execve_loop s pid no_signals ws st"
  by (simp add: undecided_def tracer_signal_def)

lemma execve_loop_decided:
  "\<not> undecided w \<Longrightarrow> execve_loop s pid no_signals (w # ws) st =
    (case tracer_signal s pid w (wk_signal w) st of (Inl r, st) \<Rightarrow> (r, st) | (Inr _, st) \<Rightarrow> (Waits, st))"
  by (cases "wk_signal w"; cases "the (wk_signal w)")
    (auto simp: undecided_def tracer_signal_def Let_def split: prod.splits tracer_status.splits)

lemma execve_loop_skip:
  "execve_loop s pid no_signals ws st = execve_loop s pid no_signals (dropWhile undecided ws) st"
  by (induction ws) (auto simp: execve_loop_undecided simp del: execve_loop.simps(2))

text \<open>What the first deciding turn says about the tracer.\<close>

definition run_verdict :: "wake \<Rightarrow> outcome" where
  "run_verdict w =
     (case wk_signal w of
        Some SIGCHLD \<Rightarrow>
          if wk_wait w \<noteq> -1 \<and> wk_status w = Tracer_exited 0 then Returns 0 else Returns (-1)
      | Some SIGALRM \<Rightarrow> Returns (-1)
      | Some SIGTERM \<Rightarrow> Exits 143
      | _ \<Rightarrow> Aborts)"

text \<open>
  C37: the outcome of a tracer that was started is decided by the first turn in which it ended,
  the timer or a termination request fired, or nothing happened for a second. It is 0 exactly
  when \<open>waitpid\<close> saw it exit with 0; a timeout kills it; a quiet second aborts the monitor.
  As long as the tracer only stops and continues, the monitor waits.
\<close>

theorem bcd_execve_verdict:
  assumes "tr_vfork T \<noteq> -1" and "\<not> tr_term T" and "\<not> tr_chld T" and "\<not> tr_alrm T"
  shows "fst (bcd_execve T s argv st) =
    (case dropWhile undecided (tr_wakes T) of [] \<Rightarrow> Waits | w # ws \<Rightarrow> run_verdict w)"
proof -
  have start: "bcd_execve T s argv st = execve_loop s (tr_vfork T) no_signals
      (dropWhile undecided (tr_wakes T)) (st\<lparr>tracers := tracers st @ [argv_strings argv]\<rparr>)"
    using assms execve_loop_skip [of s "tr_vfork T" "tr_wakes T"]
    by (simp add: bcd_execve_def fired_before_def)
  show ?thesis
  proof (cases "dropWhile undecided (tr_wakes T)")
    case Nil
    show ?thesis unfolding start Nil by simp
  next
    case (Cons w ws)
    then have "\<not> undecided w"
      by (simp add: dropWhile_eq_Cons_conv)
    then show ?thesis
      unfolding start Cons execve_loop_decided [OF \<open>\<not> undecided w\<close>]
      by (cases "wk_signal w"; cases "the (wk_signal w)")
        (auto simp: run_verdict_def tracer_signal_def undecided_def bcd_error_def Let_def
          split: tracer_status.splits)
  qed
qed

text \<open>A tracer that runs for more than a second, and one that stops, continues and exits.\<close>

definition turn :: "bcd_signal option \<Rightarrow> int \<Rightarrow> tracer_status \<Rightarrow> wake" where
  "turn sig r t = \<lparr>wk_signal = sig, wk_wait = r, wk_errno = 0, wk_status = t\<rparr>"

definition tracer_turns :: "wake list \<Rightarrow> tracer_run" where
  "tracer_turns ws = \<lparr>tr_vfork = 7, tr_errno = 0, tr_term = False, tr_chld = False,
     tr_alrm = False, tr_wakes = ws\<rparr>"

theorem bcd_execve_verdict_witness:
  "fst (bcd_execve (tracer_turns [turn (Some SIGCHLD) 0 Tracer_other,
      turn (Some SIGCHLD) 7 (Tracer_exited 0)]) None [] example_start) = Returns 0"
  by (subst bcd_execve_verdict)
    (simp_all add: tracer_turns_def turn_def undecided_def run_verdict_def)

end
