(* ===== verification/Bcd_Tracer.thy ===== *)
theory Bcd_Tracer
  imports Bcd_Exec
begin

text \<open>
  Trace requests (\<open>bcd_request_handler\<close>, \<open>bcd_backtrace_thread\<close>, \<open>bcd_backtrace_process\<close>):
  the argument vector is built in an array of 32 pointers and the tracer is run. The
  environment \<open>monitor_env\<close> holds the allocator, the configured request handler and the
  script of the tracer's run.
\<close>

record monitor_env =
  env_errno :: "int option"
  env_alloc :: bcd_alloc
  env_request_handler :: "ptr \<Rightarrow> u32 \<Rightarrow> int"
  env_run :: tracer_run

definition bcd_request_handler ::
    "monitor_env \<Rightarrow> u32 \<Rightarrow> bcd_session option \<Rightarrow> bcd_monitor \<Rightarrow> (int \<times> bcd_monitor) option" where
  "bcd_request_handler E tid s st = do {
     tid \<leftarrow> (if tid = 0 then map_option se_tid s else Some tid);
     Some (if cf_request_handler (config st) \<noteq> NULL \<and>
              env_request_handler E (cf_request_handler (config st)) tid = -1
           then bcd_error BCD_EVENT_TRACE s ''request handler intercepted event'' 0 st
           else (0, st))
   }"

definition tracer_error :: "bcd_session option \<Rightarrow> string \<Rightarrow> bcd_monitor \<Rightarrow> outcome \<times> bcd_monitor" where
  "tracer_error s msg st = (let (r, st) = bcd_error BCD_EVENT_TRACE s msg 0 st in (Returns r, st))"

text \<open>
  A failing \<open>bcd_arg_get\<close> or \<open>bcd_kv_get\<close> reports the message it set. The count that
  \<open>bcd_kv_get\<close> may use is computed as a \<open>size_t\<close>.
\<close>

definition kv_failure :: "bcd_monitor \<Rightarrow> string" where
  "kv_failure st = (if cf_invoke_separator (config st) = 0 then ''failed to allocate key-value pair''
     else ''failed to allocate single key-value pair list'')"

text \<open>The end of both functions: the pairs, the null pointer, the tracer.\<close>

definition finish_argv ::
    "monitor_env \<Rightarrow> bcd_session option \<Rightarrow> slot list \<Rightarrow> nat \<Rightarrow> bcd_monitor \<Rightarrow>
     (outcome \<times> bcd_monitor) option" where
  "finish_argv E s argv delta st = do {
     (r, argv) \<leftarrow> bcd_kv_get (env_alloc E) argv delta
       (of_nat BCD_ARGC_LIMIT - (of_nat delta + 1))
       (cf_invoke_separator (config st)) (cf_invoke_ks (config st)) (cf_invoke_kp (config st)) st;
     if r = -1 then Some (tracer_error s (kv_failure st) st)
     else do {
       argv \<leftarrow> put_slot argv (nat r + delta) Null_slot;
       Some (bcd_execve (env_run E) s argv st)
     }
   }"

definition bcd_backtrace_thread ::
    "monitor_env \<Rightarrow> bcd_session \<Rightarrow> bcd_monitor \<Rightarrow> (outcome \<times> bcd_monitor) option" where
  "bcd_backtrace_thread E s st = do {
     let tid = se_tid s;
     (r, st) \<leftarrow> bcd_request_handler E tid (Some s) st;
     if r = -1 then Some (Returns (-1), st)
     else do {
       let argv = replicate BCD_ARGC_LIMIT Unset;
       argv \<leftarrow> put_slot argv 0 (slot_of (cf_invoke_path (config st)));
       (r, argv) \<leftarrow> bcd_arg_get (env_alloc E) argv 1 (of_nat BCD_ARGC_LIMIT - 2) st;
       if r = -1 then Some (tracer_error (Some s) ''failed to allocate arg'' st)
       else do {
         let delta = 1 + nat r;
         argv \<leftarrow> put_slot argv delta (Str (target_process st));
         let delta = delta + 1;
         case cf_invoke_tp (config st) of
           Some tp \<Rightarrow>
             if \<not> alloc_string (env_alloc E) (tp @ pid_string tid)
             then Some (tracer_error (Some s) ''failed to construct tracer string'' st)
             else do {
               argv \<leftarrow> put_slot argv delta (Str (tp @ pid_string tid));
               finish_argv E (Some s) argv (delta + 1) st
             }
         | None \<Rightarrow> finish_argv E (Some s) argv delta st
       }
     }
   }"

text \<open>Here the path is copied with \<open>strdup\<close>, and the session may be absent.\<close>

definition bcd_backtrace_process ::
    "monitor_env \<Rightarrow> bcd_session option \<Rightarrow> bcd_monitor \<Rightarrow> (outcome \<times> bcd_monitor) option" where
  "bcd_backtrace_process E s st = do {
     (r, st) \<leftarrow> bcd_request_handler E 0 s st;
     if r = -1 then Some (Returns (-1), st)
     else do {
       let argv = replicate BCD_ARGC_LIMIT Unset;
       path \<leftarrow> cf_invoke_path (config st);
       argv \<leftarrow> put_slot argv 0 (if alloc_string (env_alloc E) path then Str path else Null_slot);
       (r, argv) \<leftarrow> bcd_arg_get (env_alloc E) argv 1 (of_nat BCD_ARGC_LIMIT - 2) st;
       if r = -1 then Some (tracer_error s ''failed to allocate arg'' st)
       else do {
         let delta = 1 + nat r;
         argv \<leftarrow> put_slot argv delta (Str (target_process st));
         finish_argv E s argv (delta + 1) st
       }
     }
   }"

section \<open>The vector\<close>

text \<open>
  What the monitor's state must offer for the vector: consistent lists of C strings, a
  key-value prefix, separators that are not zero, and an allocator that has the memory.
\<close>

definition monitor_ok :: "bcd_monitor \<Rightarrow> bool" where
  "monitor_ok st \<longleftrightarrow> kv_ok st \<and> arg_ok st \<and> kv_clean st"

definition kv_size :: "cstr \<Rightarrow> bcd_monitor \<Rightarrow> nat" where
  "kv_size pre st = length pre + length (kv_list st) + sum_list (map kv_weight (kv_list st)) + 1"

definition kv_config :: "bcd_monitor \<Rightarrow> cstr \<Rightarrow> bool" where
  "kv_config st pre \<longleftrightarrow> cf_invoke_kp (config st) = Some pre \<and> cstr_ok pre \<and>
     cf_invoke_separator (config st) \<noteq> 0 \<and> cf_invoke_ks (config st) \<noteq> 0"

definition has_memory :: "bcd_alloc \<Rightarrow> nat \<Rightarrow> bool" where
  "has_memory A n \<longleftrightarrow> (\<forall>x. alloc_string A x) \<and>
     (\<exists>block. alloc_block A (of_nat n) = Some block \<and> length block = n)"

text \<open>The key-value option: one string, or nothing.\<close>

definition kv_strings :: "cstr \<Rightarrow> bcd_monitor \<Rightarrow> cstr list" where
  "kv_strings pre st =
     (if kv_list st = [] then []
      else [pre @ kv_text (cf_invoke_separator (config st)) (cf_invoke_ks (config st)) (kv_list st)])"

text \<open>The first slots of the vector hold these values, the rest is arbitrary.\<close>

definition holds :: "slot list \<Rightarrow> slot list \<Rightarrow> bool" where
  "holds argv xs \<longleftrightarrow> length argv = BCD_ARGC_LIMIT \<and> take (length xs) argv = xs"

lemma holds_put:
  assumes "holds argv xs" and "length xs < BCD_ARGC_LIMIT"
  shows "\<exists>argv'. put_slot argv (length xs) v = Some argv' \<and> holds argv' (xs @ [v])"
  using assms by (simp add: holds_def put_slot_def take_Suc_conv_app_nth)

lemma holds_strings:
  assumes "arg_ok st" and "holds argv xs" and "has_memory A n"
    and "length (arg_list st) \<le> 30" and "length xs + length (arg_list st) \<le> BCD_ARGC_LIMIT"
  shows "\<exists>argv'. bcd_arg_get A argv (length xs) 30 st = Some (int (length (arg_list st)), argv') \<and>
    holds argv' (xs @ map Str (arg_list st))"
proof (cases "arg_list st = []")
  case True
  with assms show ?thesis by (simp add: bcd_arg_get_def arg_ok_def)
next
  case False
  let ?n = "length (arg_list st)"
  have c: "arg_count st = of_nat ?n" and "arg_count st \<noteq> 0"
    using assms(1,4) False count_zero_Nil [of "arg_list st"] by (auto simp: arg_ok_def)
  have "unat (get_limit 30 (of_nat ?n)) = ?n"
    using assms(4) by (subst get_limit_unat) simp_all
  then have "bcd_arg_get A argv (length xs) 30 st =
      Some (int ?n, take (length xs) argv @ map Str (arg_list st) @ drop (length xs + ?n) argv)"
    using string_slots_ok [of "arg_list st" A "length xs" 0 ?n argv] assms c \<open>arg_count st \<noteq> 0\<close>
    by (simp add: bcd_arg_get_def has_memory_def holds_def)
  with assms(2,5) show ?thesis
    by (simp add: holds_def)
qed

lemma holds_kv:
  assumes "monitor_ok st" and "kv_config st pre" and "has_memory A (kv_size pre st)"
    and "kv_size pre st < 2 ^ 64" and "holds argv xs" and "length xs < BCD_ARGC_LIMIT"
  shows "\<exists>argv'. bcd_kv_get A argv (length xs) lim (cf_invoke_separator (config st))
        (cf_invoke_ks (config st)) (cf_invoke_kp (config st)) st =
      Some (int (length (kv_strings pre st)), argv') \<and>
    holds argv' (xs @ map Str (kv_strings pre st))"
proof (cases "kv_list st = []")
  case True
  with assms show ?thesis
    by (simp add: kv_strings_def bcd_kv_get_none monitor_ok_def)
next
  case False
  obtain block where block: "alloc_block A (of_nat (kv_size pre st)) = Some block"
      "length block = kv_size pre st"
    using assms(3) by (auto simp: has_memory_def)
  have "bcd_kv_get A argv (length xs) lim (cf_invoke_separator (config st))
        (cf_invoke_ks (config st)) (Some pre) st =
      Some (1, argv[length xs := Str (pre @ kv_text (cf_invoke_separator (config st))
        (cf_invoke_ks (config st)) (kv_list st))])"
    using assms False block
    by (intro bcd_kv_get_single [where n = "kv_size pre st"])
      (simp_all add: monitor_ok_def kv_config_def kv_size_def holds_def)
  moreover have "cf_invoke_kp (config st) = Some pre"
    using assms(2) by (simp add: kv_config_def)
  ultimately show ?thesis
    using assms(5,6) False by (simp add: kv_strings_def holds_def take_Suc_conv_app_nth)
qed

lemma finish_argv_ok:
  assumes "monitor_ok st" and "kv_config st pre" and "has_memory (env_alloc E) (kv_size pre st)"
    and "kv_size pre st < 2 ^ 64" and "holds argv xs" and "length xs < 31"
  shows "\<exists>argv'. finish_argv E s argv (length xs) st = Some (bcd_execve (env_run E) s argv' st) \<and>
    holds argv' (xs @ map Str (kv_strings pre st) @ [Null_slot])"
proof -
  let ?ys = "xs @ map Str (kv_strings pre st)"
  have room: "length xs < BCD_ARGC_LIMIT"
    using assms(6) by (simp add: BCD_ARGC_LIMIT_def)
  obtain argv1 where kv: "bcd_kv_get (env_alloc E) argv (length xs)
        (of_nat BCD_ARGC_LIMIT - (of_nat (length xs) + 1)) (cf_invoke_separator (config st))
        (cf_invoke_ks (config st)) (cf_invoke_kp (config st)) st =
      Some (int (length (kv_strings pre st)), argv1)" and h1: "holds argv1 ?ys"
    using holds_kv [OF assms(1-5) room] by blast
  have "length (kv_strings pre st) \<le> 1"
    by (simp add: kv_strings_def)
  with assms(6) have "length ?ys < BCD_ARGC_LIMIT"
    by (simp add: BCD_ARGC_LIMIT_def)
  from holds_put [OF h1 this, of Null_slot] kv show ?thesis
    by (auto simp: finish_argv_def add.commute)
qed

lemma argv_strings_holds:
  assumes "holds argv (map Str xs @ [Null_slot])"
  shows "argv_strings argv = map Some xs"
proof -
  obtain ys where "argv = map Str xs @ Null_slot # ys"
    using assms append_take_drop_id [of "length xs + 1" argv] by (auto simp: holds_def)
      (metis append_Cons append_Nil append_assoc)
  moreover have "takeWhile (\<lambda>x. x \<noteq> Null_slot) (map Str xs @ Null_slot # ys) = map Str xs"
    by (subst takeWhile_append2) auto
  ultimately show ?thesis
    by (simp add: argv_strings_def)
qed

text \<open>The first slots, as far as the process identifier.\<close>

lemma start_argv:
  assumes "arg_ok st" and "has_memory A n" and "length (arg_list st) \<le> 30"
  shows "\<exists>argv1 argv2 argv3. put_slot (replicate BCD_ARGC_LIMIT Unset) 0 (Str path) = Some argv1 \<and>
    bcd_arg_get A argv1 1 (of_nat BCD_ARGC_LIMIT - 2) st =
      Some (int (length (arg_list st)), argv2) \<and>
    put_slot argv2 (1 + length (arg_list st)) (Str (target_process st)) = Some argv3 \<and>
    holds argv3 (map Str ([path] @ arg_list st @ [target_process st]))"
proof -
  have "holds (replicate BCD_ARGC_LIMIT Unset) []"
    by (simp add: holds_def)
  from holds_put [OF this, of "Str path"] obtain argv1
    where 1: "put_slot (replicate BCD_ARGC_LIMIT Unset) 0 (Str path) = Some argv1"
      and h1: "holds argv1 [Str path]"
    by (auto simp: BCD_ARGC_LIMIT_def)
  have "length [Str path] + length (arg_list st) \<le> BCD_ARGC_LIMIT"
    using assms(3) by (simp add: BCD_ARGC_LIMIT_def)
  from holds_strings [OF assms(1) h1 assms(2,3) this] obtain argv2
    where 2: "bcd_arg_get A argv1 1 30 st = Some (int (length (arg_list st)), argv2)"
      and h2: "holds argv2 (map Str (path # arg_list st))"
    by auto
  have "length (map Str (path # arg_list st)) < BCD_ARGC_LIMIT"
    using assms(3) by (simp add: BCD_ARGC_LIMIT_def)
  from holds_put [OF h2 this, of "Str (target_process st)"] obtain argv3
    where 3: "put_slot argv2 (1 + length (arg_list st)) (Str (target_process st)) = Some argv3"
      and h3: "holds argv3 (map Str (path # arg_list st) @ [Str (target_process st)])"
    by auto
  have "(of_nat BCD_ARGC_LIMIT - 2 :: u64) = 30"
    by (simp add: BCD_ARGC_LIMIT_def)
  with 1 2 3 h3 show ?thesis by auto
qed

definition accepts :: "monitor_env \<Rightarrow> u32 \<Rightarrow> bcd_monitor \<Rightarrow> bool" where
  "accepts E tid st \<longleftrightarrow> cf_request_handler (config st) = NULL \<or>
     env_request_handler E (cf_request_handler (config st)) tid \<noteq> -1"

lemma request_accepted:
  "accepts E (se_tid s) st \<Longrightarrow> bcd_request_handler E (se_tid s) (Some s) st = Some (0, st)"
  "accepts E (se_tid s) st \<Longrightarrow> bcd_request_handler E 0 (Some s) st = Some (0, st)"
  by (auto simp: bcd_request_handler_def accepts_def)

text \<open>
  C33: a trace request for a thread that the request handler lets through, with the path, the
  thread option and the key-value option configured, memory for the strings and at most 27
  arguments, runs the tracer with exactly the configured command line: the path, the arguments
  in order, the process, the thread option and the pairs; and nothing is written outside the
  vector of 32 pointers. (From 30 arguments on it is:
  \<open>bcd_backtrace_thread_overflow\<close>.)
\<close>

theorem bcd_backtrace_thread_argv:
  assumes "monitor_ok st" and "kv_config st pre" and "has_memory (env_alloc E) (kv_size pre st)"
    and "kv_size pre st < 2 ^ 64" and "accepts E (se_tid s) st"
    and "cf_invoke_path (config st) = Some path" and "cf_invoke_tp (config st) = Some tp"
    and "length (arg_list st) \<le> 27"
  shows "\<exists>argv. bcd_backtrace_thread E s st = Some (bcd_execve (env_run E) (Some s) argv st) \<and>
    argv_strings argv = map Some ([path] @ arg_list st @ [target_process st] @
      [tp @ pid_string (se_tid s)] @ kv_strings pre st)"
proof -
  let ?xs = "[path] @ arg_list st @ [target_process st]"
  let ?tp = "tp @ pid_string (se_tid s)"
  obtain argv1 argv2 argv3
    where 1: "put_slot (replicate BCD_ARGC_LIMIT Unset) 0 (Str path) = Some argv1"
      and 2: "bcd_arg_get (env_alloc E) argv1 1 (of_nat BCD_ARGC_LIMIT - 2) st =
        Some (int (length (arg_list st)), argv2)"
      and 3: "put_slot argv2 (1 + length (arg_list st)) (Str (target_process st)) = Some argv3"
      and h3: "holds argv3 (map Str ?xs)"
    using start_argv [of st "env_alloc E" "kv_size pre st" path] assms(1,3,8)
    by (auto simp: monitor_ok_def)
  have "length (map Str ?xs) < BCD_ARGC_LIMIT"
    using assms(8) by (simp add: BCD_ARGC_LIMIT_def)
  from holds_put [OF h3 this, of "Str ?tp"] obtain argv4
    where 4: "put_slot argv3 (1 + length (arg_list st) + 1) (Str ?tp) = Some argv4"
      and h4: "holds argv4 (map Str (?xs @ [?tp]))"
    by auto
  have "length (map Str (?xs @ [?tp])) < 31"
    using assms(8) by simp
  from finish_argv_ok [OF assms(1-4) h4 this, of "Some s"] obtain argv
    where 5: "finish_argv E (Some s) argv4 (1 + length (arg_list st) + 1 + 1) st =
        Some (bcd_execve (env_run E) (Some s) argv st)"
      and h: "holds argv (map Str (?xs @ [?tp] @ kv_strings pre st) @ [Null_slot])"
    by auto
  have "bcd_backtrace_thread E s st = Some (bcd_execve (env_run E) (Some s) argv st)"
    using 1 2 3 4 5 assms(3,6,7)
    by (simp add: bcd_backtrace_thread_def request_accepted [OF assms(5)] slot_of_def has_memory_def)
  with argv_strings_holds [OF h] show ?thesis by auto
qed

text \<open>A monitor with the default configuration that has served two requests.\<close>

definition example_monitor :: bcd_monitor where
  "example_monitor =
     arg_insert [45] (kv_insert \<lparr>kv_key = [97], kv_value = [98]\<rparr>
       (start_monitor (bcd_config_init_v1 1) 5))"

definition example_env :: "wake list \<Rightarrow> monitor_env" where
  "example_env ws =
     \<lparr>env_errno = None,
      env_alloc = \<lparr>alloc_string = \<lambda>_. True, alloc_block = \<lambda>n. Some (replicate (unat n) 0)\<rparr>,
      env_request_handler = \<lambda>_ _. 0, env_run = tracer_turns ws\<rparr>"

lemma example_monitor_eq:
  "example_monitor = (start_monitor (bcd_config_init_v1 1) 5)
     \<lparr>kv_list := [\<lparr>kv_key = [97], kv_value = [98]\<rparr>], kv_count := 1, kv_length := 3,
      arg_list := [[45]], arg_count := 1, arg_length := 2\<rparr>"
  by (simp add: example_monitor_def arg_insert_eq kv_insert_eq arg_ok_def kv_ok_def
      kv_weight_def arg_weight_def)

lemma has_memory_example: "n < 2 ^ 64 \<Longrightarrow> has_memory (env_alloc (example_env ws)) n"
  by (simp add: has_memory_def example_env_def unat_of_nat)

lemma cstr_of_literals:
  "cstr_of [] = []" "cstr_of (c # cs) = of_char c # cstr_of cs"
  by (simp_all add: cstr_of_def)

theorem bcd_backtrace_thread_argv_witness:
  "\<exists>argv. bcd_backtrace_thread (example_env []) (zero_session\<lparr>se_tid := 6\<rparr>) example_monitor =
      Some (bcd_execve (tracer_turns []) (Some (zero_session\<lparr>se_tid := 6\<rparr>)) argv example_monitor) \<and>
    argv_strings argv = map Some [cstr_of ''/opt/backtrace/bin/ptrace'', [45], pid_string 5,
      cstr_of ''--thread='' @ pid_string 6, cstr_of ''--kv='' @ [97, 58, 98]]"
proof -
  have ok: "monitor_ok example_monitor"
    by (simp add: monitor_ok_def example_monitor_eq kv_ok_def arg_ok_def kv_clean_def
        kv_weight_def arg_weight_def)
  have cf: "kv_config example_monitor (cstr_of ''--kv='')"
    by (simp add: kv_config_def example_monitor_eq bcd_config_init_v1_def cstr_of_literals)
  have size: "kv_size (cstr_of ''--kv='') example_monitor = 10"
    by (simp add: kv_size_def example_monitor_eq kv_weight_def cstr_of_literals)
  show ?thesis
    using bcd_backtrace_thread_argv [OF ok cf, of "example_env []" "zero_session\<lparr>se_tid := 6\<rparr>"
        "cstr_of ''/opt/backtrace/bin/ptrace''" "cstr_of ''--thread=''"]
      has_memory_example [of 10 "[]"]
    by (simp add: size kv_strings_def)
      (simp add: example_monitor_eq bcd_config_init_v1_def accepts_def example_env_def)
qed

text \<open>
  C38: the vector has no room for the arguments the monitor accepts. With 30 or more of them,
  the thread option is written one slot past the vector of 32 pointers.
\<close>

theorem bcd_backtrace_thread_overflow:
  assumes "arg_ok st" and "30 \<le> length (arg_list st)" and "length (arg_list st) < 2 ^ 64"
    and "has_memory (env_alloc E) n" and "accepts E (se_tid s) st"
    and "cf_invoke_tp (config st) \<noteq> None"
  shows "bcd_backtrace_thread E s st = None"
proof -
  let ?path = "slot_of (cf_invoke_path (config st))"
  define argv1 where "argv1 = (replicate BCD_ARGC_LIMIT Unset)[0 := ?path]"
  have 1: "put_slot (replicate BCD_ARGC_LIMIT Unset) 0 ?path = Some argv1"
    by (simp add: put_slot_def argv1_def BCD_ARGC_LIMIT_def)
  have l1: "length argv1 = 32"
    by (simp add: argv1_def BCD_ARGC_LIMIT_def)
  have c: "arg_count st = of_nat (length (arg_list st))" and c0: "arg_count st \<noteq> 0"
    using assms(1-3) count_zero_Nil [of "arg_list st"] by (auto simp: arg_ok_def)
  have lim: "unat (get_limit 30 (of_nat (length (arg_list st)))) = 30"
    using assms(2,3) by (subst get_limit_unat) simp_all
  obtain argv2 where 2: "bcd_arg_get (env_alloc E) argv1 1 (of_nat BCD_ARGC_LIMIT - 2) st =
      Some (30, argv2)" and l2: "length argv2 = 32"
    using string_slots_ok [of "arg_list st" "env_alloc E" 1 0 30 argv1] assms(2,4) c c0 lim l1
    by (simp add: bcd_arg_get_def has_memory_def BCD_ARGC_LIMIT_def)
  have 3: "put_slot argv2 31 (Str (target_process st)) = Some (argv2[31 := Str (target_process st)])"
    by (simp add: put_slot_def l2)
  obtain tp where tp: "cf_invoke_tp (config st) = Some tp"
    using assms(6) by auto
  have 4: "put_slot (argv2[31 := Str (target_process st)]) 32 v = None" for v
    by (simp add: put_slot_def l2)
  show ?thesis
    using 1 2 3 4 tp assms(4)
    by (simp add: bcd_backtrace_thread_def request_accepted [OF assms(5)] has_memory_def)
qed

lemma many_arguments:
  "length xs < 2 ^ 64 \<Longrightarrow> distinct xs \<Longrightarrow>
    arg_ok (st\<lparr>arg_list := xs, arg_count := of_nat (length xs),
      arg_length := of_nat (sum_list (map arg_weight xs))\<rparr>)"
  by (simp add: arg_ok_def)

theorem bcd_backtrace_thread_overflow_witness:
  "bcd_backtrace_thread (example_env []) zero_session
     ((start_monitor (bcd_config_init_v1 1) 5)
       \<lparr>arg_list := map (\<lambda>n. replicate n 45) [1..<31], arg_count := 30,
        arg_length := of_nat (sum_list (map arg_weight (map (\<lambda>n. replicate n 45) [1..<31])))\<rparr>) = None"
proof -
  have "distinct (map (\<lambda>n. replicate n (45 :: byte)) [1..<31])"
    by (auto simp: distinct_map inj_on_def dest: arg_cong [where f = length])
  then show ?thesis
    using bcd_backtrace_thread_overflow [OF many_arguments _ _ has_memory_example [of 10 "[]"],
        of "map (\<lambda>n. replicate n 45) [1..<31]" "start_monitor (bcd_config_init_v1 1) 5" zero_session]
    by (simp add: accepts_def bcd_config_init_v1_def)
qed

text \<open>
  The fatal path traces the process without a session, but \<open>bcd_request_handler\<close> reads
  the session's thread whenever it is given thread 0: every fatal request dereferences a null
  pointer before anything is traced.
\<close>

theorem bcd_backtrace_process_null_session: "bcd_backtrace_process E None st = None"
  by (simp add: bcd_backtrace_process_def bcd_request_handler_def)

text \<open>A process trace with a session: the command line without the thread option.\<close>

lemma bcd_backtrace_process_argv:
  assumes "monitor_ok st" and "kv_config st pre" and "has_memory (env_alloc E) (kv_size pre st)"
    and "kv_size pre st < 2 ^ 64" and "accepts E (se_tid s) st"
    and "cf_invoke_path (config st) = Some path" and "length (arg_list st) \<le> 28"
  shows "\<exists>argv. bcd_backtrace_process E (Some s) st =
      Some (bcd_execve (env_run E) (Some s) argv st) \<and>
    argv_strings argv =
      map Some ([path] @ arg_list st @ [target_process st] @ kv_strings pre st)"
proof -
  let ?xs = "[path] @ arg_list st @ [target_process st]"
  obtain argv1 argv2 argv3
    where 1: "put_slot (replicate BCD_ARGC_LIMIT Unset) 0 (Str path) = Some argv1"
      and 2: "bcd_arg_get (env_alloc E) argv1 1 (of_nat BCD_ARGC_LIMIT - 2) st =
        Some (int (length (arg_list st)), argv2)"
      and 3: "put_slot argv2 (1 + length (arg_list st)) (Str (target_process st)) = Some argv3"
      and h3: "holds argv3 (map Str ?xs)"
    using start_argv [of st "env_alloc E" "kv_size pre st" path] assms(1,3,7)
    by (auto simp: monitor_ok_def)
  have "length (map Str ?xs) < 31"
    using assms(7) by simp
  from finish_argv_ok [OF assms(1-4) h3 this, of "Some s"] obtain argv
    where 5: "finish_argv E (Some s) argv3 (1 + length (arg_list st) + 1) st =
        Some (bcd_execve (env_run E) (Some s) argv st)"
      and h: "holds argv (map Str (?xs @ kv_strings pre st) @ [Null_slot])"
    by auto
  have "bcd_backtrace_process E (Some s) st = Some (bcd_execve (env_run E) (Some s) argv st)"
    using 1 2 3 5 assms(3,6)
    by (simp add: bcd_backtrace_process_def request_accepted [OF assms(5)] has_memory_def)
  with argv_strings_holds [OF h] show ?thesis by auto
qed

end
