(* ===== verification/Bcd_Session.thy ===== *)
theory Bcd_Session
  imports Bcd_Events Bcd_Tracer
begin

text \<open>
  A client's session in the monitor (\<open>bcd_read_request\<close>, \<open>bcd_perform_request\<close>,
  \<open>bcd_write_ack\<close>, \<open>bcd_handler_request_response\<close>). The socket is the script of
  \<open>Bcd_IO\<close>; the descriptor does not block, so a request may arrive over several calls, with
  the number of bytes so far in the session's offset.
\<close>

text \<open>Subtraction of \<open>size_t\<close> values.\<close>

definition size_sub :: "nat \<Rightarrow> nat \<Rightarrow> nat" where
  "size_sub a b = (if b \<le> a then a - b else 2 ^ 64 + a - b)"

definition EXIT_SUCCESS :: int where "EXIT_SUCCESS = 0"
definition EXIT_FAILURE :: int where "EXIT_FAILURE = 1"

text \<open>
  The result of reading or writing: how the function ends, the \<open>errno\<close> of a failure, and the
  state.
\<close>

record session_run =
  sr_session :: bcd_session
  sr_monitor :: bcd_monitor
  sr_env :: io_env

definition fatal_error :: "bcd_session \<Rightarrow> string \<Rightarrow> int \<Rightarrow> bcd_monitor \<Rightarrow> bcd_monitor" where
  "fatal_error s msg code st = snd (bcd_error BCD_EVENT_FATAL (Some s) msg code st)"

definition errno_code :: "io_errno \<Rightarrow> int" where
  "errno_code e = (case e of E_INTR \<Rightarrow> 4 | E_AGAIN \<Rightarrow> 11 | E_OTHER n \<Rightarrow> n)"

text \<open>
  The loop of \<open>bcd_read_request\<close>, with its variables \<open>target\<close> and \<open>ac\<close>. A \<open>continue\<close> in
  the \<open>do\<close> loop tests the condition.
\<close>

function read_request_loop ::
    "nat \<Rightarrow> nat \<Rightarrow> session_run \<Rightarrow> (outcome \<times> io_errno option \<times> session_run) option" where
  "read_request_loop target ac R =
     (let s = sr_session R
      in case sys_read (size_sub (sizeof_packet + target) ac) (rd_events (sr_env R)) of
        (Failed E_INTR, es) \<Rightarrow>
          (let R = R\<lparr>sr_env := (sr_env R)\<lparr>rd_events := es\<rparr>\<rparr>
           in if ac < sizeof_packet + target then read_request_loop target ac R
              else Some (Returns 0, None, R\<lparr>sr_session := s\<lparr>se_offset := 0\<rparr>\<rparr>))
      | (Failed E_AGAIN, es) \<Rightarrow>
          Some (Returns (-1), Some E_AGAIN,
            R\<lparr>sr_session := s\<lparr>se_offset := ac\<rparr>, sr_env := (sr_env R)\<lparr>rd_events := es\<rparr>\<rparr>)
      | (Failed (E_OTHER e), es) \<Rightarrow>
          Some (Exits EXIT_FAILURE, None,
            R\<lparr>sr_monitor := fatal_error s ''unexpected termination of stream'' e (sr_monitor R),
              sr_env := (sr_env R)\<lparr>rd_events := es\<rparr>\<rparr>)
      | (Ok bs, es) \<Rightarrow>
          (if bs = [] then
             if se_terminated s then Some (Returns 0, None, R)
             else Some (Exits EXIT_FAILURE, None,
               R\<lparr>sr_monitor := fatal_error s ''unexpected termination of stream'' 0 (sr_monitor R)\<rparr>)
           else
             (case store (se_packet s) ac bs of
                None \<Rightarrow> None
              | Some pkt \<Rightarrow>
                  (let s = s\<lparr>se_packet := pkt\<rparr>;
                       ac = ac + length bs;
                       R = R\<lparr>sr_session := s, sr_env := (sr_env R)\<lparr>rd_events := es\<rparr>\<rparr>
                   in case (if sizeof_packet \<le> ac then map_option unat (packet_length pkt)
                            else Some target) of
                        None \<Rightarrow> None
                      | Some target \<Rightarrow>
                          if sizeof_packet \<le> ac \<and> BCD_PACKET_LIMIT < target
                          then Some (Exits EXIT_FAILURE, None,
                            R\<lparr>sr_monitor := fatal_error s ''message size is too large''
                                (int target) (sr_monitor R)\<rparr>)
                          else if ac < sizeof_packet + target
                          then read_request_loop target ac R
                          else Some (Returns 0, None, R\<lparr>sr_session := s\<lparr>se_offset := 0\<rparr>\<rparr>)))))"
  by pat_completeness auto

termination read_request_loop
proof (relation "measure (\<lambda>(target, ac, R). rd_weight (rd_events (sr_env R)))", goal_cases)
  case 1
  then show ?case by simp
next
  case (2 target ac R s res es bs)
  then show ?case
    using sys_read_weight [of "size_sub (sizeof_packet + target) ac" "rd_events (sr_env R)" bs es]
    by simp
next
  case (3 target ac R s res es)
  then show ?case
    using sys_read_intr [of "size_sub (sizeof_packet + target) ac" "rd_events (sr_env R)" E_INTR es]
    by simp
qed

declare read_request_loop.simps [simp del]

definition bcd_read_request :: "session_run \<Rightarrow> (outcome \<times> io_errno option \<times> session_run) option" where
  "bcd_read_request R = do {
     let ac = se_offset (sr_session R);
     target \<leftarrow> (if sizeof_packet < ac then map_option unat (packet_length (se_packet (sr_session R)))
                else Some 0);
     read_request_loop target ac R
   }"

text \<open>\<open>bcd_write_ack\<close>: the acknowledgement is made in place of the request's header.\<close>

function write_ack_loop ::
    "nat \<Rightarrow> session_run \<Rightarrow> outcome \<times> io_errno option \<times> session_run" where
  "write_ack_loop ac R =
     (let s = sr_session R
      in case sys_write (size_sub sizeof_packet ac) (wr_events (sr_env R)) of
        (Failed E_INTR, es) \<Rightarrow>
          (let R = R\<lparr>sr_env := (sr_env R)\<lparr>wr_events := es\<rparr>\<rparr>
           in if ac < sizeof_packet then write_ack_loop ac R
              else (Returns 0, None, R\<lparr>sr_session := s\<lparr>se_offset := 0\<rparr>\<rparr>))
      | (Failed E_AGAIN, es) \<Rightarrow>
          (Returns (-1), Some E_AGAIN,
            R\<lparr>sr_session := s\<lparr>se_offset := ac\<rparr>, sr_env := (sr_env R)\<lparr>wr_events := es\<rparr>\<rparr>)
      | (Failed (E_OTHER e), es) \<Rightarrow>
          (Exits EXIT_FAILURE, None,
            R\<lparr>sr_monitor := fatal_error s ''unknown communication error'' e (sr_monitor R),
              sr_env := (sr_env R)\<lparr>wr_events := es\<rparr>\<rparr>)
      | (Ok r, es) \<Rightarrow>
          if r = 0 then
            (Exits EXIT_FAILURE, None,
              R\<lparr>sr_monitor := fatal_error s ''premature process termination'' 0 (sr_monitor R),
                sr_env := (sr_env R)\<lparr>wr_events := es\<rparr>\<rparr>)
          else
            (let R = R\<lparr>sr_env := (sr_env R)\<lparr>wr_events := es,
                   sent := sent (sr_env R) @ take r (drop ac (se_packet s))\<rparr>\<rparr>
             in if ac + r < sizeof_packet then write_ack_loop (ac + r) R
                else (Returns 0, None, R\<lparr>sr_session := s\<lparr>se_offset := 0\<rparr>\<rparr>)))"
  by pat_completeness auto

termination write_ack_loop
proof (relation "measure (\<lambda>(ac, R). length (wr_events (sr_env R)))", goal_cases)
  case 1
  then show ?case by simp
next
  case (2 ac R s res es r)
  then show ?case
    using sys_write_weight [of "size_sub sizeof_packet ac" "wr_events (sr_env R)" "Ok r" es]
    by simp
next
  case (3 ac R s res es)
  then show ?case
    using sys_write_weight [of "size_sub sizeof_packet ac" "wr_events (sr_env R)" "Failed E_INTR" es]
    by simp
qed

declare write_ack_loop.simps [simp del]

definition bcd_write_ack :: "session_run \<Rightarrow> (outcome \<times> io_errno option \<times> session_run) option" where
  "bcd_write_ack R = do {
     let s = sr_session R;
     pkt \<leftarrow> store (se_packet s) 0 (enc32 (op_value BCD_OP_OK));
     pkt \<leftarrow> store pkt 4 (enc32 0);
     Some (write_ack_loop (se_offset s) (R\<lparr>sr_session := s\<lparr>se_packet := pkt\<rparr>\<rparr>))
   }"

section \<open>Receiving a packet\<close>

text \<open>The session has the first \<open>k\<close> bytes of the packet.\<close>

definition has_bytes :: "bcd_session \<Rightarrow> byte list \<Rightarrow> nat \<Rightarrow> bool" where
  "has_bytes s P k \<longleftrightarrow> session_ok s \<and> at_mem (se_packet s) 0 (take k P)"

lemma has_bytes_length:
  assumes "has_bytes s (packet_bytes p d) k" and "8 \<le> k"
  shows "packet_length (se_packet s) = Some (of_nat (length d))"
proof -
  let ?P = "packet_bytes p d"
  have "take k ?P = enc32 (op_value p) @ enc32 (of_nat (length d)) @ take (k - 8) d"
    using assms(2) by (simp add: packet_bytes_def)
  then have "at_mem (se_packet s) 4 (enc32 (of_nat (length d)))"
    using assms(1) by (simp add: has_bytes_def at_mem_append)
  then show ?thesis
    by (simp add: packet_length_def load32_at)
qed

lemma has_bytes_store:
  assumes "has_bytes s P k" and "bs = take (length bs) (drop k P)" and "k \<le> length P"
    and "k + length bs \<le> 1032"
  shows "\<exists>pkt. store (se_packet s) k bs = Some pkt \<and>
    has_bytes (s\<lparr>se_packet := pkt\<rparr>) P (k + length bs)"
proof -
  have len: "length (se_packet s) = 1032"
    using assms(1) by (simp add: has_bytes_def session_ok_def sizeof_packet_def BCD_PACKET_LIMIT_def)
  have "take (k + length bs) P = take k P @ bs"
    using assms(2) by (simp add: take_add)
  moreover have "at_mem (patch (se_packet s) k bs) 0 (take k P)"
    using assms len by (simp add: has_bytes_def at_mem_patch_other)
  moreover have "at_mem (patch (se_packet s) k bs) k bs"
    using assms(4) len by (simp add: at_mem_patch_same)
  ultimately show ?thesis
    using assms(1,3,4) len
    by (auto simp: store_patch has_bytes_def session_ok_def at_mem_append min_absorb2)
qed

text \<open>The two ways a read of a packet in progress can end.\<close>

definition read_ends :: "bcd_op \<Rightarrow> byte list \<Rightarrow> byte list \<Rightarrow> nat \<Rightarrow> session_run \<Rightarrow> outcome \<Rightarrow>
    io_errno option \<Rightarrow> session_run \<Rightarrow> bool" where
  "read_ends p d rest ac R out e R' \<longleftrightarrow>
     (let s' = sr_session R'; es' = rd_events (sr_env R'); P = packet_bytes p d
      in (\<exists>k pkt. s' = (sr_session R)\<lparr>se_packet := pkt, se_offset := k\<rparr> \<and>
           sr_monitor R' = sr_monitor R \<and> sr_env R' = (sr_env R)\<lparr>rd_events := es'\<rparr> \<and> rd_live es' \<and>
           (out = Returns 0 \<and> e = None \<and> k = 0 \<and> has_bytes s' P (length P) \<and>
              rd_bytes es' = rest \<and> rd_waits es' \<le> rd_waits (rd_events (sr_env R)) \<or>
            out = Returns (-1) \<and> e = Some E_AGAIN \<and> ac \<le> k \<and> k < length P \<and> has_bytes s' P k \<and>
              rd_bytes es' = drop k P @ rest \<and> rd_waits es' < rd_waits (rd_events (sr_env R)))))"

lemma read_ends_later:
  assumes "read_ends p d rest ac' R1 out e R'" and "ac \<le> ac'"
    and "sr_session R1 = (sr_session R)\<lparr>se_packet := pkt\<rparr>" and "sr_monitor R1 = sr_monitor R"
    and "sr_env R1 = (sr_env R)\<lparr>rd_events := es\<rparr>" and "rd_waits es \<le> rd_waits (rd_events (sr_env R))"
  shows "read_ends p d rest ac R out e R'"
  using assms unfolding read_ends_def Let_def by (elim exE conjE) (rule exI, rule exI, auto)

lemma read_request_loop_ends:
  assumes "has_bytes (sr_session R) (packet_bytes p d) ac" and "length d \<le> BCD_PACKET_LIMIT"
    and "ac < 8 + length d" and "target = (if 8 \<le> ac then length d else 0)"
    and "rd_bytes (rd_events (sr_env R)) = drop ac (packet_bytes p d) @ rest"
    and "rd_live (rd_events (sr_env R))"
  shows "\<exists>out e R'. read_request_loop target ac R = Some (out, e, R') \<and>
    read_ends p d rest ac R out e R'"
  using assms(1,3-)
proof (induction target ac R rule: read_request_loop.induct)
  case (1 target ac R)
  let ?P = "packet_bytes p d" and ?s = "sr_session R" and ?n = "size_sub (sizeof_packet + target) ac"
  have d: "length d \<le> 1024"
    using assms(2) by (simp add: BCD_PACKET_LIMIT_def)
  have tac: "ac < 8 + target"
    using "1.prems"(2,3) by (simp split: if_splits)
  then have n: "?n = 8 + target - ac"
    by (simp add: size_sub_def sizeof_packet_def)
  obtain res es where read: "sys_read ?n (rd_events (sr_env R)) = (res, es)"
    by (cases "sys_read ?n (rd_events (sr_env R))")
  note step = read_request_loop.simps [of target ac R, unfolded Let_def read prod.case]
  have "rd_bytes (rd_events (sr_env R)) \<noteq> []"
    using "1.prems"(2,4) by simp
  note live = sys_read_live [OF "1.prems"(5) _ this read]
  have nz: "?n \<noteq> 0"
    using tac by (simp add: n)
  show ?case
  proof (cases res)
    case (Failed er)
    note bytes = sys_read_bytes(2) [OF read [unfolded Failed]]
    show ?thesis
    proof (cases er)
      case E_INTR
      let ?R = "R\<lparr>sr_env := (sr_env R)\<lparr>rd_events := es\<rparr>\<rparr>"
      have "\<exists>out e R'. read_request_loop target ac ?R = Some (out, e, R') \<and>
          read_ends p d rest ac ?R out e R'"
        using "1.IH"(2) [OF refl read [symmetric] Failed E_INTR refl] live [OF nz] bytes "1.prems"
          Failed E_INTR tac by (simp add: sizeof_packet_def)
      then obtain out e R' where "read_request_loop target ac ?R = Some (out, e, R')"
          "read_ends p d rest ac ?R out e R'" by blast
      moreover from this(2) have "read_ends p d rest ac R out e R'"
        by (rule read_ends_later [where pkt = "se_packet ?s" and es = es])
          (use live [OF nz] Failed E_INTR in simp_all)
      ultimately show ?thesis
        using Failed E_INTR tac by (simp add: step sizeof_packet_def)
    next
      case E_AGAIN
      have "has_bytes (?s\<lparr>se_offset := ac\<rparr>) ?P ac"
        using "1.prems"(1) by (simp add: has_bytes_def session_ok_def)
      then have "read_ends p d rest ac R (Returns (-1)) (Some E_AGAIN)
          (R\<lparr>sr_session := ?s\<lparr>se_offset := ac\<rparr>, sr_env := (sr_env R)\<lparr>rd_events := es\<rparr>\<rparr>)"
        unfolding read_ends_def Let_def
        using live [OF nz] bytes "1.prems"(2,4) Failed E_AGAIN
        by (intro exI [of _ ac] exI [of _ "se_packet ?s"]) auto
      then show ?thesis
        using Failed E_AGAIN by (simp add: step)
    next
      case (E_OTHER c)
      then show ?thesis using live [OF nz] Failed by simp
    qed
  next
    case (Ok bs)
    have bytes: "rd_bytes (rd_events (sr_env R)) = bs @ rd_bytes es" "length bs \<le> ?n"
      using sys_read_bytes(1) [OF read [unfolded Ok]] by auto
    have ne: "bs \<noteq> []" and waits: "rd_waits es \<le> rd_waits (rd_events (sr_env R))"
      using live [OF nz] Ok by simp_all
    have le: "ac + length bs \<le> 8 + length d"
      using bytes(2) n "1.prems"(2,3) by (auto split: if_splits)
    have bs: "bs = take (length bs) (drop ac ?P)"
    proof -
      have "take (length bs) (drop ac ?P @ rest) = bs"
        using bytes(1) "1.prems"(4) by (metis append_eq_conv_conj)
      then show ?thesis using le by simp
    qed
    have left: "rd_bytes es = drop (ac + length bs) ?P @ rest"
    proof -
      have "rd_bytes es = drop (length bs) (drop ac ?P @ rest)"
        using bytes(1) "1.prems"(4) by (metis append_eq_conv_conj)
      then show ?thesis using le by (simp add: add.commute)
    qed
    obtain pkt where pkt: "store (se_packet ?s) ac bs = Some pkt"
        "has_bytes (?s\<lparr>se_packet := pkt\<rparr>) ?P (ac + length bs)"
      using has_bytes_store [OF "1.prems"(1) bs] "1.prems"(2) le d by auto
    let ?R = "R\<lparr>sr_session := ?s\<lparr>se_packet := pkt\<rparr>, sr_env := (sr_env R)\<lparr>rd_events := es\<rparr>\<rparr>"
    let ?t = "if 8 \<le> ac + length bs then length d else 0"
    have t: "(if sizeof_packet \<le> ac + length bs then map_option unat (packet_length pkt)
        else Some target) = Some ?t"
      using has_bytes_length [OF pkt(2)] d "1.prems"(3)
      by (auto simp: sizeof_packet_def unat_of_nat)
    have small: "\<not> (sizeof_packet \<le> ac + length bs \<and> BCD_PACKET_LIMIT < ?t)"
      using d by (simp add: BCD_PACKET_LIMIT_def)
    note step' = step [unfolded Ok, simplified ne pkt(1) if_False io_result.case option.case, unfolded t
        option.case if_not_P [OF small]]
    show ?thesis
    proof (cases "ac + length bs < sizeof_packet + ?t")
      case True
      then have "ac + length bs < 8 + length d"
        by (auto simp: sizeof_packet_def split: if_splits)
      then have "\<exists>out e R'. read_request_loop ?t (ac + length bs) ?R = Some (out, e, R') \<and>
          read_ends p d rest (ac + length bs) ?R out e R'"
        using "1.IH"(1) [OF refl read [symmetric] Ok ne pkt(1) refl refl refl t small True]
          pkt(2) left live [OF nz] Ok by simp
      then obtain out e R' where run: "read_request_loop ?t (ac + length bs) ?R = Some (out, e, R')"
          "read_ends p d rest (ac + length bs) ?R out e R'" by blast
      from run(2) have "read_ends p d rest ac R out e R'"
        by (rule read_ends_later [where pkt = pkt and es = es]) (use waits in simp_all)
      with run(1) True show ?thesis
        by (auto simp: step')
    next
      case False
      then have all: "ac + length bs = 8 + length d"
        using le by (auto simp: sizeof_packet_def split: if_splits)
      have "has_bytes (?s\<lparr>se_packet := pkt, se_offset := 0\<rparr>) ?P (length ?P)"
        using pkt(2) by (simp add: has_bytes_def session_ok_def all)
      then have "read_ends p d rest ac R (Returns 0) None
          (?R\<lparr>sr_session := ?s\<lparr>se_packet := pkt, se_offset := 0\<rparr>\<rparr>)"
        unfolding read_ends_def Let_def
        using live [OF nz] Ok left all waits
        by (intro exI [of _ 0] exI [of _ pkt]) auto
      with False show ?thesis
        by (auto simp: step')
    qed
  qed
qed

lemma received_fields:
  assumes "has_bytes s (packet_bytes p d) (8 + length d)" and "length d \<le> BCD_PACKET_LIMIT"
  shows "packet_op (se_packet s) = Some (op_value p)"
    and "packet_length (se_packet s) = Some (of_nat (length d))"
    and "se_payload s = d" and "packet_ok s" and "at_mem (se_packet s) 8 d"
proof -
  let ?pkt = "se_packet s"
  have len: "length ?pkt = 1032" and d: "length d \<le> 1024"
    using assms by (simp_all add: has_bytes_def session_ok_def sizeof_packet_def BCD_PACKET_LIMIT_def)
  have "at_mem ?pkt 0 (packet_bytes p d)"
    using assms(1) by (simp add: has_bytes_def)
  then have parts: "at_mem ?pkt 0 (enc32 (op_value p))"
      "at_mem ?pkt 4 (enc32 (of_nat (length d)))" "at_mem ?pkt 8 d"
    by (simp_all add: packet_bytes_def at_mem_append)
  then show "packet_op ?pkt = Some (op_value p)"
    and l: "packet_length ?pkt = Some (of_nat (length d))" and "at_mem ?pkt 8 d"
    by (simp_all add: packet_op_def packet_length_def load32_at)
  have n: "unat (of_nat (length d) :: u32) = length d"
    using d by (simp add: unat_of_nat)
  show "se_payload s = d"
    using parts(3) by (simp add: se_payload_def l n sizeof_packet_def at_mem_def)
  show "packet_ok s"
    using d len by (simp add: packet_ok_def session_ok_def l n sizeof_packet_def BCD_PACKET_LIMIT_def)
qed

text \<open>
  C34: a request may arrive in pieces. A read that starts or resumes a packet after any number
  of its bytes but the 8 of its header, over any fragmentation and interruption, either
  completes the packet byte for byte and leaves what follows it in the socket, or stops where
  the socket is empty with the count of its bytes in the offset. After a pause exactly behind
  the header the packet is not assembled: the monitor exits
  (\<open>bcd_read_request_header_boundary\<close>).
\<close>

theorem bcd_read_request_resumes:
  assumes "has_bytes (sr_session R) (packet_bytes p d) (se_offset (sr_session R))"
    and "length d \<le> BCD_PACKET_LIMIT"
    and "se_offset (sr_session R) < 8 + length d" and "se_offset (sr_session R) \<noteq> 8"
    and "rd_bytes (rd_events (sr_env R)) =
      drop (se_offset (sr_session R)) (packet_bytes p d) @ rest"
    and "rd_live (rd_events (sr_env R))"
  shows "\<exists>out e R'. bcd_read_request R = Some (out, e, R') \<and>
    read_ends p d rest (se_offset (sr_session R)) R out e R'"
proof -
  let ?ac = "se_offset (sr_session R)"
  have d: "length d \<le> 1024"
    using assms(2) by (simp add: BCD_PACKET_LIMIT_def)
  have "(if sizeof_packet < ?ac then map_option unat (packet_length (se_packet (sr_session R)))
      else Some 0) = Some (if 8 \<le> ?ac then length d else 0)"
    using has_bytes_length [OF assms(1)] assms(4) d
    by (auto simp: sizeof_packet_def unat_of_nat)
  then show ?thesis
    unfolding bcd_read_request_def Let_def
    using read_request_loop_ends [OF assms(1-3) refl assms(5,6)] by simp
qed

text \<open>
  The exception is a read that stopped exactly behind the header. When it is resumed the
  length is not consulted (\<open>ac > sizeof *packet\<close>), \<open>read\<close> is asked for no bytes, and its
  result 0 is taken for the end of the stream: the monitor exits although the client is
  still sending.
\<close>

theorem bcd_read_request_header_boundary:
  assumes "se_offset (sr_session R) = 8" and "\<not> se_terminated (sr_session R)"
  shows "bcd_read_request R = Some (Exits EXIT_FAILURE, None,
    R\<lparr>sr_monitor := fatal_error (sr_session R) ''unexpected termination of stream'' 0 (sr_monitor R)\<rparr>)"
proof -
  have "\<exists>es'. sys_read 0 es = (Ok [], es')" for es
    by (induction es) (metis sys_read.simps(1), rename_tac e es, case_tac e, auto)
  then obtain es' where "sys_read 0 (rd_events (sr_env R)) = (Ok [], es')"
    by blast
  then show ?thesis
    using assms
    by (simp add: bcd_read_request_def read_request_loop.simps [of 0 8 R] sizeof_packet_def
        size_sub_def Let_def)
qed

theorem bcd_read_request_resumes_witness:
  "\<exists>out e R'. bcd_read_request \<lparr>sr_session = zero_session, sr_monitor = example_start,
       sr_env = \<lparr>rd_events = [Rd_data [3, 0, 0], Rd_intr, Rd_data [0, 4, 0, 0, 0, 97, 0, 98],
         Rd_data [0, 5]], wr_events = [], sel_events = [], sent = []\<rparr>\<rparr> = Some (out, e, R') \<and>
     out = Returns 0 \<and> rd_bytes (rd_events (sr_env R')) = [5] \<and>
     se_payload (sr_session R') = [97, 0, 98, 0]"
proof -
  have P: "packet_bytes BCD_OP_KV [97, 0, 98, 0] = [3, 0, 0, 0, 4, 0, 0, 0, 97, 0, 98, 0]"
    by code_simp
  have start: "has_bytes zero_session (packet_bytes BCD_OP_KV [97, 0, 98, 0]) 0"
    by (simp add: has_bytes_def session_ok_zero at_mem_def)
  let ?R = "\<lparr>sr_session = zero_session, sr_monitor = example_start,
       sr_env = \<lparr>rd_events = [Rd_data [3, 0, 0], Rd_intr, Rd_data [0, 4, 0, 0, 0, 97, 0, 98],
         Rd_data [0, 5]], wr_events = [], sel_events = [], sent = []\<rparr>\<rparr>"
  have "\<exists>out e R'. bcd_read_request ?R = Some (out, e, R') \<and>
      read_ends BCD_OP_KV [97, 0, 98, 0] [5] 0 ?R out e R'"
    using bcd_read_request_resumes [of ?R BCD_OP_KV "[97, 0, 98, 0]" "[5]"] start
    by (simp add: P BCD_PACKET_LIMIT_def zero_session_def)
  then show ?thesis
    unfolding read_ends_def Let_def
    by (elim exE conjE disjE)
      (auto simp: BCD_PACKET_LIMIT_def intro!: received_fields(3) [where p = BCD_OP_KV])
qed

theorem bcd_read_request_header_boundary_witness:
  "\<exists>R'. bcd_read_request \<lparr>sr_session = zero_session\<lparr>se_offset := 8\<rparr>, sr_monitor = example_start,
       sr_env = \<lparr>rd_events = [Rd_data [97, 0, 98, 0]], wr_events = [], sel_events = [],
         sent = []\<rparr>\<rparr> = Some (Exits EXIT_FAILURE, None, R')"
  by (subst bcd_read_request_header_boundary) (simp_all add: zero_session_def)

end
