(* ===== verification/Bcd_Request.thy ===== *)
theory Bcd_Request
  imports Bcd_Session
begin

text \<open>
  Performing requests (\<open>bcd_perform_request\<close>) and the invariant of the monitor's state: no
  request, well-formed or not, breaks the lists or the packet instance of the session.
\<close>

definition bcd_perform_request ::
    "monitor_env \<Rightarrow> bcd_session \<Rightarrow> bcd_monitor \<Rightarrow> (outcome \<times> bcd_session \<times> bcd_monitor) option" where
  "bcd_perform_request E s st = do {
     v \<leftarrow> packet_op (se_packet s);
     case op_of v of
       Some BCD_OP_TID \<Rightarrow> do {
         tid \<leftarrow> load32 (se_packet s) sizeof_packet;
         Some (Returns 0, s\<lparr>se_tid := tid\<rparr>, st)
       }
     | Some BCD_OP_KV \<Rightarrow> do { (r, st) \<leftarrow> bcd_kv_set (env_errno E) s st; Some (Returns r, s, st) }
     | Some BCD_OP_ARG \<Rightarrow> do { (r, st) \<leftarrow> bcd_arg_set (env_errno E) s st; Some (Returns r, s, st) }
     | Some BCD_OP_TR_THREAD \<Rightarrow> do { (out, st) \<leftarrow> bcd_backtrace_thread E s st; Some (out, s, st) }
     | Some BCD_OP_TR_PROCESS \<Rightarrow>
         do { (out, st) \<leftarrow> bcd_backtrace_process E (Some s) st; Some (out, s, st) }
     | Some BCD_OP_TR_FATAL \<Rightarrow> do {
         (out, st) \<leftarrow> bcd_backtrace_process E (Some s) st;
         Some (case out of Returns _ \<Rightarrow> Exits EXIT_SUCCESS | _ \<Rightarrow> out, s, st)
       }
     | Some BCD_OP_DETACH \<Rightarrow> Some (Returns 0, s\<lparr>se_terminated := True\<rparr>, st)
     | _ \<Rightarrow> Some (Returns 0, s, st)
   }"

section \<open>The frame of a trace\<close>

text \<open>Tracing reports, executes and kills; it touches neither the lists nor the configuration.\<close>

definition same_lists :: "bcd_monitor \<Rightarrow> bcd_monitor \<Rightarrow> bool" where
  "same_lists st st' \<longleftrightarrow>
     st' = st\<lparr>reports := reports st', tracers := tracers st', kills := kills st'\<rparr>"

lemma same_lists_refl [simp]: "same_lists st st"
  by (simp add: same_lists_def)

lemma same_lists_trans: "same_lists a b \<Longrightarrow> same_lists b c \<Longrightarrow> same_lists a c"
  unfolding same_lists_def by (cases a; cases b; cases c) simp

lemma same_lists_update [simp]:
  "same_lists a (st\<lparr>reports := r\<rparr>) = same_lists a st"
  "same_lists a (st\<lparr>tracers := t\<rparr>) = same_lists a st"
  "same_lists a (st\<lparr>kills := k\<rparr>) = same_lists a st"
  unfolding same_lists_def by (cases a; cases st; simp)+

lemma same_lists_error [simp]: "same_lists a (snd (bcd_error ev s m c st)) = same_lists a st"
  by (simp add: bcd_error_def Let_def)

lemma same_lists_errorD: "bcd_error ev s m c st = (r, st') \<Longrightarrow> same_lists a st' = same_lists a st"
  using same_lists_error [of a ev s m c st] by simp

lemma same_lists_signal: "tracer_signal s pid w sig st = (r, st') \<Longrightarrow> same_lists st st'"
  by (auto simp: tracer_signal_def Let_def same_lists_errorD
      split: option.splits bcd_signal.splits if_splits tracer_status.splits prod.splits)

lemma same_lists_loop: "execve_loop s pid f ws st = (r, st') \<Longrightarrow> same_lists st st'"
proof (induction s pid f ws st rule: execve_loop.induct)
  case (1 s pid f st)
  then show ?case by simp
next
  case (2 s pid f w ws st)
  then show ?case
    by (auto simp: Let_def split: prod.splits sum.splits if_splits
        dest!: same_lists_signal intro: same_lists_trans)
qed

lemma same_lists_execve: "bcd_execve T s argv st = (r, st') \<Longrightarrow> same_lists st st'"
  by (auto simp: bcd_execve_def Let_def same_lists_errorD split: if_splits prod.splits
      dest!: same_lists_loop) (metis same_lists_refl same_lists_trans same_lists_update(2))

lemma same_lists_finish: "finish_argv E s argv delta st = Some (r, st') \<Longrightarrow> same_lists st st'"
  by (auto simp: finish_argv_def tracer_error_def same_lists_errorD bind_eq_Some_conv
      split: if_splits prod.splits dest: same_lists_execve)

lemma same_lists_handler: "bcd_request_handler E tid s st = Some (r, st') \<Longrightarrow> same_lists st st'"
  by (auto simp: bcd_request_handler_def same_lists_errorD bind_eq_Some_conv split: if_splits)

lemma same_lists_thread: "bcd_backtrace_thread E s st = Some (r, st') \<Longrightarrow> same_lists st st'"
  unfolding bcd_backtrace_thread_def Let_def
  by (auto simp: bind_eq_Some_conv tracer_error_def same_lists_errorD
      split: if_splits prod.splits option.splits
      dest!: same_lists_handler same_lists_finish intro: same_lists_trans)

lemma same_lists_process: "bcd_backtrace_process E s st = Some (r, st') \<Longrightarrow> same_lists st st'"
  unfolding bcd_backtrace_process_def Let_def
  by (auto simp: bind_eq_Some_conv tracer_error_def same_lists_errorD
      split: if_splits prod.splits option.splits
      dest!: same_lists_handler same_lists_finish intro: same_lists_trans)

lemma same_lists_ok:
  assumes "same_lists st st'"
  shows "monitor_ok st' = monitor_ok st"
    and "kv_list st' = kv_list st" "arg_list st' = arg_list st" "kv_map st' = kv_map st"
proof -
  obtain r t k where st': "st' = st\<lparr>reports := r, tracers := t, kills := k\<rparr>"
    using assms unfolding same_lists_def by blast
  show "monitor_ok st' = monitor_ok st" "kv_list st' = kv_list st" "arg_list st' = arg_list st"
      "kv_map st' = kv_map st"
    by (simp_all add: st' monitor_ok_def kv_ok_def arg_ok_def kv_clean_def kv_map_def fun_eq_iff)
qed

section \<open>The invariant\<close>

lemma same_lists_report: "bcd_error ev s m c st = (r, st') \<Longrightarrow> same_lists st st'"
  by (simp add: same_lists_errorD)

lemma kv_parse_clean: "kv_parse bs = Some (k, v) \<Longrightarrow> cstr_ok k \<and> cstr_ok v"
  by (auto simp: kv_parse_def Let_def nonzero_prefix_ok split: if_splits)

lemma kv_clean_insert:
  "kv_ok st \<Longrightarrow> length (kv_list st) < 2 ^ 64 \<Longrightarrow> kv_clean st \<Longrightarrow> cstr_ok k \<Longrightarrow> cstr_ok v \<Longrightarrow>
    kv_clean (kv_insert \<lparr>kv_key = k, kv_value = v\<rparr> st)"
  by (auto simp: kv_clean_def kv_insert_eq)

lemma kv_insert_args: "arg_ok (kv_insert kv st) = arg_ok st" "arg_list (kv_insert kv st) = arg_list st"
  by (auto simp: kv_insert_def kv_unlink_def arg_ok_def Let_def split: option.split)

lemma arg_insert_kvs:
  "kv_ok (arg_insert a st) = kv_ok st" "kv_list (arg_insert a st) = kv_list st"
  "kv_clean (arg_insert a st) = kv_clean st"
  by (auto simp: arg_insert_def arg_unlink_def kv_ok_def kv_clean_def Let_def split: option.split)

lemma bcd_kv_set_cases:
  assumes "packet_ok s" and "bcd_kv_set m s st = Some (r, st')"
  shows "same_lists st st' \<or>
    (\<exists>k v. cstr_ok k \<and> cstr_ok v \<and> st' = kv_insert \<lparr>kv_key = k, kv_value = v\<rparr> st)"
  using assms(2) unfolding bcd_kv_set_parse [OF assms(1)]
  by (auto dest: same_lists_report kv_parse_clean split: option.splits prod.splits)

lemma bcd_arg_set_cases:
  "bcd_arg_set m s st = Some (r, st') \<Longrightarrow> same_lists st st' \<or> (\<exists>a. st' = arg_insert a st)"
  by (auto simp: bcd_arg_set_def Let_def bind_eq_Some_conv dest: same_lists_report
      split: if_splits option.splits)

lemma packet_ok_fields [simp]:
  "packet_ok (s\<lparr>se_tid := t\<rparr>) = packet_ok s" "packet_ok (s\<lparr>se_terminated := b\<rparr>) = packet_ok s"
  by (simp_all add: packet_ok_def session_ok_def)

text \<open>How a request changes the monitor.\<close>

lemma bcd_perform_request_cases:
  assumes "packet_ok s" and "bcd_perform_request E s st = Some (out, s', st')"
  shows "packet_ok s' \<and> (same_lists st st' \<or>
    (\<exists>k v. cstr_ok k \<and> cstr_ok v \<and> st' = kv_insert \<lparr>kv_key = k, kv_value = v\<rparr> st) \<or>
    (\<exists>a. st' = arg_insert a st))"
proof -
  obtain v where v: "packet_op (se_packet s) = Some v"
    using assms(2) by (cases "packet_op (se_packet s)") (simp_all add: bcd_perform_request_def)
  note run = assms(2) [unfolded bcd_perform_request_def v Option.bind.bind_lunit]
  show ?thesis
  proof (cases "op_of v")
    case None
    with run assms(1) show ?thesis by simp
  next
    case (Some p)
    show ?thesis
    proof (cases "p = BCD_OP_KV")
      case True
      with run Some obtain r where "bcd_kv_set (env_errno E) s st = Some (r, st')" "s' = s"
        by (auto simp: bind_eq_Some_conv)
      with bcd_kv_set_cases [OF assms(1) this(1)] assms(1) show ?thesis by blast
    next
      case False
      with Some run assms(1) show ?thesis
        by (cases p) (auto simp: bind_eq_Some_conv
            dest: bcd_arg_set_cases same_lists_thread same_lists_process)
    qed
  qed
qed

text \<open>The lists after a request.\<close>

lemma perform_request_ok:
  assumes "packet_ok s" and "monitor_ok st"
    and "length (kv_list st) < 2 ^ 64" and "length (arg_list st) < 2 ^ 64"
    and "bcd_perform_request E s st = Some (out, s', st')"
  shows "packet_ok s' \<and> monitor_ok st' \<and> length (kv_list st') \<le> Suc (length (kv_list st)) \<and>
    length (arg_list st') \<le> Suc (length (arg_list st))"
proof -
  have ok: "kv_ok st" "arg_ok st" "kv_clean st"
    using assms(2) by (simp_all add: monitor_ok_def)
  note cases = bcd_perform_request_cases [OF assms(1,5)]
  then consider "same_lists st st'"
    | (kv) k v where "cstr_ok k" "cstr_ok v" "st' = kv_insert \<lparr>kv_key = k, kv_value = v\<rparr> st"
    | (arg) a where "st' = arg_insert a st"
    by blast
  then have "monitor_ok st' \<and> length (kv_list st') \<le> Suc (length (kv_list st)) \<and>
    length (arg_list st') \<le> Suc (length (arg_list st))"
  proof cases
    case 1
    then show ?thesis
      using same_lists_ok [OF 1] assms(2) by simp
  next
    case kv
    then show ?thesis
      using kvs.add_tracked [OF ok(1) assms(3)] kvs.add_length [OF ok(1) assms(3)]
        kv_clean_insert [OF ok(1) assms(3) ok(3)] ok(2)
      by (simp add: monitor_ok_def kv_insert_args)
  next
    case arg
    then show ?thesis
      using args.add_tracked [OF ok(2) assms(4)] args.add_length [OF ok(2) assms(4)] ok
      by (simp add: monitor_ok_def arg_insert_kvs)
  qed
  with cases show ?thesis by blast
qed

text \<open>
  C18: no request breaks the monitor: whatever bytes a complete packet holds, and whatever the
  tracer does, the two lists stay duplicate-free with the right counts, their strings stay C
  strings, and each list grows by at most one element.
\<close>

theorem bcd_perform_request_invariant:
  assumes "packet_ok s" and "monitor_ok st"
    and "length (kv_list st) < 2 ^ 64" and "length (arg_list st) < 2 ^ 64"
    and "bcd_perform_request E s st = Some (out, s', st')"
  shows "packet_ok s' \<and> monitor_ok st' \<and> length (kv_list st') \<le> Suc (length (kv_list st)) \<and>
    length (arg_list st') \<le> Suc (length (arg_list st))"
  by (rule perform_request_ok [OF assms])

text \<open>Two of the requests, performed on a packet that has been received.\<close>

lemma perform_tid:
  assumes "has_bytes s (packet_bytes BCD_OP_TID (enc32 tid)) (8 + length (enc32 tid))"
  shows "bcd_perform_request E s st = Some (Returns 0, s\<lparr>se_tid := tid\<rparr>, st)"
proof -
  note f = received_fields [OF assms, unfolded BCD_PACKET_LIMIT_def]
  have "load32 (se_packet s) sizeof_packet = Some tid"
    using f(5) by (simp add: sizeof_packet_def load32_at)
  then show ?thesis
    unfolding bcd_perform_request_def using f(1) op_of_value [of BCD_OP_TID] by simp
qed

lemma perform_thread:
  assumes "has_bytes s (packet_bytes BCD_OP_TR_THREAD []) (8 + length ([] :: byte list))"
    and "bcd_backtrace_thread E s st = Some (out, st')"
  shows "bcd_perform_request E s st = Some (out, s, st')"
proof -
  note f = received_fields [OF assms(1)]
  show ?thesis
    unfolding bcd_perform_request_def using f(1) op_of_value [of BCD_OP_TR_THREAD] assms(2) by simp
qed

lemma monitor_ok_start: "monitor_ok (start_monitor cf pid)"
  by (simp add: monitor_ok_def kv_ok_def arg_ok_def kv_clean_def)

theorem bcd_perform_request_invariant_witness:
  "packet_ok (hold_packet zero_session BCD_OP_DETACH [])
   \<and> (\<exists>s'. bcd_perform_request (example_env []) (hold_packet zero_session BCD_OP_DETACH [])
       (example_start) = Some (Returns 0, s', example_start) \<and> packet_ok s')"
proof -
  note h = hold_packet_fields [OF session_ok_zero, of "[]" BCD_OP_DETACH]
  have p: "packet_ok (hold_packet zero_session BCD_OP_DETACH [])"
    using h(4) by simp
  have run: "bcd_perform_request (example_env []) (hold_packet zero_session BCD_OP_DETACH [])
      (example_start) = Some (Returns 0,
        (hold_packet zero_session BCD_OP_DETACH [])\<lparr>se_terminated := True\<rparr>, example_start)"
    using op_of_value [of BCD_OP_DETACH] h(1) by (simp add: bcd_perform_request_def)
  show ?thesis
    using bcd_perform_request_invariant [OF p monitor_ok_start _ _ run] p run by simp
qed

end
