(* ===== verification/Bcd_Client.thy ===== *)
theory Bcd_Client
  imports Bcd_IO
begin

text \<open>
  The client side of bcd: packets to the monitor and its acknowledgements
  (\<open>bcd_packet_write\<close>, \<open>bcd_channel_read_ack\<close>), the public calls over them (\<open>bcd_kv\<close>,
  \<open>bcd_arg\<close>, \<open>bcd_backtrace\<close>, \<open>bcd_emit\<close>, \<open>bcd_associate_tid\<close>, \<open>bcd_attach\<close>,
  \<open>bcd_detach\<close>), and the pipes between the processes (\<open>bcd_sb_write\<close>, \<open>bcd_sb_read\<close>,
  \<open>bcd_fatal\<close>, \<open>bcd_reap\<close>). A call's result is \<open>None\<close> while it waits for ever.
\<close>

record bcd_handle =
  bcd_fd :: int

text \<open>\<open>bcd_error_set\<close>: the error object after the call.\<close>

record bcd_err =
  err_message :: string
  err_errnum :: int

definition err_set :: "io_errno option \<Rightarrow> string \<Rightarrow> bcd_err" where
  "err_set e msg = \<lparr>err_message = msg,
     err_errnum = (case e of None \<Rightarrow> 0 | Some E_INTR \<Rightarrow> 4 | Some E_AGAIN \<Rightarrow> 11 | Some (E_OTHER n) \<Rightarrow> n)\<rparr>"

definition bcd_error_message :: "bcd_err \<Rightarrow> string" where
  "bcd_error_message e = err_message e"

definition bcd_error_errno :: "bcd_err \<Rightarrow> int" where
  "bcd_error_errno e = err_errnum e"

text \<open>The process as a call sees it: the configured timeout, the clock, the descriptor.\<close>

record bcd_caller =
  ca_timeout :: u32
  ca_now :: int
  ca_env :: io_env
  ca_closed :: "int list"

definition abstime :: "bcd_caller \<Rightarrow> int" where
  "abstime C = ca_now C + int (unat (ca_timeout C))"

definition close_fd :: "int \<Rightarrow> bcd_caller \<Rightarrow> bcd_caller" where
  "close_fd fd C = C\<lparr>ca_closed := ca_closed C @ [fd]\<rparr>"

definition bcd_packet_write ::
    "bcd_op \<Rightarrow> byte list \<Rightarrow> bcd_caller \<Rightarrow> (int \<times> io_errno option \<times> bcd_caller) option" where
  "bcd_packet_write p payload C = do {
     (r, e, env) \<leftarrow> bcd_io_fd_write (ca_timeout C) (packet_bytes p payload) (abstime C) (ca_env C);
     Some (r, e, C\<lparr>ca_env := env\<rparr>)
   }"

definition bcd_channel_read_ack :: "bcd_caller \<Rightarrow> (int \<times> bcd_err option \<times> bcd_caller) option" where
  "bcd_channel_read_ack C = do {
     let packet = packet_bytes BCD_OP_OK [];
     (r, e, buf, env) \<leftarrow> bcd_io_fd_read (ca_timeout C) sizeof_packet (abstime C) (ca_env C);
     let C = C\<lparr>ca_env := env\<rparr>;
     packet \<leftarrow> store packet 0 buf;
     p \<leftarrow> packet_op packet;
     Some (if r < 0 then
             (-1, Some (if e = Some E_AGAIN then err_set e ''timed out''
                        else err_set e ''failed to acknowledge''), C)
           else if r = 0 then (-1, Some (err_set None ''premature termination''), C)
           else if r < int sizeof_packet then (-1, Some (err_set None ''truncated response''), C)
           else if p \<noteq> op_value BCD_OP_OK then (-1, Some (err_set None ''dispatch failed''), C)
           else (0, None, C))
   }"

definition bcd_kv ::
    "bcd_handle \<Rightarrow> cstr \<Rightarrow> cstr \<Rightarrow> bcd_caller \<Rightarrow> (int \<times> bcd_err option \<times> bcd_caller) option" where
  "bcd_kv bcd key val C =
     (let k_l = length key + 1; v_l = length val + 1
      in if BCD_PACKET_LIMIT < k_l + v_l
         then Some (-1, Some (err_set None ''key-value pair is too long''), C)
         else do {
           (r, e, C) \<leftarrow> bcd_packet_write BCD_OP_KV ((key @ [0]) @ (val @ [0])) C;
           if r = -1
           then Some (-1, Some (err_set e ''failed to write kv-pair''), close_fd (bcd_fd bcd) C)
           else bcd_channel_read_ack C
         })"

definition bcd_arg ::
    "bcd_handle \<Rightarrow> cstr \<Rightarrow> bcd_caller \<Rightarrow> (int \<times> bcd_err option \<times> bcd_caller) option" where
  "bcd_arg bcd arg C =
     (if BCD_PACKET_LIMIT < length arg + 1
      then Some (-1, Some (err_set None ''argument is too long''), C)
      else do {
        (r, e, C) \<leftarrow> bcd_packet_write BCD_OP_ARG (arg @ [0]) C;
        if r = -1
        then Some (-1, Some (err_set e ''failed to write argument''), close_fd (bcd_fd bcd) C)
        else bcd_channel_read_ack C
      })"

datatype bcd_target = BCD_TARGET_PROCESS | BCD_TARGET_THREAD

definition bcd_backtrace ::
    "bcd_handle \<Rightarrow> bcd_target \<Rightarrow> bcd_caller \<Rightarrow> (int \<times> bcd_err option \<times> bcd_caller) option" where
  "bcd_backtrace bcd target C = do {
     let p = (if target = BCD_TARGET_THREAD then BCD_OP_TR_THREAD else BCD_OP_TR_PROCESS);
     (r, e, C) \<leftarrow> bcd_packet_write p [] C;
     if r < 0 then Some (-1, Some (err_set e ''failed to invoke tracer''), C)
     else bcd_channel_read_ack C
   }"

definition bcd_emit :: "bcd_handle \<Rightarrow> bcd_caller \<Rightarrow> bcd_caller option" where
  "bcd_emit bcd C = map_option (\<lambda>(r, e, C). C) (bcd_backtrace bcd BCD_TARGET_THREAD C)"

text \<open>\<open>errno\<close> is the value an earlier call has left, which an unattached handle reports.\<close>

definition bcd_associate_tid ::
    "io_errno option \<Rightarrow> bcd_handle \<Rightarrow> u32 \<Rightarrow> bcd_caller \<Rightarrow> (int \<times> bcd_err option \<times> bcd_caller) option" where
  "bcd_associate_tid errno bcd tid C =
     (if bcd_fd bcd = -1
      then Some (-1, Some (err_set errno ''invalid fd; did you call bcd_attach?''), C)
      else do {
        (r, e, C) \<leftarrow> bcd_packet_write BCD_OP_TID (enc32 tid) C;
        if r = -1 then Some (-1, Some (err_set e ''failed to set new tid''), C)
        else bcd_channel_read_ack C
      })"

text \<open>
  \<open>bcd_attach\<close>, given the handle as it was before the call: what \<open>socket\<close>, the successive \<open>connect\<close> calls and \<open>fcntl\<close> return. The
  loop repeats \<open>connect\<close> as long as it fails with \<open>EAGAIN\<close>.
\<close>

fun connect_loop :: "unit io_result list \<Rightarrow> io_errno option option" where
  "connect_loop [] = None"
| "connect_loop (Ok _ # rs) = Some None"
| "connect_loop (Failed E_AGAIN # rs) = connect_loop rs"
| "connect_loop (Failed e # rs) = Some (Some e)"

definition bcd_attach ::
    "bcd_handle \<Rightarrow> int io_result \<Rightarrow> unit io_result list \<Rightarrow> io_errno option \<Rightarrow> u32 \<Rightarrow> bcd_caller \<Rightarrow>
     (int \<times> bcd_handle \<times> bcd_err option \<times> bcd_caller) option" where
  "bcd_attach bcd socket connects fcntl tid C =
     (case socket of
        Failed e \<Rightarrow>
          Some (-1, \<lparr>bcd_fd = -1\<rparr>, Some (err_set (Some e) ''failed to create connection to monitor''), C)
      | Ok fd \<Rightarrow> do {
          c \<leftarrow> connect_loop connects;
          case c of
            Some e \<Rightarrow> Some (-1, \<lparr>bcd_fd = -1\<rparr>,
              Some (err_set (Some e) ''failed to connect to monitor''), close_fd fd C)
          | None \<Rightarrow>
              (case fcntl of
                 Some e \<Rightarrow> Some (-1, bcd,
                   Some (err_set (Some e) ''failed to create socket''), close_fd fd C)
               | None \<Rightarrow> do {
                   (r, e, C) \<leftarrow> bcd_packet_write BCD_OP_TID (enc32 tid) C;
                   if r = -1 then Some (-1, \<lparr>bcd_fd = -1\<rparr>,
                     Some (err_set e ''failed to initialize session''), close_fd fd C)
                   else do {
                     (r, err, C) \<leftarrow> bcd_channel_read_ack C;
                     if r \<noteq> 0 then Some (-1, \<lparr>bcd_fd = -1\<rparr>, err, close_fd fd C)
                     else Some (0, \<lparr>bcd_fd = fd\<rparr>, None, C)
                   }
                 })
        })"

definition bcd_detach ::
    "bcd_handle \<Rightarrow> bcd_caller \<Rightarrow> (int \<times> bcd_err option \<times> bcd_caller) option" where
  "bcd_detach bcd C =
     (if bcd_fd bcd = -1 then Some (0, None, C)
      else do {
        (r, e, C) \<leftarrow> bcd_packet_write BCD_OP_DETACH [] C;
        if r = -1
        then Some (-1, Some (err_set e ''failed to cause monitor to detach''), close_fd (bcd_fd bcd) C)
        else do {
          (ret, err, C) \<leftarrow> bcd_channel_read_ack C;
          Some (if ret \<noteq> 0 then -1 else 0, err, close_fd (bcd_fd bcd) C)
        }
      })"

section \<open>What a call does\<close>

text \<open>A descriptor with room for a packet, from which the acknowledgement will come.\<close>

definition acknowledged :: "bcd_caller \<Rightarrow> nat \<Rightarrow> byte list \<Rightarrow> bool" where
  "acknowledged C n rest \<longleftrightarrow>
     (\<exists>k ws. wr_events (ca_env C) = Wr_room k # ws \<and> 8 + n \<le> k) \<and>
     rd_live (rd_events (ca_env C)) \<and>
     rd_bytes (rd_events (ca_env C)) = packet_bytes BCD_OP_OK [] @ rest \<and>
     ready_selects (sel_events (ca_env C)) \<and>
     rd_waits (rd_events (ca_env C)) \<le> length (sel_events (ca_env C))"

lemma packet_bytes_not_Nil: "packet_bytes p d \<noteq> []"
  using length_packet_bytes [of p d] by (metis add_is_0 list.size(3) zero_neq_numeral)

lemma packet_write_ok:
  assumes "acknowledged C (length d) rest"
  shows "\<exists>C'. bcd_packet_write p d C = Some (int (8 + length d), None, C') \<and>
    sent (ca_env C') = sent (ca_env C) @ packet_bytes p d \<and> ca_closed C' = ca_closed C \<and>
    rd_events (ca_env C') = rd_events (ca_env C) \<and> sel_events (ca_env C') = sel_events (ca_env C) \<and>
    wr_events (ca_env C') = tl (wr_events (ca_env C))"
  using assms fd_write_room [of "ca_env C" _ _ "packet_bytes p d" "ca_timeout C" "abstime C"]
  by (auto simp: acknowledged_def bcd_packet_write_def packet_bytes_not_Nil)

lemma read_ack_ok:
  assumes "rd_live (rd_events (ca_env C))"
    and "rd_bytes (rd_events (ca_env C)) = packet_bytes BCD_OP_OK [] @ rest"
    and "ready_selects (sel_events (ca_env C))"
    and "rd_waits (rd_events (ca_env C)) \<le> length (sel_events (ca_env C))"
  shows "\<exists>C'. bcd_channel_read_ack C = Some (0, None, C') \<and> ca_closed C' = ca_closed C \<and>
    sent (ca_env C') = sent (ca_env C) \<and> rd_bytes (rd_events (ca_env C')) = rest \<and>
    wr_events (ca_env C') = wr_events (ca_env C) \<and> rd_live (rd_events (ca_env C')) \<and>
    ready_selects (sel_events (ca_env C')) \<and>
    rd_waits (rd_events (ca_env C')) \<le> length (sel_events (ca_env C'))"
proof -
  let ?ack = "packet_bytes BCD_OP_OK []"
  obtain env' where env': "bcd_io_fd_read (ca_timeout C) 8 (abstime C) (ca_env C) =
        Some (8, None, ?ack, env')" "rd_bytes (rd_events env') = rest"
      "sent env' = sent (ca_env C)" "wr_events env' = wr_events (ca_env C)" "rd_live (rd_events env')"
      "ready_selects (sel_events env')" "rd_waits (rd_events env') \<le> length (sel_events env')"
    using fd_read_done [of "ca_env C" 8 "ca_timeout C" "abstime C"] assms by auto
  have st: "store ?ack 0 ?ack = Some ?ack"
    by (simp add: store_def)
  have op: "packet_op ?ack = Some (op_value BCD_OP_OK)"
    by code_simp
  show ?thesis
    unfolding bcd_channel_read_ack_def Let_def
    using env' by (simp add: sizeof_packet_def st op)
qed

lemma call_flows:
  assumes "acknowledged C (length d) rest"
  shows "\<exists>C1 C2. bcd_packet_write p d C = Some (int (8 + length d), None, C1) \<and>
    bcd_channel_read_ack C1 = Some (0, None, C2) \<and>
    sent (ca_env C2) = sent (ca_env C) @ packet_bytes p d \<and> ca_closed C2 = ca_closed C \<and>
    rd_bytes (rd_events (ca_env C2)) = rest \<and> wr_events (ca_env C2) = tl (wr_events (ca_env C)) \<and>
    rd_live (rd_events (ca_env C2)) \<and> ready_selects (sel_events (ca_env C2)) \<and>
    rd_waits (rd_events (ca_env C2)) \<le> length (sel_events (ca_env C2))"
proof -
  obtain C1 where 1: "bcd_packet_write p d C = Some (int (8 + length d), None, C1)"
      "sent (ca_env C1) = sent (ca_env C) @ packet_bytes p d" "ca_closed C1 = ca_closed C"
      "rd_events (ca_env C1) = rd_events (ca_env C)" "sel_events (ca_env C1) = sel_events (ca_env C)"
      "wr_events (ca_env C1) = tl (wr_events (ca_env C))"
    using packet_write_ok [OF assms] by blast
  have "rd_live (rd_events (ca_env C1))"
    "rd_bytes (rd_events (ca_env C1)) = packet_bytes BCD_OP_OK [] @ rest"
    "ready_selects (sel_events (ca_env C1))"
    "rd_waits (rd_events (ca_env C1)) \<le> length (sel_events (ca_env C1))"
    using assms by (simp_all add: acknowledged_def 1(4,5))
  from read_ack_ok [OF this] 1 show ?thesis by auto
qed

lemma call_ok:
  assumes "acknowledged C (length d) rest"
  shows "\<exists>C1 C2. bcd_packet_write p d C = Some (int (8 + length d), None, C1) \<and>
    bcd_channel_read_ack C1 = Some (0, None, C2) \<and>
    sent (ca_env C2) = sent (ca_env C) @ packet_bytes p d \<and> ca_closed C2 = ca_closed C \<and>
    rd_bytes (rd_events (ca_env C2)) = rest"
  using call_flows [OF assms, of p] by blast

text \<open>The monitor acknowledges the next call, too, if its answer and the room are there.\<close>

lemma call_ok_next:
  assumes "acknowledged C (length d) (packet_bytes BCD_OP_OK [] @ rest)"
    and "tl (wr_events (ca_env C)) = Wr_room k # ws" and "8 + n \<le> k"
  shows "\<exists>C1 C2. bcd_packet_write p d C = Some (int (8 + length d), None, C1) \<and>
    bcd_channel_read_ack C1 = Some (0, None, C2) \<and>
    sent (ca_env C2) = sent (ca_env C) @ packet_bytes p d \<and> acknowledged C2 n rest"
  using call_flows [OF assms(1), of p] assms(2,3) by (fastforce simp: acknowledged_def)

lemma bcd_attach_next:
  assumes "acknowledged C 4 (packet_bytes BCD_OP_OK [] @ rest)"
    and "tl (wr_events (ca_env C)) = Wr_room k # ws" and "8 + n \<le> k"
    and "connect_loop connects = Some None"
  shows "\<exists>C'. bcd_attach bcd (Ok fd) connects None tid C = Some (0, \<lparr>bcd_fd = fd\<rparr>, None, C') \<and>
    sent (ca_env C') = sent (ca_env C) @ packet_bytes BCD_OP_TID (enc32 tid) \<and> acknowledged C' n rest"
proof -
  have "length (enc32 tid) = 4"
    by simp
  with call_ok_next [OF _ assms(2,3), of "enc32 tid" rest BCD_OP_TID] assms(1,4) show ?thesis
    by (auto simp: bcd_attach_def)
qed

text \<open>A call of \<open>bcd_attach\<close> that succeeds has connected.\<close>

lemma bcd_attach_connected:
  assumes "bcd_attach bcd socket connects fcntl tid C = Some (r, bcd', e, C')" and "r \<noteq> -1"
  shows "\<exists>fd. socket = Ok fd \<and> connect_loop connects = Some None \<and> fcntl = None"
  using assms by (auto simp: bcd_attach_def split: io_result.splits option.splits bind_splits)

text \<open>
  The public calls with an acknowledging monitor: each succeeds, has sent exactly its one
  packet and closes nothing but, when it detaches, its descriptor.
\<close>

theorem bcd_calls_send:
  assumes "acknowledged C (length key + length val + 2) rest"
    and "length key + length val + 2 \<le> BCD_PACKET_LIMIT" and "bcd_fd bcd \<noteq> -1"
  shows "(\<exists>C'. bcd_kv bcd key val C = Some (0, None, C') \<and> ca_closed C' = ca_closed C \<and>
      sent (ca_env C') = sent (ca_env C) @ packet_bytes BCD_OP_KV (key @ 0 # val @ [0])) \<and>
    (\<exists>C'. bcd_arg bcd key C = Some (0, None, C') \<and> ca_closed C' = ca_closed C \<and>
      sent (ca_env C') = sent (ca_env C) @ packet_bytes BCD_OP_ARG (key @ [0])) \<and>
    (\<exists>C'. bcd_backtrace bcd target C = Some (0, None, C') \<and> ca_closed C' = ca_closed C \<and>
      sent (ca_env C') = sent (ca_env C) @ packet_bytes
        (if target = BCD_TARGET_THREAD then BCD_OP_TR_THREAD else BCD_OP_TR_PROCESS) []) \<and>
    (\<exists>C'. bcd_detach bcd C = Some (0, None, C') \<and> ca_closed C' = ca_closed C @ [bcd_fd bcd] \<and>
      sent (ca_env C') = sent (ca_env C) @ packet_bytes BCD_OP_DETACH [])"
proof -
  have less: "acknowledged C n rest" if "n \<le> length key + length val + 2" for n
    using assms(1) that by (auto simp: acknowledged_def)
  have kv: "acknowledged C (length ((key @ [0]) @ (val @ [0]))) rest"
    and arg: "acknowledged C (length (key @ [0])) rest"
    and none: "acknowledged C (length ([] :: byte list)) rest"
    by (intro less, simp)+
  note lim = assms(2)
  show ?thesis
    using call_ok [OF kv, of BCD_OP_KV] call_ok [OF arg, of BCD_OP_ARG]
      call_ok [OF none, of "if target = BCD_TARGET_THREAD then BCD_OP_TR_THREAD else BCD_OP_TR_PROCESS"]
      call_ok [OF none, of BCD_OP_DETACH] lim assms(3)
    by (auto simp: bcd_kv_def bcd_arg_def bcd_backtrace_def bcd_detach_def close_fd_def Let_def)
qed

theorem bcd_calls_send_witness:
  "\<exists>C'. bcd_kv \<lparr>bcd_fd = 5\<rparr> [97] [98] \<lparr>ca_timeout = 30, ca_now = 100,
      ca_env = \<lparr>rd_events = [Rd_again, Rd_data [1, 0, 0], Rd_data [0, 0, 0, 0, 0]],
        wr_events = [Wr_room 100], sel_events = [(100, Sel_ready 1)], sent = []\<rparr>,
      ca_closed = []\<rparr> = Some (0, None, C') \<and>
    sent (ca_env C') = packet_bytes BCD_OP_KV [97, 0, 98, 0]"
proof -
  let ?C = "\<lparr>ca_timeout = 30, ca_now = 100,
      ca_env = \<lparr>rd_events = [Rd_again, Rd_data [1, 0, 0], Rd_data [0, 0, 0, 0, 0]],
        wr_events = [Wr_room 100], sel_events = [(100, Sel_ready 1)], sent = []\<rparr>,
      ca_closed = []\<rparr>"
  have "packet_bytes BCD_OP_OK [] = [1, 0, 0, 0, 0, 0, 0, 0]"
    by code_simp
  then have "acknowledged ?C (length [97 :: byte] + length [98 :: byte] + 2) []"
    by (simp add: acknowledged_def ready_selects_def)
  from bcd_calls_send [OF this, of "\<lparr>bcd_fd = 5\<rparr>"] show ?thesis
    by (auto simp: BCD_PACKET_LIMIT_def)
qed

text \<open>
  A pair that does not fit a packet is refused before anything is sent. A failed write is
  reported, but the descriptor it closes stays in the handle: detaching afterwards closes it
  a second time.
\<close>

theorem bcd_kv_failures:
  assumes "wr_events (ca_env C) = Wr_error a # Wr_error b # ws" and "bcd_fd bcd \<noteq> -1"
  shows "(if BCD_PACKET_LIMIT < length key + length val + 2
     then bcd_kv bcd key val C = Some (-1, Some (err_set None ''key-value pair is too long''), C)
     else \<exists>C1 e C2. bcd_kv bcd key val C = Some (-1, Some (err_set (Some (E_OTHER a)) ''failed to write kv-pair''), C1) \<and>
       ca_closed C1 = ca_closed C @ [bcd_fd bcd] \<and> sent (ca_env C1) = sent (ca_env C) \<and>
       bcd_detach bcd C1 = Some (-1, e, C2) \<and>
       ca_closed C2 = ca_closed C @ [bcd_fd bcd, bcd_fd bcd])"
proof -
  have w: "bcd_io_fd_write t b d env = Some (-1, Some (E_OTHER c), env\<lparr>wr_events := es\<rparr>)"
    if "wr_events env = Wr_error c # es" for t b d env c es
    using that by (simp add: bcd_io_fd_write_def fd_write_loop.simps [of t b d 0 env])
  have 1: "bcd_packet_write p d' C = Some (-1, Some (E_OTHER a),
      C\<lparr>ca_env := (ca_env C)\<lparr>wr_events := Wr_error b # ws\<rparr>\<rparr>)" for p d'
    using w [OF assms(1)] by (simp add: bcd_packet_write_def)
  have 2: "bcd_packet_write p d' (close_fd fd (C\<lparr>ca_env := (ca_env C)\<lparr>wr_events := Wr_error b # ws\<rparr>\<rparr>)) =
      Some (-1, Some (E_OTHER b), close_fd fd (C\<lparr>ca_env := (ca_env C)\<lparr>wr_events := ws\<rparr>\<rparr>))" for p d' fd
    using w [of "(ca_env C)\<lparr>wr_events := Wr_error b # ws\<rparr>"]
    by (simp add: bcd_packet_write_def close_fd_def)
  show ?thesis
    using assms(2) by (simp add: bcd_kv_def bcd_detach_def 1 2 Let_def) (simp add: close_fd_def)
qed

theorem bcd_kv_failures_witness:
  "\<exists>C1 e C2. bcd_kv \<lparr>bcd_fd = 5\<rparr> [97] [98] \<lparr>ca_timeout = 30, ca_now = 100,
      ca_env = \<lparr>rd_events = [], wr_events = [Wr_error 32, Wr_error 32], sel_events = [], sent = []\<rparr>,
      ca_closed = []\<rparr> = Some (-1, e, C1) \<and>
    (\<exists>e2. bcd_detach \<lparr>bcd_fd = 5\<rparr> C1 = Some (-1, e2, C2)) \<and> ca_closed C2 = [5, 5]"
  using bcd_kv_failures [of "\<lparr>ca_timeout = 30, ca_now = 100,
      ca_env = \<lparr>rd_events = [], wr_events = [Wr_error 32, Wr_error 32], sel_events = [], sent = []\<rparr>,
      ca_closed = []\<rparr>" 32 32 "[]" "\<lparr>bcd_fd = 5\<rparr>" "[97]" "[98]"]
  by (auto simp: BCD_PACKET_LIMIT_def)

section \<open>Pipes between the processes\<close>

definition bcd_sb_write ::
    "bcd_op \<Rightarrow> byte list \<Rightarrow> u32 \<Rightarrow> int \<Rightarrow> io_env \<Rightarrow> (int \<times> io_errno option \<times> io_env) option" where
  "bcd_sb_write p payload timeout deadline env = bcd_io_fd_write timeout (packet_bytes p payload) deadline env"

text \<open>
  \<open>bcd_sb_read\<close>: \<open>buf\<close> is the packet instance of the caller. The sum of the two results is
  tested at the end.
\<close>

definition sb_result ::
    "int \<Rightarrow> bool \<Rightarrow> io_errno option \<Rightarrow> mem \<Rightarrow> io_env \<Rightarrow> (int \<times> bcd_err option \<times> mem \<times> io_env) option" where
  "sb_result r header_complete e buf env = do {
     n \<leftarrow> packet_length buf;
     Some (if r < 0 then
             (-1, Some (if e = Some E_AGAIN then err_set e ''timed out''
                        else err_set e ''failed to read response''), buf, env)
           else if r = 0 then (-1, Some (err_set None ''premature termination''), buf, env)
           else if r < int (sizeof_packet + (if header_complete then unat n else 0))
                then (-1, Some (err_set None ''truncated response''), buf, env)
           else (0, None, buf, env))
   }"

definition bcd_sb_read ::
    "mem \<Rightarrow> nat \<Rightarrow> u32 \<Rightarrow> int \<Rightarrow> io_env \<Rightarrow> (int \<times> bcd_err option \<times> mem \<times> io_env) option" where
  "bcd_sb_read buf limit timeout deadline env = do {
     (r, e, hd, env) \<leftarrow> bcd_io_fd_read timeout sizeof_packet deadline env;
     buf \<leftarrow> store buf 0 hd;
     if r \<noteq> int sizeof_packet then sb_result r False e buf env
     else do {
       n \<leftarrow> packet_length buf;
       if limit < unat n then sb_result r False e buf env
       else do {
         (r2, e2, body, env) \<leftarrow> bcd_io_fd_read timeout (unat n) deadline env;
         buf \<leftarrow> store buf sizeof_packet body;
         sb_result (r + r2) True e2 buf env
       }
     }
   }"

text \<open>A packet that fits is read into the caller's instance, and only it.\<close>

lemma bcd_sb_read_packet:
  assumes "rd_live (rd_events env)" and "rd_bytes (rd_events env) = packet_bytes p d @ rest"
    and "ready_selects (sel_events env)" and "rd_waits (rd_events env) \<le> length (sel_events env)"
    and "d \<noteq> []" and "length d \<le> limit" and "length d < 2 ^ 31" and "8 + length d \<le> length buf"
  shows "\<exists>env'. bcd_sb_read buf limit timeout deadline env =
      Some (0, None, patch buf 0 (packet_bytes p d), env') \<and> rd_bytes (rd_events env') = rest"
proof -
  let ?h = "take 8 (packet_bytes p d)"
  have h: "?h = enc32 (op_value p) @ enc32 (of_nat (length d))" "length ?h = 8"
    by (simp_all add: packet_bytes_def)
  obtain env1 where read1: "bcd_io_fd_read timeout 8 deadline env = Some (8, None, ?h, env1)"
      "rd_bytes (rd_events env1) = d @ rest" "rd_live (rd_events env1)" "ready_selects (sel_events env1)"
      "rd_waits (rd_events env1) \<le> length (sel_events env1)"
    using fd_read_done [of env 8 timeout deadline] assms(1-4) by (auto simp: packet_bytes_def)
  obtain env2 where read2: "bcd_io_fd_read timeout (length d) deadline env1 =
        Some (int (length d), None, d, env2)" "rd_bytes (rd_events env2) = rest"
    using fd_read_done [of env1 "length d" timeout deadline] read1(2-) assms(5) by auto
  let ?b1 = "patch buf 0 ?h" and ?b2 = "patch buf 0 (packet_bytes p d)"
  have st1: "store buf 0 ?h = Some ?b1"
    using assms(8) by (simp add: store_patch packet_bytes_def)
  have n: "unat (of_nat (length d) :: u32) = length d"
    using assms(7) by (simp add: unat_of_nat)
  have len: "packet_length b = Some (of_nat (length d))" if "at_mem b 0 ?h" for b
  proof -
    have "at_mem b 4 (enc32 (of_nat (length d)))"
      using that by (simp add: h(1) at_mem_append)
    then show ?thesis by (simp add: packet_length_def load32_at)
  qed
  have a1: "at_mem ?b1 0 ?h"
    using assms(8) by (intro at_mem_patch_same) (simp add: packet_bytes_def)
  have "at_mem ?b2 0 (packet_bytes p d)"
    using assms(8) by (intro at_mem_patch_same) simp
  then have a2: "at_mem ?b2 0 ?h"
    by (simp add: at_mem_append packet_bytes_def)
  have "patch ?b1 (0 + length ?h) d = patch buf 0 (?h @ d)"
    using assms(8) by (intro patch_patch_append) (simp add: packet_bytes_def)
  moreover have "?h @ d = packet_bytes p d"
    by (simp add: packet_bytes_def)
  ultimately have st2: "store ?b1 8 d = Some ?b2"
    using assms(8) h(2) by (simp add: store_patch packet_bytes_def)
  have u: "uint (of_nat (length d) :: u32) = int (length d)"
    using assms(7) by (simp add: unsigned_of_nat take_bit_nat_eq_self_iff)
  show ?thesis
    using read1(1) read2 assms(5,6) u
    by (simp add: bcd_sb_read_def sizeof_packet_def st1 len [OF a1] n st2 sb_result_def len [OF a2])
qed

text \<open>
  A packet longer than the caller's buffer is reported as read: \<open>bcd_sb_read\<close> returns 0
  for a complete header alone and leaves the payload of the buffer as it was.
\<close>

theorem bcd_sb_read_oversize:
  assumes "rd_live (rd_events env)"
    and "rd_bytes (rd_events env) = packet_bytes p d @ rest"
    and "ready_selects (sel_events env)" and "rd_waits (rd_events env) \<le> length (sel_events env)"
    and "limit < length d" and "length d < 2 ^ 32" and "8 \<le> length buf"
  shows "\<exists>env'. bcd_sb_read buf limit timeout deadline env =
      Some (0, None, patch buf 0 (take 8 (packet_bytes p d)), env') \<and>
    rd_bytes (rd_events env') = d @ rest"
proof -
  let ?h = "take 8 (packet_bytes p d)"
  have h: "?h = enc32 (op_value p) @ enc32 (of_nat (length d))" "length ?h = 8"
    by (simp_all add: packet_bytes_def)
  obtain env' where read: "bcd_io_fd_read timeout 8 deadline env = Some (8, None, ?h, env')"
      "rd_bytes (rd_events env') = d @ rest"
    using fd_read_done [of env 8 timeout deadline] assms(1-4)
    by (auto simp: packet_bytes_def)
  have st: "store buf 0 ?h = Some (patch buf 0 ?h)"
    using assms(7) by (simp add: store_patch packet_bytes_def)
  have "at_mem (patch buf 0 ?h) 0 ?h"
    using assms(7) by (intro at_mem_patch_same) (simp add: packet_bytes_def)
  then have "at_mem (patch buf 0 ?h) 4 (enc32 (of_nat (length d)))"
    by (simp add: h(1) at_mem_append)
  then have len: "packet_length (patch buf 0 ?h) = Some (of_nat (length d))"
    by (simp add: packet_length_def load32_at)
  have "limit < unat (of_nat (length d) :: u32)"
    using assms(5,6) by (simp add: unat_of_nat)
  then show ?thesis
    using read by (simp add: bcd_sb_read_def sizeof_packet_def st len sb_result_def)
qed

theorem bcd_sb_read_oversize_witness:
  "\<exists>env'. bcd_sb_read (replicate 8 7) 0 30 100 \<lparr>rd_events = [Rd_data (packet_bytes BCD_OP_CF [47, 0])],
      wr_events = [], sel_events = [], sent = []\<rparr> =
    Some (0, None, patch (replicate 8 7) 0 (take 8 (packet_bytes BCD_OP_CF [47, 0])), env')"
  using bcd_sb_read_oversize [of "\<lparr>rd_events = [Rd_data (packet_bytes BCD_OP_CF [47, 0])],
      wr_events = [], sel_events = [], sent = []\<rparr>" BCD_OP_CF "[47, 0]" "[]" 0 "replicate 8 7" 30 100]
  by (auto simp: ready_selects_def)

text \<open>
  \<open>bcd_reap\<close>: \<open>waits t\<close> is what the \<open>t\<close>-th \<open>waitpid\<close> returns; the result is the number of
  seconds slept. Every turn but a failing \<open>waitpid\<close> reaches the condition, which sleeps.
\<close>

function reap_loop :: "nat \<Rightarrow> (nat \<Rightarrow> int) \<Rightarrow> nat \<Rightarrow> nat" where
  "reap_loop limit waits t =
     (if waits t = -1 then t
      else if t < limit then reap_loop limit waits (t + 1)
      else t + 1)"
  by pat_completeness auto

termination reap_loop
  by (relation "measure (\<lambda>(limit, waits, t). limit - t)") auto

declare reap_loop.simps [simp del]

definition bcd_reap :: "u32 \<Rightarrow> (nat \<Rightarrow> int) \<Rightarrow> nat" where
  "bcd_reap timeout waits = reap_loop (unat timeout) waits 0"

lemma reap_loop_end:
  "t \<le> limit \<Longrightarrow> reap_loop limit waits t = limit + 1 \<or>
    reap_loop limit waits t \<le> limit \<and> waits (reap_loop limit waits t) = -1"
proof (induction limit waits t rule: reap_loop.induct)
  case (1 limit waits t)
  show ?case
  proof (cases "waits t \<noteq> -1 \<and> t < limit")
    case True
    then have step: "reap_loop limit waits t = reap_loop limit waits (t + 1)"
      by (simp add: reap_loop.simps [of limit waits t])
    show ?thesis
      unfolding step using "1.IH" True by simp
  next
    case False
    with "1.prems" show ?thesis
      by (auto simp: reap_loop.simps [of limit waits t])
  qed
qed

text \<open>
  \<open>bcd_reap\<close> always ends: after the configured timeout and one second, or earlier when
  \<open>waitpid\<close> fails because no child is left.
\<close>

theorem bcd_reap_bounded:
  "bcd_reap timeout waits = unat timeout + 1 \<or>
   bcd_reap timeout waits \<le> unat timeout \<and> waits (bcd_reap timeout waits) = -1"
  unfolding bcd_reap_def by (rule reap_loop_end) simp

text \<open>
  \<open>bcd_fatal\<close>: the request and the wait for the monitor's end, neither of which is checked;
  the pipes are two descriptors.
\<close>

definition bcd_fatal ::
    "u32 \<Rightarrow> int \<Rightarrow> (nat \<Rightarrow> int) \<Rightarrow> io_env \<Rightarrow> io_env \<Rightarrow> (io_env \<times> io_env \<times> nat) option" where
  "bcd_fatal timeout now waits master monitor = do {
     let deadline = now + int (unat timeout);
     (r, e, master) \<leftarrow> bcd_sb_write BCD_OP_TR_FATAL [] timeout deadline master;
     (r, err, packet, monitor) \<leftarrow> bcd_sb_read (packet_bytes BCD_OP_TR_FATAL []) 0 timeout deadline monitor;
     Some (master, monitor, bcd_reap timeout waits)
   }"

end
