(* ===== verification/Example_Bcd.thy ===== *)
theory Example_Bcd
  imports Bun_Handle Bcd_Request Bcd_Client
begin

text \<open>
  The programs under \<open>examples/\<close> that put the two libraries together, after
  \<open>examples/bcd/main.cpp\<close>: the process shares memory with its bcd monitor, and the monitor's
  request handler unwinds the requesting thread into it with libbun instead of running a
  tracer. The configuration of \<open>examples/crashpad-remote\<close>, which stores its callbacks too
  early, stands beside that of \<open>examples/bcd\<close>.
\<close>

section \<open>The shared buffer\<close>

datatype 'a may_abort = Abort | Proceeds 'a

definition BUFFER_SIZE :: nat where
  "BUFFER_SIZE = 65536"

text \<open>
  The operating system: the files of \<open>Bun_Utils\<close>, \<open>ftruncate\<close>, and the contents \<open>mmap\<close> maps
  for a descriptor. Addresses are relative to the mapping.
\<close>

record example_os =
  xo_files :: os_files
  xo_utils :: utils_state
  xo_ftruncate :: "int \<Rightarrow> int"
  xo_mmap :: "int \<Rightarrow> mem option"

definition buffer_reader :: "example_os \<Rightarrow> int \<Rightarrow> mem may_abort" where
  "buffer_reader os fd = (case xo_mmap os fd of None \<Rightarrow> Abort | Some r \<Rightarrow> Proceeds r)"

text \<open>The descriptor \<open>buffer_fd\<close> and the mapping.\<close>

definition buffer_create :: "example_os \<Rightarrow> (int \<times> mem) may_abort option" where
  "buffer_create os = do {
     (fd, ev) \<leftarrow> bun_memfd_create (xo_files os) (xo_utils os) ''_backtrace_buffer'';
     Some (if fd = -1 then Abort
       else if xo_ftruncate os fd = -1 then Abort
       else (case buffer_reader os fd of Abort \<Rightarrow> Abort | Proceeds r \<Rightarrow> Proceeds (fd, r)))
   }"

text \<open>In the monitor: the same memory, which then starts with the monitor's number.\<close>

definition monitor_init :: "example_os \<Rightarrow> int \<Rightarrow> u32 \<Rightarrow> mem may_abort option" where
  "monitor_init os buffer_fd pid =
     (case buffer_reader os buffer_fd of
        Abort \<Rightarrow> Some Abort
      | Proceeds buffer_child \<Rightarrow> map_option Proceeds (store buffer_child 0 (enc32 pid)))"

section \<open>The request handler\<close>

text \<open>
  The monitor while it serves a request: the build of libbun and its default backend, the
  allocation of a backend's context, the contents and the address of the local handle, the
  libraries, the other handles, its own thread number and the backends' uninitialized writer.
\<close>

record ('c, 's, 'r, 'm, 'e) request_env =
  rq_build :: bun_build
  rq_default :: bun_unwind_backend
  rq_context :: ptr
  rq_handle :: bun_handle
  rq_address :: ptr
  rq_env :: "('c, 's, 'r, 'm, 'e) bun_env"
  rq_handles :: handle_heap
  rq_tid :: u32
  rq_writer :: bun_writer

definition shared_buffer :: bun_buffer where
  "shared_buffer = \<lparr>buf_data = 0, buf_size = of_nat BUFFER_SIZE\<rparr>"

definition request_handler ::
    "('c, 's, 'r, 'm, 'e) request_env \<Rightarrow> u32 \<Rightarrow> mem \<Rightarrow> (int \<times> mem) option" where
  "request_handler R tid m =
     (let (bun_initialized, handle) =
            bun_handle_init (rq_build R) (rq_context R) (rq_handle R) (rq_default R)
      in if \<not> bun_initialized then Some (-1, m)
         else do {
           (written, m') \<leftarrow> bun_unwind_remote (rq_env R) tid
             ((rq_handles R)(rq_address R \<mapsto> handle)) (rq_tid R) m (rq_writer R) shared_buffer
             (rq_address R);
           Some (-1, m')
         })"

section \<open>The configuration\<close>

text \<open>
  The steps of \<open>main\<close> that prepare \<open>bcd_init\<close>: here the defaults come first, and the program
  ends when they are refused.
\<close>

definition example_configure :: "ptr \<Rightarrow> bcd_config \<Rightarrow> ptr \<Rightarrow> ptr \<Rightarrow> bcd_config may_abort" where
  "example_configure default_handler cf handler init =
     (let (r, cf) = bcd_config_init_internal default_handler cf 1
      in if r = -1 then Abort
         else Proceeds (cf\<lparr>cf_request_handler := handler, cf_monitor_init := init\<rparr>))"

text \<open>\<open>examples/crashpad-remote\<close>: the program exits with \<open>EXIT_FAILURE\<close> instead of aborting.\<close>

definition remote_configure :: "ptr \<Rightarrow> bcd_config \<Rightarrow> ptr \<Rightarrow> ptr \<Rightarrow> bcd_config may_abort" where
  "remote_configure default_handler cf handler init =
     (let cf = cf\<lparr>cf_request_handler := handler\<rparr>;
          cf = cf\<lparr>cf_monitor_init := init\<rparr>;
          (r, cf) = bcd_config_init_internal default_handler cf 1
      in if r = -1 then Abort else Proceeds cf)"

text \<open>So the handlers of the second program are lost: bcd runs the tracer for its requests.\<close>

lemma remote_configure_loses_handlers:
  "\<exists>cf'. remote_configure dh cf handler init = Proceeds cf' \<and>
    cf_request_handler cf' = NULL \<and> cf_monitor_init cf' = NULL"
  by (simp add: remote_configure_def bcd_config_init_internal_def bcd_config_init_v1_def)

section \<open>The first chance\<close>

text \<open>
  The handler crashpad calls first for a fatal signal: it asks the monitor for a trace of its
  thread and leaves the crash to crashpad.
\<close>

definition FirstChanceHandler :: "bcd_handle \<Rightarrow> bcd_caller \<Rightarrow> (bool \<times> bcd_caller) option" where
  "FirstChanceHandler bcd C = map_option (\<lambda>C. (False, C)) (bcd_emit bcd C)"

section \<open>A request\<close>

text \<open>\<open>bcd_perform_request\<close> sees the handler's value.\<close>

definition handler_value :: "('c, 's, 'r, 'm, 'e) request_env \<Rightarrow> mem \<Rightarrow> u32 \<Rightarrow> int" where
  "handler_value R m tid = (case request_handler R tid m of None \<Rightarrow> 0 | Some (r, m') \<Rightarrow> r)"

lemma shared_buffer_ok:
  assumes "length m = BUFFER_SIZE"
  shows "buffer_ok m shared_buffer" and "unat (buf_size shared_buffer) = 65536"
  using assms by (simp_all add: buffer_ok_def shared_buffer_def BUFFER_SIZE_def layout_defs)

text \<open>Unwinding into a buffer that belongs to no handle yet or to this one.\<close>

lemma request_unwinds:
  assumes "bun_handle_init (rq_build R) (rq_context R) (rq_handle R) (rq_default R) = (True, h)"
    and "rq_address R \<noteq> NULL"
    and "env_remote_yields (rq_env R) (rq_default R) tid fs"
    and ok: "buffer_ok m b" and small: "unat (buf_size b) \<le> 65536"
    and owner: "load64 m (buf_data b + off_handle) = Some owner" "owner = NULL \<or> owner = rq_address R"
    and fits: "40 + total_size fs \<le> unat (buf_size b)"
  shows "\<exists>n m' gs. bun_unwind_remote (rq_env R) tid ((rq_handles R)(rq_address R \<mapsto> h)) (rq_tid R) m
      (rq_writer R) b (rq_address R) = Some (n, m') \<and>
    stream_header m' b p' = Some (tid, backend_value (rq_default R)) \<and>
    replay_stream m' r b p' g = Some gs \<and>
    map parsed_of_frame gs = map parsed_of_frame (readable (24 + accounted fs) 24 fs)"
proof -
  let ?hs = "(rq_handles R)(rq_address R \<mapsto> h)" and ?p = "rq_address R"
  have h: "?hs ?p = Some h" "flags h = 0"
    using handle_init_flags [OF assms(1)] by simp_all
  obtain mi where init: "bun_writer_init ?hs (rq_tid R) m (rq_writer R) b
      (env_arch (rq_env R)) ?p = Some (True, rw_start b ?p, mi)"
    using bun_writer_init_again [where hs = ?hs and handle = ?p, OF ok assms(2) h owner] by blast
  have "accounted fs \<le> total_size fs"
    by (simp add: accounted_def total_size_def sum_list_mono)
  then have "24 + accounted fs < 2 ^ 32"
    using fits small by simp
  from bun_unwind_remote_init [where hs = ?hs, OF assms(1) h(1) assms(3) ok init fits this]
  show ?thesis by blast
qed

lemma request_handler_records:
  assumes "bun_handle_init (rq_build R) (rq_context R) (rq_handle R) (rq_default R) = (True, h)"
    and "rq_address R \<noteq> NULL"
    and "env_remote_yields (rq_env R) (rq_default R) tid fs"
    and "length m = BUFFER_SIZE"
    and "load64 m off_handle = Some owner" and "owner = NULL \<or> owner = rq_address R"
    and "40 + total_size fs \<le> BUFFER_SIZE"
  shows "\<exists>m' gs. request_handler R tid m = Some (-1, m') \<and>
    stream_header m' shared_buffer p' = Some (tid, backend_value (rq_default R)) \<and>
    replay_stream m' r shared_buffer p' g = Some gs \<and>
    map parsed_of_frame gs = map parsed_of_frame (readable (24 + accounted fs) 24 fs)"
proof -
  note ok = shared_buffer_ok [OF assms(4)]
  have owner: "load64 m (buf_data shared_buffer + off_handle) = Some owner"
    using assms(5) by (simp add: shared_buffer_def)
  have fits: "unat (buf_size shared_buffer) \<le> 65536" "40 + total_size fs \<le> unat (buf_size shared_buffer)"
    using assms(7) ok(2) by (simp_all add: BUFFER_SIZE_def)
  show ?thesis
    using request_unwinds [OF assms(1-3) ok(1) fits(1) owner assms(6) fits(2), of p' r g] assms(1)
    by (auto simp: request_handler_def)
qed

text \<open>
  The local handle of a later request may live at another address. The buffer then belongs to
  the first one: the writer is not initialized, and the backend goes on with whatever it holds.
\<close>

lemma request_handler_foreign:
  assumes "length m = BUFFER_SIZE" and "load64 m off_handle = Some owner"
    and "owner \<noteq> NULL" and "rq_address R \<noteq> NULL" and "rq_address R \<noteq> owner"
  shows "bun_writer_init hs (rq_tid R) m (rq_writer R) shared_buffer arch (rq_address R) =
    Some (False, rq_writer R, m)"
proof (rule bun_writer_init_foreign [OF _ _ assms(3-5)])
  show "buffer_ok m shared_buffer"
    using assms(1) by (rule shared_buffer_ok)
  show "load64 m (buf_data shared_buffer + off_handle) = Some owner"
    using assms(2) by (simp add: shared_buffer_def)
qed

text \<open>
  A trace request to a monitor whose configuration has the handler, when that returns -1.
\<close>

lemma request_intercepted:
  assumes "cf_request_handler (config st) = handler" and "handler \<noteq> NULL"
    and "se_tid s = tid" and "tid \<noteq> 0"
    and "env_request_handler E = (\<lambda>p t. handler_value R m t)" and "handler_value R m tid = -1"
  shows "bcd_backtrace_thread E s st =
      Some (Returns (-1), st\<lparr>reports := reports st @
        [(BCD_EVENT_TRACE, master_pid st, tid, ''request handler intercepted event'', 0)]\<rparr>)"
  using assms by (simp add: bcd_backtrace_thread_def bcd_request_handler_def bcd_error_def)

lemma configured_handlers:
  assumes "example_configure dh cf handler init = Proceeds cf'"
  shows "cf' = (bcd_config_init_v1 dh)\<lparr>cf_request_handler := handler, cf_monitor_init := init\<rparr>"
  using assms by (simp add: example_configure_def bcd_config_init_internal_def)

text \<open>
  The two libraries together. With the example's configuration, a request for a trace of
  thread \<open>tid\<close> runs no tracer: the monitor reports that the handler intercepted it, and the
  shared memory, which belongs to no handle yet or to this one, holds a stream that names the
  thread and the backend and from which a reader gets the frames the library yields for the
  thread (all of them while the two-byte deficit per frame allows).
\<close>

theorem example_request_streams:
  assumes "example_configure dh cf handler init = Proceeds (config st)" and "handler \<noteq> NULL"
    and "se_tid s = tid" and "tid \<noteq> 0"
    and "env_request_handler E = (\<lambda>p t. handler_value R m t)"
    and "bun_handle_init (rq_build R) (rq_context R) (rq_handle R) (rq_default R) = (True, h)"
    and "rq_address R \<noteq> NULL"
    and "env_remote_yields (rq_env R) (rq_default R) tid fs"
    and "length m = BUFFER_SIZE"
    and "load64 m off_handle = Some owner" and "owner = NULL \<or> owner = rq_address R"
    and "40 + total_size fs \<le> BUFFER_SIZE"
  shows "bcd_backtrace_thread E s st =
      Some (Returns (-1), st\<lparr>reports := reports st @
        [(BCD_EVENT_TRACE, master_pid st, tid, ''request handler intercepted event'', 0)]\<rparr>) \<and>
    (\<exists>m' gs. request_handler R tid m = Some (-1, m') \<and>
      stream_header m' shared_buffer p' = Some (tid, backend_value (rq_default R)) \<and>
      replay_stream m' r shared_buffer p' g = Some gs \<and>
      map parsed_of_frame gs = map parsed_of_frame (readable (24 + accounted fs) 24 fs))"
proof -
  have "cf_request_handler (config st) = handler"
    using configured_handlers [OF assms(1)] by simp
  note handler = this assms(2-5)
  note records = request_handler_records [OF assms(6-12), of p' r g]
  then have "handler_value R m tid = -1"
    by (auto simp: handler_value_def)
  note request_intercepted [OF handler this]
  with records show ?thesis by blast
qed

text \<open>A monitor with libunwindstack, whose shared memory starts with its number.\<close>

definition sample_request :: "(nat, nat, nat, unit, unit) request_env" where
  "sample_request =
     \<lparr>rq_build = sample_build\<lparr>BUN_LIBUNWINDSTACK_ENABLED := True\<rparr>,
      rq_default = BUN_BACKEND_LIBUNWINDSTACK, rq_context = 0, rq_handle = zero_handle,
      rq_address = 4096, rq_env = sample_env, rq_handles = (\<lambda>_. None), rq_tid = 78,
      rq_writer = sample_rw 0\<rparr>"

definition sample_shared :: mem where
  "sample_shared = enc32 78 @ replicate 65532 0"

lemma sample_shared_fields:
  "length sample_shared = BUFFER_SIZE" "load64 sample_shared off_handle = Some 0"
proof -
  show len: "length sample_shared = BUFFER_SIZE"
    by (simp add: sample_shared_def BUFFER_SIZE_def)
  have "take 8 (drop 8 sample_shared) = take 8 (replicate 65528 0)"
    by (simp add: sample_shared_def)
  also have "\<dots> = enc64 0"
    by (simp add: enc64_def le_encode_zero)
  finally show "load64 sample_shared off_handle = Some 0"
    by (intro load64_at) (simp add: at_mem_def off_handle_def len BUFFER_SIZE_def)
qed

lemma sample_request_yields:
  "env_remote_yields (rq_env sample_request) (rq_default sample_request) 77 sample_stack_frames"
proof -
  have "us_unwind sample_stack max_frames_remote 3 = (fst (us_unwind sample_stack max_frames 3), 4)"
    and "us_parse sample_stack"
    by (simp_all add: sample_stack_def)
  then show ?thesis
    using sample_stack_ok
    by (simp add: sample_request_def sample_env_def sample_stack_frames_def)
qed

definition sample_tracing :: bcd_monitor where
  "sample_tracing = start_monitor ((bcd_config_init_v1 5)\<lparr>cf_request_handler := 6, cf_monitor_init := 7\<rparr>) 77"

definition sample_handling :: monitor_env where
  "sample_handling = (example_env [])
     \<lparr>env_request_handler := (\<lambda>p t. handler_value sample_request sample_shared t)\<rparr>"

theorem example_request_streams_witness:
  "bcd_backtrace_thread sample_handling (zero_session\<lparr>se_tid := 77\<rparr>) sample_tracing =
      Some (Returns (-1), sample_tracing\<lparr>reports := reports sample_tracing @
        [(BCD_EVENT_TRACE, master_pid sample_tracing, 77, ''request handler intercepted event'', 0)]\<rparr>) \<and>
    (\<exists>m' gs. request_handler sample_request 77 sample_shared = Some (-1, m') \<and>
      stream_header m' shared_buffer 0 = Some (77, 2) \<and>
      replay_stream m' (sample_rw 0) shared_buffer 0 zero_frame = Some gs \<and>
      map parsed_of_frame gs = map parsed_of_frame
        (readable (24 + accounted sample_stack_frames) 24 sample_stack_frames))"
proof -
  have kind: "backend_value (rq_default sample_request) = 2"
    by (simp add: sample_request_def)
  obtain h where h: "bun_handle_init (rq_build sample_request) (rq_context sample_request)
      (rq_handle sample_request) (rq_default sample_request) = (True, h)"
    by (simp add: sample_request_def handle_init_defs sample_build_def)
  have "example_configure 5 (bcd_config_init_v1 0) 6 7 = Proceeds (config sample_tracing)"
    by (simp add: example_configure_def bcd_config_init_internal_def sample_tracing_def
        start_monitor_def)
  moreover have "env_request_handler sample_handling =
      (\<lambda>p t. handler_value sample_request sample_shared t)"
    by (simp add: sample_handling_def)
  moreover have "(6 :: ptr) \<noteq> NULL" "se_tid (zero_session\<lparr>se_tid := 77\<rparr>) = 77" "(77 :: u32) \<noteq> 0"
      "rq_address sample_request \<noteq> NULL" "40 + total_size sample_stack_frames \<le> BUFFER_SIZE"
    by (simp_all add: sample_request_def sample_stack_sizes BUFFER_SIZE_def)
  ultimately show ?thesis
    using example_request_streams [OF _ _ _ _ _ h _ sample_request_yields sample_shared_fields,
        of 5 "bcd_config_init_v1 0" 6 7 sample_tracing "zero_session\<lparr>se_tid := 77\<rparr>" sample_handling
          0 "sample_rw 0" zero_frame]
    by (simp add: kind)
qed

end
