(* ===== verification/Example_Crashpad.thy ===== *)
theory Example_Crashpad
  imports Bun_Handle
begin

text \<open>
  \<open>examples/crashpad/example_crashpad.cpp\<close>: a process that registers its buffer with crashpad
  as a stream of the minidump and unwinds into it from crashpad's first-chance handler; and
  the start of crashpad that all the examples share (\<open>examples/*/crashpad.cpp\<close>). Crashpad
  itself is a parameter: what its calls return. Its side of the interface is the record of
  what it was told.
\<close>

section \<open>Crashpad as the examples use it\<close>

datatype 'a program_end = Program_aborts | Program_exits int | Program_crashes 'a

record crashpad_start =
  cs_handler :: string
  cs_database :: string
  cs_metrics :: string
  cs_url :: string
  cs_annotations :: "string \<rightharpoonup> string"
  cs_arguments :: "string list"

text \<open>
  \<open>CrashReportDatabase::Initialize\<close> and \<open>GetSettings\<close>, which may return \<open>NULL\<close>, and
  \<open>CrashpadClient::StartHandlerAtCrashForBacktrace\<close>.
\<close>

record crashpad_lib =
  cl_initialize :: "string \<Rightarrow> ptr"
  cl_settings :: "ptr \<Rightarrow> ptr"
  cl_start_handler :: "crashpad_start \<Rightarrow> bool"

text \<open>
  What crashpad was told: the setting of the uploads, the handlers started, the user streams
  with their memory, the first-chance handler, and the contexts dumped without a crash.
\<close>

record crashpad_client =
  cc_uploads :: bool
  cc_starts :: "crashpad_start list"
  cc_streams :: "(u32 \<times> nat \<times> u64) list"
  cc_first_chance :: ptr
  cc_dumps :: "ptr list"

definition crashpad_fresh :: crashpad_client where
  "crashpad_fresh = \<lparr>cc_uploads = False, cc_starts = [], cc_streams = [], cc_first_chance = NULL,
     cc_dumps = []\<rparr>"

definition BUN_STREAM_ID :: u32 where
  "BUN_STREAM_ID = 0xbac0000"

definition EXIT_FAILURE_STATUS :: int where
  "EXIT_FAILURE_STATUS = 1"

text \<open>The body the examples' \<open>startCrashHandler\<close> share; they differ in the address.\<close>

definition start_crash_handler ::
    "string \<Rightarrow> crashpad_lib \<Rightarrow> crashpad_client \<Rightarrow> bool \<times> crashpad_client" where
  "start_crash_handler url L CP =
     (let db_path = ''.'';
          handler_path = ''/path/to/crashpad/handler'';
          annotations = [''token'' \<mapsto> ''your_token'', ''format'' \<mapsto> ''minidump''];
          arguments = [''--no-rate-limit''];
          database = cl_initialize L db_path
      in if database = NULL \<or> cl_settings L database = NULL then (False, CP)
         else let CP = CP\<lparr>cc_uploads := True\<rparr>;
                  start = \<lparr>cs_handler = handler_path, cs_database = db_path, cs_metrics = db_path,
                    cs_url = url, cs_annotations = annotations, cs_arguments = arguments\<rparr>
              in (cl_start_handler L start, CP\<lparr>cc_starts := cc_starts CP @ [start]\<rparr>))"

definition crashpad_startCrashHandler ::
    "crashpad_lib \<Rightarrow> crashpad_client \<Rightarrow> bool \<times> crashpad_client" where
  "crashpad_startCrashHandler = start_crash_handler ''https://your_host.sp.backtrace.io:6098/''"

definition AddUserDataMinidumpStream ::
    "u32 \<Rightarrow> nat \<Rightarrow> u64 \<Rightarrow> crashpad_client \<Rightarrow> crashpad_client" where
  "AddUserDataMinidumpStream i d sz CP = CP\<lparr>cc_streams := cc_streams CP @ [(i, d, sz)]\<rparr>"

definition SetFirstChanceExceptionHandler :: "ptr \<Rightarrow> crashpad_client \<Rightarrow> crashpad_client" where
  "SetFirstChanceExceptionHandler handler CP = CP\<lparr>cc_first_chance := handler\<rparr>"

text \<open>\<open>initCrashpad\<close> of the programs with a \<open>crashpad.cpp\<close>, with their \<open>startCrashHandler\<close>.\<close>

definition init_crashpad ::
    "(crashpad_lib \<Rightarrow> crashpad_client \<Rightarrow> bool \<times> crashpad_client) \<Rightarrow> crashpad_lib \<Rightarrow> bun_buffer \<Rightarrow> ptr
      \<Rightarrow> crashpad_client \<Rightarrow> bool \<times> crashpad_client" where
  "init_crashpad startCrashHandler L buffer handler CP =
     (let (crashpad_initialized, CP) = startCrashHandler L CP
      in if \<not> crashpad_initialized then (False, CP)
         else let CP = AddUserDataMinidumpStream BUN_STREAM_ID (buf_data buffer) (buf_size buffer) CP;
                  CP = (if handler \<noteq> NULL then SetFirstChanceExceptionHandler handler CP else CP)
              in (True, CP))"

lemma start_crash_handler_result:
  assumes "start_crash_handler url L CP = (ok, CP')"
  shows "cc_streams CP' = cc_streams CP" and "cc_first_chance CP' = cc_first_chance CP"
    and "cc_dumps CP' = cc_dumps CP" and "ok \<Longrightarrow> cc_uploads CP'"
    and "ok \<Longrightarrow> \<exists>st. cc_starts CP' = cc_starts CP @ [st] \<and> cl_start_handler L st \<and> cs_url st = url \<and>
      cs_annotations st ''format'' = Some ''minidump''"
  using assms by (auto simp: start_crash_handler_def Let_def split: if_splits)

text \<open>What a successful \<open>initCrashpad\<close> leaves crashpad with; a failing one registers nothing.\<close>

lemma init_crashpad_result:
  assumes "init_crashpad (start_crash_handler url) L b handler CP = (ok, CP')"
  shows "cc_streams CP' = cc_streams CP @ (if ok then [(BUN_STREAM_ID, buf_data b, buf_size b)] else [])"
    and "cc_first_chance CP' = (if ok \<and> handler \<noteq> NULL then handler else cc_first_chance CP)"
    and "ok \<Longrightarrow> cc_uploads CP'" and "cc_dumps CP' = cc_dumps CP"
proof -
  obtain ok1 CP1 where st: "start_crash_handler url L CP = (ok1, CP1)"
    by fastforce
  note facts = start_crash_handler_result [OF st]
  have res: "ok = ok1" "CP' = (if ok1 then let CP = AddUserDataMinidumpStream BUN_STREAM_ID (buf_data b) (buf_size b) CP1
      in if handler \<noteq> NULL then SetFirstChanceExceptionHandler handler CP else CP else CP1)"
    using assms st by (auto simp: init_crashpad_def Let_def split: if_splits)
  show "cc_streams CP' = cc_streams CP @ (if ok then [(BUN_STREAM_ID, buf_data b, buf_size b)] else [])"
    and "cc_first_chance CP' = (if ok \<and> handler \<noteq> NULL then handler else cc_first_chance CP)"
    and "ok \<Longrightarrow> cc_uploads CP'" and "cc_dumps CP' = cc_dumps CP"
    using res facts(1-4)
    by (simp_all add: AddUserDataMinidumpStream_def SetFirstChanceExceptionHandler_def Let_def)
qed

section \<open>The program\<close>

text \<open>
  The world of the program: the build, its default backend, the allocation for a backend's
  context, crashpad, the addresses of \<open>FirstChanceHandler\<close>, of the static handle and of the
  data of \<open>buffer_backend\<close>.
\<close>

record crashpad_world =
  cw_build :: bun_build
  cw_default :: bun_unwind_backend
  cw_context :: ptr
  cw_lib :: crashpad_lib
  cw_handler :: ptr
  cw_handle :: ptr
  cw_data :: nat

record crashpad_program =
  cp_handle :: bun_handle
  cp_buffer :: bun_buffer
  cp_client :: crashpad_client
  cp_mem :: mem

definition buffer_backend_size :: u64 where
  "buffer_backend_size = 0x10000"

text \<open>
  \<open>main\<close> up to the crash, from the static variables' initial values; the deinitialization
  after the trap is never reached.
\<close>

definition crashpad_main ::
    "crashpad_world \<Rightarrow> crashpad_program \<Rightarrow> crashpad_program program_end option" where
  "crashpad_main W P =
     (let (bun_initialized, h) = bun_handle_init (cw_build W) (cw_context W) (cp_handle P) (cw_default W);
          P = P\<lparr>cp_handle := h\<rparr>
      in if \<not> bun_initialized then Some (Program_exits EXIT_FAILURE_STATUS)
         else
           let (crashpad_initialized, CP) = crashpad_startCrashHandler (cw_lib W) (cp_client P);
               P = P\<lparr>cp_client := CP\<rparr>
           in if \<not> crashpad_initialized then Some (Program_exits EXIT_FAILURE_STATUS)
              else do {
                (buffer_initialized, b, m) \<leftarrow>
                  bun_buffer_init (cp_mem P) (cp_buffer P) (cw_data W) buffer_backend_size;
                let P = P\<lparr>cp_buffer := b, cp_mem := m\<rparr>;
                if \<not> buffer_initialized then Some (Program_exits EXIT_FAILURE_STATUS)
                else
                  (let CP = AddUserDataMinidumpStream BUN_STREAM_ID (cw_data W) buffer_backend_size (cp_client P);
                       CP = SetFirstChanceExceptionHandler (cw_handler W) CP
                   in Some (Program_crashes (P\<lparr>cp_client := CP\<rparr>)))
              })"

text \<open>The handler: the result \<open>False\<close> leaves the signal to crashpad.\<close>

definition crashpad_FirstChanceHandler ::
    "crashpad_world \<Rightarrow> ('c, 's, 'r, 'm, 'e) bun_env \<Rightarrow> handle_heap \<Rightarrow> u32 \<Rightarrow> bun_writer
      \<Rightarrow> crashpad_program \<Rightarrow> (bool \<times> crashpad_program) option" where
  "crashpad_FirstChanceHandler W E hs tid w P = do {
     (n, m) \<leftarrow> bun_unwind E (hs(cw_handle W \<mapsto> cp_handle P)) tid (cp_mem P) w (cp_buffer P) (cw_handle W);
     Some (False, P\<lparr>cp_mem := m\<rparr>)
   }"

lemma crashpad_main_crashes:
  assumes "crashpad_main W P = Some (Program_crashes Q)"
  obtains h b m where
    "bun_handle_init (cw_build W) (cw_context W) (cp_handle P) (cw_default W) = (True, h)"
    "bun_buffer_init (cp_mem P) (cp_buffer P) (cw_data W) buffer_backend_size = Some (True, b, m)"
    "cp_handle Q = h" "cp_buffer Q = b" "cp_mem Q = m" "cc_uploads (cp_client Q)"
    "cc_streams (cp_client Q) = cc_streams (cp_client P) @ [(BUN_STREAM_ID, cw_data W, buffer_backend_size)]"
    "cc_first_chance (cp_client Q) = cw_handler W"
proof -
  obtain ok CP where st: "crashpad_startCrashHandler (cw_lib W) (cp_client P) = (ok, CP)"
    by fastforce
  note facts = start_crash_handler_result [OF st [unfolded crashpad_startCrashHandler_def]]
  obtain h b m where "bun_handle_init (cw_build W) (cw_context W) (cp_handle P) (cw_default W) = (True, h)"
    "bun_buffer_init (cp_mem P) (cp_buffer P) (cw_data W) buffer_backend_size = Some (True, b, m)" "ok"
    "Q = P\<lparr>cp_handle := h, cp_buffer := b, cp_mem := m, cp_client := SetFirstChanceExceptionHandler
      (cw_handler W) (AddUserDataMinidumpStream BUN_STREAM_ID (cw_data W) buffer_backend_size CP)\<rparr>"
    using assms st
    by (auto simp: crashpad_main_def Let_def bind_eq_Some_conv split: prod.splits if_splits)
  then show thesis
    using facts by (intro that) (simp_all add: AddUserDataMinidumpStream_def SetFirstChanceExceptionHandler_def)
qed

text \<open>
  C14: the crash report of the example. If \<open>main\<close> gets to the crash, crashpad has
  the handler and exactly the program's 65536 bytes as the stream of libbun; running the
  handler leaves the signal to crashpad and, when the library yields at most 13 frames and
  they fit, in these bytes a stream that names the crashing thread and the backend and from
  which a reader gets exactly these frames.
\<close>

theorem crashpad_example_streams:
  assumes "crashpad_main W P = Some (Program_crashes Q)" and "cc_streams (cp_client P) = []"
    and "cw_data W + unat buffer_backend_size \<le> length (cp_mem P)" and "length (cp_mem P) < 2 ^ 63"
    and "env_yields E (cw_default W) fs" and "40 + total_size fs \<le> unat buffer_backend_size"
    and "length fs \<le> 13"
  shows "cc_first_chance (cp_client Q) = cw_handler W \<and>
    cc_streams (cp_client Q) = [(BUN_STREAM_ID, cw_data W, buffer_backend_size)] \<and>
    (\<exists>Q' gs. crashpad_FirstChanceHandler W E hs tid w Q = Some (False, Q') \<and>
      cp_client Q' = cp_client Q \<and>
      stream_header (cp_mem Q') \<lparr>buf_data = cw_data W, buf_size = buffer_backend_size\<rparr> p' =
        Some (tid, backend_value (cw_default W)) \<and>
      replay_stream (cp_mem Q') r \<lparr>buf_data = cw_data W, buf_size = buffer_backend_size\<rparr> p' g = Some gs \<and>
      map parsed_of_frame gs = map parsed_of_frame fs)"
proof -
  let ?hs = "hs(cw_handle W \<mapsto> cp_handle Q)"
  obtain h b m where main:
    "bun_handle_init (cw_build W) (cw_context W) (cp_handle P) (cw_default W) = (True, h)"
    "bun_buffer_init (cp_mem P) (cp_buffer P) (cw_data W) buffer_backend_size = Some (True, b, m)"
    "cp_handle Q = h" "cp_buffer Q = b" "cp_mem Q = m"
    and client:
    "cc_streams (cp_client Q) = cc_streams (cp_client P) @ [(BUN_STREAM_ID, cw_data W, buffer_backend_size)]"
    "cc_first_chance (cp_client Q) = cw_handler W"
    using assms(1) by (rule crashpad_main_crashes)
  have h: "?hs (cw_handle W) = Some h"
    using main(3) by simp
  have b: "b = \<lparr>buf_data = cw_data W, buf_size = buffer_backend_size\<rparr>"
    using bun_writer_init_after(1) [OF _ assms(3,4) main(2), of NULL hs] assms(6) by simp
  have small: "24 + accounted fs < 2 ^ 32"
  proof -
    have "accounted fs \<le> total_size fs"
      by (simp add: accounted_def total_size_def sum_list_mono)
    then show ?thesis
      using assms(6) by (simp add: buffer_backend_size_def)
  qed
  obtain m' gs where "bun_unwind E ?hs tid m w b (cw_handle W) = Some (24 + of_nat (accounted fs), m')"
    "stream_header m' b p' = Some (tid, backend_value (cw_default W))"
    "replay_stream m' r b p' g = Some gs" "map parsed_of_frame gs = map parsed_of_frame fs"
    using bun_unwind_replays [where hs = ?hs and p = "cw_handle W", OF main(1) h assms(5,3,4) main(2)
        assms(6) small assms(7), of tid w p' r g] by blast
  then have "\<exists>Q' gs. crashpad_FirstChanceHandler W E hs tid w Q = Some (False, Q') \<and>
      cp_client Q' = cp_client Q \<and>
      stream_header (cp_mem Q') b p' = Some (tid, backend_value (cw_default W)) \<and>
      replay_stream (cp_mem Q') r b p' g = Some gs \<and> map parsed_of_frame gs = map parsed_of_frame fs"
    using main(3-5) by (simp add: crashpad_FirstChanceHandler_def)
  then show ?thesis
    using client assms(2) unfolding b by simp
qed

text \<open>A build with libbacktrace, and a crashpad that starts.\<close>

definition sample_crashpad :: crashpad_lib where
  "sample_crashpad = \<lparr>cl_initialize = (\<lambda>_. 1), cl_settings = (\<lambda>_. 2), cl_start_handler = (\<lambda>_. True)\<rparr>"

definition sample_world :: crashpad_world where
  "sample_world = \<lparr>cw_build = sample_build, cw_default = BUN_BACKEND_LIBBACKTRACE, cw_context = 0,
     cw_lib = sample_crashpad, cw_handler = 9, cw_handle = 5, cw_data = 0\<rparr>"

definition sample_program :: crashpad_program where
  "sample_program = \<lparr>cp_handle = zero_handle, cp_buffer = \<lparr>buf_data = 0, buf_size = 0\<rparr>,
     cp_client = crashpad_fresh, cp_mem = replicate 65536 0\<rparr>"

lemma sample_program_crashes: "\<exists>Q. crashpad_main sample_world sample_program = Some (Program_crashes Q)"
proof -
  have "bun_buffer_init (replicate 65536 0) \<lparr>buf_data = 0, buf_size = 0\<rparr> 0 0x10000 =
      Some (True, \<lparr>buf_data = 0, buf_size = 0x10000\<rparr>, patch (replicate 65536 0) 0 (replicate 40 0))"
    by (rule bun_buffer_init_ok) simp_all
  then show ?thesis
    by (simp add: crashpad_main_def sample_world_def sample_program_def sample_build_def handle_init_defs
        crashpad_startCrashHandler_def start_crash_handler_def sample_crashpad_def buffer_backend_size_def)
qed

theorem crashpad_example_streams_witness:
  "\<exists>Q. crashpad_main sample_world sample_program = Some (Program_crashes Q) \<and>
    cc_first_chance (cp_client Q) = 9 \<and> cc_streams (cp_client Q) = [(BUN_STREAM_ID, 0, 0x10000)] \<and>
    (\<exists>Q' gs. crashpad_FirstChanceHandler sample_world sample_env (\<lambda>_. None) 77 (sample_rw 0) Q = Some (False, Q') \<and>
      stream_header (cp_mem Q') \<lparr>buf_data = 0, buf_size = 0x10000\<rparr> 0 = Some (77, 1) \<and>
      replay_stream (cp_mem Q') (sample_rw 0) \<lparr>buf_data = 0, buf_size = 0x10000\<rparr> 0 zero_frame = Some gs \<and>
      map parsed_of_frame gs = map parsed_of_frame (libbacktrace_frames sample_bt))"
proof -
  obtain Q where Q: "crashpad_main sample_world sample_program = Some (Program_crashes Q)"
    using sample_program_crashes by blast
  have w: "cw_default sample_world = BUN_BACKEND_LIBBACKTRACE" "cw_data sample_world = 0"
      "cw_handler sample_world = 9" "unat buffer_backend_size = 65536"
    by (simp_all add: sample_world_def buffer_backend_size_def)
  have p: "cc_streams (cp_client sample_program) = []" "length (cp_mem sample_program) = 65536"
    by (simp_all add: sample_program_def crashpad_fresh_def)
  have "env_yields sample_env (cw_default sample_world) (libbacktrace_frames sample_bt)"
    by (simp add: w sample_env_def sample_bt_ok)
  from crashpad_example_streams [OF Q p(1) _ _ this, of "\<lambda>_. None" 77 "sample_rw 0" 0 "sample_rw 0" zero_frame]
  show ?thesis
    using Q by (auto simp: w p(2) sample_bt_sizes buffer_backend_size_def)
qed

end
