(* ===== verification/Bcd_Handler.thy ===== *)
theory Bcd_Handler
  imports Bcd_Request
begin

text \<open>
  The handlers the event loop calls: a client's request (\<open>bcd_handler_request_response\<close>), a
  new connection (\<open>bcd_handler_accept\<close>, \<open>bcd_io_listener_accept\<close>), and the two pipes to the
  parent (\<open>bcd_handler_fatal\<close>, \<open>bcd_handler_sb\<close>). An event's payload is the client's session
  with its socket, or the pipe; its constructor also says which handler the event was
  created with.
\<close>

record bcd_client =
  cl_session :: bcd_session
  cl_env :: io_env

datatype io_payload = Client bcd_client | Pipe io_env | Listener | Watch

text \<open>The rest of the process: the monitor's variables and the descriptors it has closed.\<close>

record bcd_world =
  w_monitor :: bcd_monitor
  w_closed :: "int list"

type_synonym bcd_state = "io_payload io_loop \<times> bcd_world"

section \<open>Requests\<close>

text \<open>The session is memory of the event: what a function did to it is stored there.\<close>

definition store_run :: "nat \<Rightarrow> session_run \<Rightarrow> bcd_state \<Rightarrow> bcd_state option" where
  "store_run i R S = do {
     L \<leftarrow> update_event i
       (\<lambda>ev. ev\<lparr>ev_payload := Client \<lparr>cl_session = sr_session R, cl_env = sr_env R\<rparr>\<rparr>) (fst S);
     Some (L, (snd S)\<lparr>w_monitor := sr_monitor R\<rparr>)
   }"

text \<open>A descriptor that is empty or full: the event waits for the next edge.\<close>

definition wait_for_edge :: "nat \<Rightarrow> u32 \<Rightarrow> bcd_state \<Rightarrow> (outcome \<times> bcd_state) option" where
  "wait_for_edge i m S = do {
     L \<leftarrow> bcd_io_event_unset i m (fst S);
     L \<leftarrow> bcd_io_event_remove_from_ready_list i L;
     Some (Returns 0, (L, snd S))
   }"

text \<open>The end of the handler: a terminated session is closed and its event freed.\<close>

definition finish_client :: "nat \<Rightarrow> session_run \<Rightarrow> bcd_state \<Rightarrow> (outcome \<times> bcd_state) option" where
  "finish_client i R S =
     (if se_terminated (sr_session R) then do {
        ev \<leftarrow> io_events (fst S) i;
        L \<leftarrow> bcd_io_event_remove_from_ready_list i (fst S);
        (r, L) \<leftarrow> bcd_io_event_remove True i L;
        Some (Returns 0, (bcd_io_event_destroy (Some i) L,
          (snd S)\<lparr>w_closed := w_closed (snd S) @ [ev_fd ev]\<rparr>))
      } else Some (Returns 0, S))"

text \<open>\<open>case BCD_SESSION_WRITING\<close>, also reached by falling through.\<close>

definition write_response :: "nat \<Rightarrow> session_run \<Rightarrow> bcd_state \<Rightarrow> (outcome \<times> bcd_state) option" where
  "write_response i R S = do {
     (out, e, R) \<leftarrow> bcd_write_ack R;
     S \<leftarrow> store_run i R S;
     case out of
       Returns r \<Rightarrow>
         if r = -1 \<and> e = Some E_AGAIN then wait_for_edge i BCD_IO_EVENT_WRITE S
         else finish_client i R S
     | _ \<Rightarrow> Some (out, S)
   }"

definition bcd_handler_request_response ::
    "monitor_env \<Rightarrow> nat \<Rightarrow> bcd_state \<Rightarrow> (outcome \<times> bcd_state) option" where
  "bcd_handler_request_response E i S = do {
     ev \<leftarrow> io_events (fst S) i;
     case ev_payload ev of
       Client c \<Rightarrow> do {
         let R = \<lparr>sr_session = cl_session c, sr_monitor = w_monitor (snd S), sr_env = cl_env c\<rparr>;
         case se_state (cl_session c) of
           BCD_SESSION_WRITING \<Rightarrow> write_response i R S
         | BCD_SESSION_READING \<Rightarrow> do {
             (out, e, R) \<leftarrow> bcd_read_request R;
             S \<leftarrow> store_run i R S;
             case out of
               Returns r \<Rightarrow>
                 if r = -1 \<and> e = Some E_AGAIN then wait_for_edge i BCD_IO_EVENT_READ S
                 else if se_terminated (sr_session R) then finish_client i R S
                 else do {
                   (out, s, st) \<leftarrow> bcd_perform_request E (sr_session R) (sr_monitor R);
                   let R = R\<lparr>sr_session := s, sr_monitor := st\<rparr>;
                   S \<leftarrow> store_run i R S;
                   case out of Returns _ \<Rightarrow> write_response i R S | _ \<Rightarrow> Some (out, S)
                 }
             | _ \<Rightarrow> Some (out, S)
           }
       }
     | _ \<Rightarrow> None
   }"

section \<open>Connections and pipes\<close>

text \<open>
  \<open>bcd_handler_accept\<close>: the session is zeroed and watched; if that fails the event is freed
  (its descriptor stays open).
\<close>

definition bcd_handler_accept :: "bool \<Rightarrow> nat \<Rightarrow> bcd_state \<Rightarrow> bcd_state option" where
  "bcd_handler_accept ctl i S = do {
     ev \<leftarrow> io_events (fst S) i;
     case ev_payload ev of
       Client c \<Rightarrow> do {
         L \<leftarrow> update_event i
           (\<lambda>ev. ev\<lparr>ev_payload := Client (c\<lparr>cl_session := zero_session\<rparr>)\<rparr>) (fst S);
         (r, L) \<leftarrow> bcd_io_event_add ctl i L;
         Some (if r = -1 then bcd_io_event_destroy (Some i) L else L, snd S)
       }
     | _ \<Rightarrow> None
   }"

text \<open>
  One turn of \<open>bcd_io_listener_accept\<close>: the descriptor \<open>accept\<close> returns, whether its flags
  can be set, the memory for its event, whether \<open>epoll\<close> takes it, and its socket. A
  connection whose flags cannot be set ends the loop, and its descriptor is not closed.
\<close>

record accepted =
  ac_fd :: "int io_result"
  ac_prepared :: bool
  ac_event :: "nat option"
  ac_ctl :: bool
  ac_env :: io_env

fun bcd_io_listener_accept :: "accepted list \<Rightarrow> nat \<Rightarrow> bcd_state \<Rightarrow> bcd_state option" where
  "bcd_io_listener_accept [] i S = None"
| "bcd_io_listener_accept (a # as) i S =
     (case ac_fd a of
        Failed E_AGAIN \<Rightarrow> do {
          L \<leftarrow> bcd_io_event_remove_from_ready_list i (fst S);
          Some (L, snd S)
        }
      | Failed _ \<Rightarrow> Some S
      | Ok fd \<Rightarrow>
          if \<not> ac_prepared a then Some S
          else
            (let (event, L) = bcd_io_event_create (ac_event a) fd
                   (Client \<lparr>cl_session = zero_session, cl_env = ac_env a\<rparr>) (fst S)
             in case event of
                  None \<Rightarrow> bcd_io_listener_accept as i
                    (L, (snd S)\<lparr>w_closed := w_closed (snd S) @ [fd]\<rparr>)
                | Some j \<Rightarrow> do {
                    S \<leftarrow> bcd_handler_accept (ac_ctl a) j (L, snd S);
                    bcd_io_listener_accept as i S
                  }))"

text \<open>
  \<open>bcd_handler_fatal\<close>: one byte on the pipe from the parent asks for a trace of the process,
  without a session; in any case the monitor exits.
\<close>

definition bcd_handler_fatal ::
    "monitor_env \<Rightarrow> nat \<Rightarrow> bcd_state \<Rightarrow> (outcome \<times> bcd_state) option" where
  "bcd_handler_fatal E i S = do {
     ev \<leftarrow> io_events (fst S) i;
     case ev_payload ev of
       Pipe env \<Rightarrow>
         (case sys_read 1 (rd_events env) of
            (Failed E_AGAIN, es) \<Rightarrow> do {
              L \<leftarrow> update_event i (\<lambda>ev. ev\<lparr>ev_payload := Pipe (env\<lparr>rd_events := es\<rparr>)\<rparr>) (fst S);
              L \<leftarrow> bcd_io_event_remove_from_ready_list i L;
              Some (Returns 0, (L, snd S))
            }
          | (Ok bs, es) \<Rightarrow>
              if bs \<noteq> [] then do {
                (out, st) \<leftarrow> bcd_backtrace_process E None (w_monitor (snd S));
                Some (case out of Returns _ \<Rightarrow> Exits EXIT_SUCCESS | _ \<Rightarrow> out,
                  (fst S, (snd S)\<lparr>w_monitor := st\<rparr>))
              } else Some (Exits EXIT_SUCCESS, S)
          | (Failed _, es) \<Rightarrow> Some (Exits EXIT_SUCCESS, S))
     | _ \<Rightarrow> None
   }"

definition bcd_handler_sb :: "nat \<Rightarrow> bcd_state \<Rightarrow> (outcome \<times> bcd_state) option" where
  "bcd_handler_sb i S = do {
     err \<leftarrow> bcd_io_event_has_error i (fst S);
     if \<not> err then do {
       L \<leftarrow> bcd_io_event_remove_from_ready_list i (fst S);
       Some (Returns 0, (L, snd S))
     } else Some (Exits EXIT_FAILURE, S)
   }"

section \<open>Serving a request\<close>

text \<open>The acknowledgement is made in the packet's place.\<close>

lemma ack_packet:
  assumes "session_ok s"
  shows "\<exists>pkt. store (se_packet s) 0 (enc32 (op_value BCD_OP_OK)) \<bind> (\<lambda>p. store p 4 (enc32 0)) = Some pkt \<and>
    length pkt = 1032 \<and> take 8 pkt = packet_bytes BCD_OP_OK []"
proof -
  let ?p1 = "patch (se_packet s) 0 (enc32 (op_value BCD_OP_OK))"
  let ?p2 = "patch ?p1 4 (enc32 0)"
  have len: "length (se_packet s) = 1032"
    using assms by (simp add: session_ok_def sizeof_packet_def BCD_PACKET_LIMIT_def)
  then have "store (se_packet s) 0 (enc32 (op_value BCD_OP_OK)) = Some ?p1"
    and "store ?p1 4 (enc32 0) = Some ?p2"
    by (simp_all add: store_patch)
  moreover have "?p2 = patch (se_packet s) 0 (packet_bytes BCD_OP_OK [])"
    using patch_patch_append [of 0 "enc32 (op_value BCD_OP_OK)" "enc32 0" "se_packet s"] len
    by (simp add: packet_bytes_def)
  moreover from this have "take 8 ?p2 = packet_bytes BCD_OP_OK []"
    by (simp add: patch_def)
  ultimately show ?thesis
    using len by simp
qed

lemma bcd_write_ack_loop:
  assumes "store (se_packet (sr_session R)) 0 (enc32 (op_value BCD_OP_OK)) \<bind> (\<lambda>p. store p 4 (enc32 0)) = Some pkt"
  shows "bcd_write_ack R = Some (write_ack_loop (se_offset (sr_session R))
    (R\<lparr>sr_session := (sr_session R)\<lparr>se_packet := pkt\<rparr>\<rparr>))"
  using assms by (auto simp: bcd_write_ack_def Let_def split: bind_splits)

text \<open>A socket with room takes all of it at once; one with too little room a part.\<close>

lemma bcd_write_ack_room:
  assumes "session_ok (sr_session R)" and "se_offset (sr_session R) = 0"
    and "wr_events (sr_env R) = Wr_room k # ws" and "8 \<le> k"
  shows "\<exists>pkt. bcd_write_ack R = Some (Returns 0, None,
      R\<lparr>sr_session := (sr_session R)\<lparr>se_packet := pkt, se_offset := 0\<rparr>,
        sr_env := (sr_env R)\<lparr>wr_events := ws,
          sent := sent (sr_env R) @ packet_bytes BCD_OP_OK []\<rparr>\<rparr>) \<and> length pkt = 1032"
proof -
  obtain pkt where pkt: "store (se_packet (sr_session R)) 0 (enc32 (op_value BCD_OP_OK)) \<bind>
      (\<lambda>p. store p 4 (enc32 0)) = Some pkt" "length pkt = 1032" "take 8 pkt = packet_bytes BCD_OP_OK []"
    using ack_packet [OF assms(1)] by blast
  then show ?thesis
    using assms(2-4)
    by (intro exI [of _ pkt]) (simp add: bcd_write_ack_loop [OF pkt(1)] write_ack_loop.simps [of 0] size_sub_def
        sizeof_packet_def Let_def)
qed

lemma bcd_write_ack_part:
  assumes "session_ok (sr_session R)" and "se_offset (sr_session R) = 0"
    and "wr_events (sr_env R) = Wr_room k # Wr_again # ws" and "0 < k" and "k < 8"
  shows "\<exists>pkt. bcd_write_ack R = Some (Returns (-1), Some E_AGAIN,
      R\<lparr>sr_session := (sr_session R)\<lparr>se_packet := pkt, se_offset := k\<rparr>,
        sr_env := (sr_env R)\<lparr>wr_events := ws,
          sent := sent (sr_env R) @ take k (packet_bytes BCD_OP_OK [])\<rparr>\<rparr>) \<and> length pkt = 1032"
proof -
  obtain pkt where pkt: "store (se_packet (sr_session R)) 0 (enc32 (op_value BCD_OP_OK)) \<bind>
      (\<lambda>p. store p 4 (enc32 0)) = Some pkt" "length pkt = 1032" "take 8 pkt = packet_bytes BCD_OP_OK []"
    using ack_packet [OF assms(1)] by blast
  have "take k pkt = take k (packet_bytes BCD_OP_OK [])"
    using assms(5) pkt(3) by (metis min.absorb1 less_imp_le take_take)
  then show ?thesis
    using assms(2-5) pkt(2)
    by (intro exI [of _ pkt]) (simp add: bcd_write_ack_loop [OF pkt(1)] write_ack_loop.simps [of 0] write_ack_loop.simps [of k]
        size_sub_def sizeof_packet_def Let_def)
qed

text \<open>An event whose client the monitor can serve without waiting.\<close>

definition served :: "nat \<Rightarrow> bcd_state \<Rightarrow> bcd_client \<Rightarrow> byte list \<Rightarrow> bool" where
  "served i S c bs \<longleftrightarrow> ready_ok (fst S) \<and>
     (\<exists>ev. io_events (fst S) i = Some ev \<and> ev_payload ev = Client c) \<and>
     session_ok (cl_session c) \<and> se_state (cl_session c) = BCD_SESSION_READING \<and>
     se_offset (cl_session c) = 0 \<and> \<not> se_terminated (cl_session c) \<and>
     rd_bytes (rd_events (cl_env c)) = bs \<and> rd_live (rd_events (cl_env c)) \<and>
     rd_waits (rd_events (cl_env c)) = 0"

lemma read_served:
  assumes "served i S c (packet_bytes p d @ rest)" and "length d \<le> BCD_PACKET_LIMIT"
    and "R = \<lparr>sr_session = cl_session c, sr_monitor = st, sr_env = cl_env c\<rparr>"
  shows "\<exists>pkt es. bcd_read_request R = Some (Returns 0, None,
      R\<lparr>sr_session := (cl_session c)\<lparr>se_packet := pkt, se_offset := 0\<rparr>,
        sr_env := (cl_env c)\<lparr>rd_events := es\<rparr>\<rparr>) \<and>
    has_bytes ((cl_session c)\<lparr>se_packet := pkt, se_offset := 0\<rparr>) (packet_bytes p d) (8 + length d) \<and>
    rd_bytes es = rest \<and> rd_live es \<and> rd_waits es = 0"
proof -
  have start: "has_bytes (sr_session R) (packet_bytes p d) 0"
    using assms(1) by (simp add: assms(3) served_def has_bytes_def session_ok_def at_mem_def)
  have "\<exists>out e R'. bcd_read_request R = Some (out, e, R') \<and> read_ends p d rest 0 R out e R'"
    using assms(1) read_request_loop_ends [OF start assms(2)]
    by (simp add: assms(3) served_def bcd_read_request_def)
  then obtain out e R' where run: "bcd_read_request R = Some (out, e, R')"
      "read_ends p d rest 0 R out e R'" by blast
  have w: "rd_waits (rd_events (sr_env R)) = 0"
    using assms(1,3) by (simp add: served_def)
  obtain k pkt where "out = Returns 0" "e = None"
      "sr_session R' = (cl_session c)\<lparr>se_packet := pkt, se_offset := k\<rparr>" "k = 0"
      "sr_monitor R' = st" "sr_env R' = (cl_env c)\<lparr>rd_events := rd_events (sr_env R')\<rparr>"
      "has_bytes (sr_session R') (packet_bytes p d) (8 + length d)"
      "rd_bytes (rd_events (sr_env R')) = rest" "rd_live (rd_events (sr_env R'))"
      "rd_waits (rd_events (sr_env R')) = 0"
    using run(2) w assms(3) unfolding read_ends_def Let_def by auto
  then show ?thesis
    using run(1) assms(3)
    by (intro exI [of _ pkt] exI [of _ "rd_events (sr_env R')"])
      (cases R', cases "sr_session R'", auto)
qed

lemma update_event_at:
  assumes "ready_ok L" and "io_events L i = Some ev" and "\<And>ev. ev_in_ready (f ev) = ev_in_ready ev"
  shows "\<exists>L'. update_event i f L = Some L' \<and> ready_ok L' \<and> io_events L' i = Some (f ev)"
proof -
  have "update_event i f L = Some (L\<lparr>io_events := (io_events L)(i \<mapsto> f ev)\<rparr>)"
    by (simp add: update_event_def assms(2))
  with update_event_ready [OF assms(1) this assms(3)] show ?thesis by simp
qed

lemma update_client_ready:
  assumes "ready_ok L" and "io_events L i = Some ev"
  shows "\<exists>L'. update_event i (\<lambda>ev. ev\<lparr>ev_payload := x\<rparr>) L = Some L' \<and> ready_ok L' \<and>
    io_events L' i = Some (ev\<lparr>ev_payload := x\<rparr>)"
  using assms by (intro update_event_at) simp_all

text \<open>
  A complete request that is performed: the handler goes on to write the acknowledgement, with
  the client's bytes consumed and the state the request leaves. A request may set the thread
  of its session.
\<close>

lemma handler_performs:
  assumes "served i S c (packet_bytes p d @ rest)" and "length d \<le> BCD_PACKET_LIMIT"
    and perform: "\<And>s. has_bytes s (packet_bytes p d) (8 + length d) \<Longrightarrow>
      se_tid s = se_tid (cl_session c) \<Longrightarrow>
      bcd_perform_request E s (w_monitor (snd S)) = Some (Returns r, s\<lparr>se_tid := t\<rparr>, st')"
  shows "\<exists>R L ev. bcd_handler_request_response E i S = write_response i R (L, (snd S)\<lparr>w_monitor := st'\<rparr>) \<and>
    ready_ok L \<and> io_events L i = Some ev \<and> session_ok (sr_session R) \<and>
    se_offset (sr_session R) = 0 \<and> se_state (sr_session R) = BCD_SESSION_READING \<and>
    \<not> se_terminated (sr_session R) \<and> se_tid (sr_session R) = t \<and> sr_monitor R = st' \<and>
    wr_events (sr_env R) = wr_events (cl_env c) \<and> sent (sr_env R) = sent (cl_env c) \<and>
    rd_bytes (rd_events (sr_env R)) = rest \<and> rd_live (rd_events (sr_env R)) \<and>
    rd_waits (rd_events (sr_env R)) = 0"
proof -
  obtain L w where S: "S = (L, w)" by (cases S)
  obtain ev where ev: "io_events L i = Some ev" "ev_payload ev = Client c" and rok: "ready_ok L"
    using assms(1) by (auto simp: served_def S)
  define R where "R = \<lparr>sr_session = cl_session c, sr_monitor = w_monitor w, sr_env = cl_env c\<rparr>"
  obtain pkt es where read: "bcd_read_request R = Some (Returns 0, None,
        R\<lparr>sr_session := (cl_session c)\<lparr>se_packet := pkt, se_offset := 0\<rparr>,
          sr_env := (cl_env c)\<lparr>rd_events := es\<rparr>\<rparr>)"
      and got: "has_bytes ((cl_session c)\<lparr>se_packet := pkt, se_offset := 0\<rparr>) (packet_bytes p d) (8 + length d)"
      and rest: "rd_bytes es = rest" "rd_live es" "rd_waits es = 0"
    using read_served [OF assms(1,2) R_def] by blast
  let ?s = "(cl_session c)\<lparr>se_packet := pkt, se_offset := 0\<rparr>"
  let ?t = "?s\<lparr>se_tid := t\<rparr>"
  let ?e = "(cl_env c)\<lparr>rd_events := es\<rparr>"
  have perf: "bcd_perform_request E ?s (w_monitor w) = Some (Returns r, ?t, st')"
    using perform [OF got] by (simp add: S)
  obtain L1 where L1: "update_event i (\<lambda>ev. ev\<lparr>ev_payload := Client \<lparr>cl_session = ?s, cl_env = ?e\<rparr>\<rparr>) L
        = Some L1" "ready_ok L1"
      "io_events L1 i = Some (ev\<lparr>ev_payload := Client \<lparr>cl_session = ?s, cl_env = ?e\<rparr>\<rparr>)"
    using update_client_ready [OF rok ev(1)] by blast
  obtain L2 where L2: "update_event i (\<lambda>ev. ev\<lparr>ev_payload := Client \<lparr>cl_session = ?t, cl_env = ?e\<rparr>\<rparr>) L1
        = Some L2" "ready_ok L2"
      "io_events L2 i = Some (ev\<lparr>ev_payload := Client \<lparr>cl_session = ?t, cl_env = ?e\<rparr>\<rparr>)"
    using update_client_ready [OF L1(2,3)] by auto
  let ?R2 = "\<lparr>sr_session = ?t, sr_monitor = st', sr_env = ?e\<rparr>"
  have state: "se_state (cl_session c) = BCD_SESSION_READING" "\<not> se_terminated (cl_session c)"
    using assms(1) by (simp_all add: served_def)
  have "bcd_handler_request_response E i S = write_response i ?R2 (L2, w\<lparr>w_monitor := st'\<rparr>)"
    using ev state read perf L1(1) L2(1)
    by (simp add: bcd_handler_request_response_def S R_def store_run_def)
  moreover have "session_ok ?t"
    using got by (simp add: has_bytes_def session_ok_def)
  ultimately show ?thesis
    using L2(2,3) state rest
    by (intro exI [of _ ?R2] exI [of _ L2] exI) (auto simp: S)
qed

text \<open>
  When the socket has room the acknowledgement is sent, and the client's next request can be
  served.
\<close>

lemma handler_serves_tid:
  assumes "served i S c (packet_bytes p d @ rest)" and "length d \<le> BCD_PACKET_LIMIT"
    and "wr_events (cl_env c) = Wr_room k # ws" and "8 \<le> k"
    and perform: "\<And>s. has_bytes s (packet_bytes p d) (8 + length d) \<Longrightarrow>
      se_tid s = se_tid (cl_session c) \<Longrightarrow>
      bcd_perform_request E s (w_monitor (snd S)) = Some (Returns r, s\<lparr>se_tid := t\<rparr>, st')"
  shows "\<exists>S' c'. bcd_handler_request_response E i S = Some (Returns 0, S') \<and>
    w_monitor (snd S') = st' \<and> served i S' c' rest \<and>
    sent (cl_env c') = sent (cl_env c) @ packet_bytes BCD_OP_OK [] \<and>
    wr_events (cl_env c') = ws \<and> se_tid (cl_session c') = t"
proof -
  obtain R L ev where run: "bcd_handler_request_response E i S =
        write_response i R (L, (snd S)\<lparr>w_monitor := st'\<rparr>)"
      and L: "ready_ok L" "io_events L i = Some ev"
      and s: "session_ok (sr_session R)" "se_offset (sr_session R) = 0"
        "se_state (sr_session R) = BCD_SESSION_READING" "\<not> se_terminated (sr_session R)"
        "se_tid (sr_session R) = t"
      and e: "sr_monitor R = st'" "wr_events (sr_env R) = wr_events (cl_env c)"
        "sent (sr_env R) = sent (cl_env c)" "rd_bytes (rd_events (sr_env R)) = rest"
        "rd_live (rd_events (sr_env R))" "rd_waits (rd_events (sr_env R)) = 0"
    using handler_performs [OF assms(1,2) perform] by blast
  let ?w = "(snd S)\<lparr>w_monitor := st'\<rparr>"
  obtain pkt where ack: "bcd_write_ack R = Some (Returns 0, None,
        R\<lparr>sr_session := (sr_session R)\<lparr>se_packet := pkt, se_offset := 0\<rparr>,
          sr_env := (sr_env R)\<lparr>wr_events := ws, sent := sent (sr_env R) @ packet_bytes BCD_OP_OK []\<rparr>\<rparr>)"
      and len: "length pkt = 1032"
    using bcd_write_ack_room [OF s(1,2), of k ws] e(2) assms(3,4) by auto
  let ?c = "\<lparr>cl_session = (sr_session R)\<lparr>se_packet := pkt, se_offset := 0\<rparr>,
    cl_env = (sr_env R)\<lparr>wr_events := ws, sent := sent (sr_env R) @ packet_bytes BCD_OP_OK []\<rparr>\<rparr>"
  obtain L3 where L3: "update_event i (\<lambda>ev. ev\<lparr>ev_payload := Client ?c\<rparr>) L = Some L3" "ready_ok L3"
      "io_events L3 i = Some (ev\<lparr>ev_payload := Client ?c\<rparr>)"
    using update_client_ready [OF L] by auto
  have "bcd_handler_request_response E i S = Some (Returns 0, (L3, ?w))"
    using run L3(1) ack s(4) e(1)
    by (simp add: store_run_def write_response_def finish_client_def)
  moreover have "served i (L3, ?w) ?c rest"
    using L3(2,3) s e len
    by (simp add: served_def session_ok_def sizeof_packet_def BCD_PACKET_LIMIT_def)
  ultimately show ?thesis
    using s e by (intro exI [of _ "(L3, ?w)"] exI [of _ ?c]) simp
qed

lemma handler_serves:
  assumes "served i S c (packet_bytes p d @ rest)" and "length d \<le> BCD_PACKET_LIMIT"
    and "wr_events (cl_env c) = Wr_room k # ws" and "8 \<le> k"
    and perform: "\<And>s. has_bytes s (packet_bytes p d) (8 + length d) \<Longrightarrow>
      bcd_perform_request E s (w_monitor (snd S)) = Some (Returns r, s, st')"
  shows "\<exists>S' c'. bcd_handler_request_response E i S = Some (Returns 0, S') \<and>
    w_monitor (snd S') = st' \<and> served i S' c' rest \<and>
    sent (cl_env c') = sent (cl_env c) @ packet_bytes BCD_OP_OK [] \<and>
    wr_events (cl_env c') = ws \<and> se_tid (cl_session c') = se_tid (cl_session c)"
proof (rule handler_serves_tid [OF assms(1-4)])
  fix s
  assume "has_bytes s (packet_bytes p d) (8 + length d)" and "se_tid s = se_tid (cl_session c)"
  then show "bcd_perform_request E s (w_monitor (snd S)) =
      Some (Returns r, s\<lparr>se_tid := se_tid (cl_session c)\<rparr>, st')"
    using perform [of s] by (cases s) simp
qed

text \<open>
  When the socket takes only a part, the event leaves the queue with the count of the bytes
  written, and the session is in its reading state as before.
\<close>

lemma handler_serves_part:
  assumes "served i S c (packet_bytes p d @ rest)" and "length d \<le> BCD_PACKET_LIMIT"
    and "wr_events (cl_env c) = Wr_room k # Wr_again # ws" and "0 < k" and "k < 8"
    and perform: "\<And>s. has_bytes s (packet_bytes p d) (8 + length d) \<Longrightarrow>
      bcd_perform_request E s (w_monitor (snd S)) = Some (Returns r, s, st')"
  shows "\<exists>L ev c'. bcd_handler_request_response E i S =
      Some (Returns 0, (L, (snd S)\<lparr>w_monitor := st'\<rparr>)) \<and> ready_ok L \<and>
    io_events L i = Some ev \<and> ev_payload ev = Client c' \<and> i \<notin> set (readyevents L) \<and>
    session_ok (cl_session c') \<and> se_state (cl_session c') = BCD_SESSION_READING \<and>
    se_offset (cl_session c') = k \<and> wr_events (cl_env c') = ws \<and>
    sent (cl_env c') = sent (cl_env c) @ take k (packet_bytes BCD_OP_OK []) \<and>
    rd_bytes (rd_events (cl_env c')) = rest"
proof -
  let ?t = "se_tid (cl_session c)" and ?w = "(snd S)\<lparr>w_monitor := st'\<rparr>"
  have perf: "bcd_perform_request E s (w_monitor (snd S)) = Some (Returns r, s\<lparr>se_tid := ?t\<rparr>, st')"
    if "has_bytes s (packet_bytes p d) (8 + length d)" and "se_tid s = ?t" for s
    using that perform [of s] by (cases s) simp
  obtain R L ev where run: "bcd_handler_request_response E i S = write_response i R (L, ?w)"
      and L: "ready_ok L" "io_events L i = Some ev"
      and s: "session_ok (sr_session R)" "se_offset (sr_session R) = 0"
        "se_state (sr_session R) = BCD_SESSION_READING"
      and e: "sr_monitor R = st'" "wr_events (sr_env R) = wr_events (cl_env c)"
        "sent (sr_env R) = sent (cl_env c)" "rd_bytes (rd_events (sr_env R)) = rest"
    using handler_performs [OF assms(1,2) perf] by blast
  obtain pkt where ack: "bcd_write_ack R = Some (Returns (-1), Some E_AGAIN,
        R\<lparr>sr_session := (sr_session R)\<lparr>se_packet := pkt, se_offset := k\<rparr>,
          sr_env := (sr_env R)\<lparr>wr_events := ws,
            sent := sent (sr_env R) @ take k (packet_bytes BCD_OP_OK [])\<rparr>\<rparr>)"
      and len: "length pkt = 1032"
    using bcd_write_ack_part [OF s(1,2), of k ws] e(2) assms(3-5) by auto
  let ?c = "\<lparr>cl_session = (sr_session R)\<lparr>se_packet := pkt, se_offset := k\<rparr>,
    cl_env = (sr_env R)\<lparr>wr_events := ws, sent := sent (sr_env R) @ take k (packet_bytes BCD_OP_OK [])\<rparr>\<rparr>"
  obtain L1 where L1: "update_event i (\<lambda>ev. ev\<lparr>ev_payload := Client ?c\<rparr>) L = Some L1" "ready_ok L1"
      "io_events L1 i = Some (ev\<lparr>ev_payload := Client ?c\<rparr>)"
    using update_client_ready [OF L] by auto
  obtain L2 ev2 where L2: "bcd_io_event_unset i BCD_IO_EVENT_WRITE L1 = Some L2" "ready_ok L2"
      "io_events L2 i = Some ev2" "ev_payload ev2 = Client ?c"
    using update_event_at [OF L1(2,3), of "\<lambda>ev. ev\<lparr>ev_mask := and (ev_mask ev) (not BCD_IO_EVENT_WRITE)\<rparr>"]
    by (auto simp: bcd_io_event_unset_def)
  obtain L3 where L3: "bcd_io_event_remove_from_ready_list i L2 = Some L3" "ready_ok L3"
      "i \<notin> set (readyevents L3)" "io_events L3 = (io_events L2)(i \<mapsto> ev2\<lparr>ev_in_ready := False\<rparr>)"
    using remove_from_ready [OF L2(2,3)] by blast
  have "bcd_handler_request_response E i S = Some (Returns 0, (L3, ?w))"
    using run L1(1) L2(1) L3(1) ack e(1)
    by (simp add: store_run_def write_response_def wait_for_edge_def)
  moreover have "session_ok (cl_session ?c)"
    using s(1) len by (simp add: session_ok_def sizeof_packet_def BCD_PACKET_LIMIT_def)
  ultimately show ?thesis
    using L2(4) L3 s e
    by (intro exI [of _ L3] exI [of _ "ev2\<lparr>ev_in_ready := False\<rparr>"] exI [of _ ?c]) simp
qed

end
