(* ===== verification/Bcd_Client_Handler.thy ===== *)
theory Bcd_Client_Handler
  imports Bcd_Handler
begin

text \<open>
  The invariant of a client's session over all requests, and what its handler can touch: the
  lemmas the event loop rests on.
\<close>

section \<open>The session between two calls\<close>

text \<open>
  The packet lies in its instance, and once more than a header has arrived its length is one
  the monitor accepts and the offset is inside the packet.
\<close>

definition session_inv :: "bcd_session \<Rightarrow> bool" where
  "session_inv s \<longleftrightarrow> session_ok s \<and>
     (se_offset s \<le> 8 \<or>
      (\<exists>n. packet_length (se_packet s) = Some n \<and> unat n \<le> 1024 \<and> se_offset s < 8 + unat n))"

text \<open>The variables of the reading loop agree with what it has read.\<close>

definition reading_at :: "nat \<Rightarrow> nat \<Rightarrow> bcd_session \<Rightarrow> bool" where
  "reading_at target ac s \<longleftrightarrow> session_inv s \<and>
     (ac \<le> 8 \<and> target = 0 \<and> se_offset s \<le> 8 \<or>
      8 \<le> ac \<and> ac < 8 + target \<and> target \<le> 1024 \<and>
        map_option unat (packet_length (se_packet s)) = Some target)"

text \<open>What a read leaves: a session that waits, one that has ended, or a complete packet.\<close>

definition read_leaves :: "session_run \<Rightarrow> outcome \<Rightarrow> io_errno option \<Rightarrow> session_run \<Rightarrow> bool" where
  "read_leaves R out e R' \<longleftrightarrow>
     session_inv (sr_session R') \<and> same_lists (sr_monitor R) (sr_monitor R') \<and>
     se_state (sr_session R') = se_state (sr_session R) \<and>
     (case out of
        Returns r \<Rightarrow> r = -1 \<and> e = Some E_AGAIN \<or> se_terminated (sr_session R') \<or>
          packet_ok (sr_session R') \<and> se_offset (sr_session R') = 0
      | _ \<Rightarrow> True)"

lemma same_lists_fatal [simp]: "same_lists a (fatal_error s m c st) = same_lists a st"
  by (simp add: fatal_error_def)

lemma session_inv_length: "session_inv s \<Longrightarrow> length (se_packet s) = 1032"
  by (simp add: session_inv_def session_ok_def sizeof_packet_def BCD_PACKET_LIMIT_def)

lemma sys_read_zero: "\<exists>es'. sys_read 0 es = (Ok [], es')"
  by (induction es) (metis sys_read.simps(1), rename_tac e es, case_tac e, auto)

lemma session_inv_offset:
  assumes "session_inv s" and "reading_at target ac s"
  shows "session_inv (s\<lparr>se_offset := ac\<rparr>)"
  using assms by (auto simp: session_inv_def session_ok_def reading_at_def)

lemma session_inv_zero: "session_ok s \<Longrightarrow> session_inv (s\<lparr>se_offset := 0\<rparr>)"
  by (simp add: session_inv_def session_ok_def)

text \<open>Storing what was read keeps the session and the length behind the header.\<close>

lemma reading_store:
  assumes "reading_at target ac s" and "bs \<noteq> []" and "length bs \<le> 8 + target - ac"
  shows "\<exists>pkt. store (se_packet s) ac bs = Some pkt \<and> session_inv (s\<lparr>se_packet := pkt\<rparr>) \<and>
    (8 \<le> ac \<longrightarrow> packet_length pkt = packet_length (se_packet s)) \<and> length pkt = 1032"
proof -
  have inv: "session_inv s" and len: "length (se_packet s) = 1032"
    using assms(1) session_inv_length by (auto simp: reading_at_def)
  have fits: "ac + length bs \<le> 1032"
    using assms by (cases bs) (auto simp: reading_at_def)
  let ?pkt = "patch (se_packet s) ac bs"
  have st: "store (se_packet s) ac bs = Some ?pkt" and lp: "length ?pkt = 1032"
    using fits len by (simp_all add: store_patch)
  have same: "packet_length ?pkt = packet_length (se_packet s)" if "8 \<le> ac"
    unfolding packet_length_def using that fits len by (intro load32_patch) simp_all
  have "session_inv (s\<lparr>se_packet := ?pkt\<rparr>)"
  proof (cases "8 \<le> ac")
    case True
    with inv same lp show ?thesis
      by (simp add: session_inv_def session_ok_def sizeof_packet_def BCD_PACKET_LIMIT_def)
  next
    case False
    then have "se_offset s \<le> 8"
      using assms(1) by (auto simp: reading_at_def)
    with lp show ?thesis
      by (simp add: session_inv_def session_ok_def sizeof_packet_def BCD_PACKET_LIMIT_def)
  qed
  with st lp same show ?thesis by blast
qed

lemma packet_length_exists: "length pkt = 1032 \<Longrightarrow> \<exists>n. packet_length pkt = Some n"
  unfolding packet_length_def by (intro load_word_exists) simp

lemma read_leaves_update [simp]:
  "read_leaves (R\<lparr>sr_env := x\<rparr>) = read_leaves R"
  "read_leaves (R\<lparr>sr_session := (sr_session R)\<lparr>se_packet := pkt\<rparr>\<rparr>) = read_leaves R"
  by (simp_all add: read_leaves_def fun_eq_iff)

lemma read_request_loop_leaves:
  assumes "reading_at target ac (sr_session R)"
  shows "\<exists>out e R'. read_request_loop target ac R = Some (out, e, R') \<and> read_leaves R out e R'"
  using assms
proof (induction target ac R rule: read_request_loop.induct)
  case (1 target ac R)
  let ?s = "sr_session R" and ?n = "size_sub (sizeof_packet + target) ac"
  have inv: "session_inv ?s"
    using "1.prems" by (simp add: reading_at_def)
  have n: "?n = 8 + target - ac"
    using "1.prems" by (auto simp: reading_at_def size_sub_def sizeof_packet_def)
  obtain res es where read: "sys_read ?n (rd_events (sr_env R)) = (res, es)"
    by (cases "sys_read ?n (rd_events (sr_env R))")
  note step = read_request_loop.simps [of target ac R, unfolded Let_def read prod.case]
  show ?case
  proof (cases res)
    case (Failed er)
    show ?thesis
    proof (cases er)
      case E_INTR
      let ?R = "R\<lparr>sr_env := (sr_env R)\<lparr>rd_events := es\<rparr>\<rparr>"
      have "?n \<noteq> 0"
        using read Failed sys_read_zero by (metis fst_conv io_result.distinct(1))
      then have more: "ac < sizeof_packet + target"
        unfolding n by (simp add: sizeof_packet_def)
      have "\<exists>out e R'. read_request_loop target ac ?R = Some (out, e, R') \<and> read_leaves ?R out e R'"
        using "1.IH"(2) [OF refl read [symmetric] Failed E_INTR refl more] "1.prems" by simp
      then show ?thesis
        using Failed E_INTR more by (auto simp: step)
    next
      case E_AGAIN
      then show ?thesis
        using Failed session_inv_offset [OF inv "1.prems"] by (simp add: step read_leaves_def)
    next
      case (E_OTHER c)
      then show ?thesis
        using Failed inv by (simp add: step read_leaves_def)
    qed
  next
    case (Ok bs)
    show ?thesis
    proof (cases "bs = []")
      case True
      then show ?thesis
        using Ok inv by (simp add: step read_leaves_def)
    next
      case ne: False
      have "length bs \<le> 8 + target - ac"
        using sys_read_bytes(1) [OF read [unfolded Ok]] n by auto
      from reading_store [OF "1.prems" ne this] obtain pkt
        where pkt: "store (se_packet ?s) ac bs = Some pkt" "session_inv (?s\<lparr>se_packet := pkt\<rparr>)"
          "8 \<le> ac \<longrightarrow> packet_length pkt = packet_length (se_packet ?s)" "length pkt = 1032"
        by blast
      obtain len where len: "packet_length pkt = Some len"
        using packet_length_exists [OF pkt(4)] by blast
      let ?ac = "ac + length bs" and ?t = "if 8 \<le> ac + length bs then unat len else 0"
      let ?R = "R\<lparr>sr_session := ?s\<lparr>se_packet := pkt\<rparr>, sr_env := (sr_env R)\<lparr>rd_events := es\<rparr>\<rparr>"
      have t: "(if sizeof_packet \<le> ?ac then map_option unat (packet_length pkt) else Some target) = Some ?t"
        using "1.prems" len by (auto simp: sizeof_packet_def reading_at_def)
      note step' = step [unfolded Ok, simplified ne pkt(1) if_False io_result.case option.case, unfolded t
        option.case]
      show ?thesis
      proof (cases "sizeof_packet \<le> ?ac \<and> BCD_PACKET_LIMIT < ?t")
        case True
        then show ?thesis
          using pkt(2) by (simp add: step' read_leaves_def)
      next
        case small: False
        show ?thesis
        proof (cases "?ac < sizeof_packet + ?t")
          case True
          have "reading_at ?t ?ac (sr_session ?R)"
            using True small pkt(2,3) len "1.prems"
            by (auto simp: reading_at_def sizeof_packet_def BCD_PACKET_LIMIT_def split: if_splits)
          then have "\<exists>out e R'. read_request_loop ?t ?ac ?R = Some (out, e, R') \<and> read_leaves ?R out e R'"
            by (rule "1.IH"(1) [OF refl read [symmetric] Ok ne pkt(1) refl refl refl t small True])
          then show ?thesis
            using small True by (auto simp: step')
        next
          case False
          then have "8 \<le> ?ac" "unat len \<le> 1024"
            using small by (auto simp: sizeof_packet_def BCD_PACKET_LIMIT_def split: if_splits)
          then have "packet_ok (?s\<lparr>se_packet := pkt, se_offset := 0\<rparr>)"
            using pkt(4) len
            by (simp add: packet_ok_def session_ok_def sizeof_packet_def BCD_PACKET_LIMIT_def)
          then show ?thesis
            using small False session_inv_zero [of "?s\<lparr>se_packet := pkt\<rparr>"] pkt(2)
            by (simp add: step' read_leaves_def session_inv_def)
        qed
      qed
    qed
  qed
qed

lemma bcd_read_request_leaves:
  assumes "session_inv (sr_session R)"
  shows "\<exists>out e R'. bcd_read_request R = Some (out, e, R') \<and> read_leaves R out e R'"
proof -
  let ?s = "sr_session R"
  show ?thesis
  proof (cases "sizeof_packet < se_offset ?s")
    case True
    then obtain n where n: "packet_length (se_packet ?s) = Some n" "unat n \<le> 1024" "se_offset ?s < 8 + unat n"
      using assms by (auto simp: session_inv_def sizeof_packet_def)
    have "reading_at (unat n) (se_offset ?s) ?s"
      using True n assms by (simp add: reading_at_def sizeof_packet_def)
    from read_request_loop_leaves [OF this] True n show ?thesis
      by (simp add: bcd_read_request_def)
  next
    case False
    then have "reading_at 0 (se_offset ?s) ?s"
      using assms by (simp add: reading_at_def sizeof_packet_def)
    from read_request_loop_leaves [OF this] False show ?thesis
      by (simp add: bcd_read_request_def)
  qed
qed

text \<open>What writing an acknowledgement leaves.\<close>

definition ack_leaves :: "session_run \<Rightarrow> session_run \<Rightarrow> bool" where
  "ack_leaves R R' \<longleftrightarrow> session_inv (sr_session R') \<and> same_lists (sr_monitor R) (sr_monitor R') \<and>
     se_state (sr_session R') = se_state (sr_session R)"

lemma write_ack_loop_leaves:
  assumes "session_ok (sr_session R)" and "ac \<le> 8" and "se_offset (sr_session R) \<le> 8"
    and "write_ack_loop ac R = (out, e, R')"
  shows "ack_leaves R R'"
  using assms
proof (induction ac R rule: write_ack_loop.induct)
  case (1 ac R)
  let ?s = "sr_session R" and ?n = "size_sub sizeof_packet ac"
  have n: "?n = 8 - ac"
    using "1.prems"(2) by (simp add: size_sub_def sizeof_packet_def)
  obtain res es where wr: "sys_write ?n (wr_events (sr_env R)) = (res, es)"
    by (cases "sys_write ?n (wr_events (sr_env R))")
  note step = "1.prems"(4) [unfolded write_ack_loop.simps [of ac R] Let_def wr prod.case]
  have ok: "session_inv ?s" "session_inv (?s\<lparr>se_offset := 0\<rparr>)" "session_inv (?s\<lparr>se_offset := ac\<rparr>)"
    using "1.prems"(1-3) by (simp_all add: session_inv_def session_ok_def)
  show ?case
  proof (cases res)
    case (Failed er)
    show ?thesis
    proof (cases er)
      case E_INTR
      let ?R = "R\<lparr>sr_env := (sr_env R)\<lparr>wr_events := es\<rparr>\<rparr>"
      show ?thesis
      proof (cases "ac < sizeof_packet")
        case True
        have "write_ack_loop ac ?R = (out, e, R')"
          using step Failed E_INTR True by simp
        with "1.IH"(2) [OF refl wr [symmetric] Failed E_INTR refl True] "1.prems"(1-3)
        have "ack_leaves ?R R'" by simp
        then show ?thesis by (simp add: ack_leaves_def)
      next
        case False
        then show ?thesis
          using step Failed E_INTR ok by (auto simp: ack_leaves_def)
      qed
    next
      case E_AGAIN
      then show ?thesis
        using step Failed ok by (auto simp: ack_leaves_def)
    next
      case (E_OTHER c)
      then show ?thesis
        using step Failed ok by (auto simp: ack_leaves_def)
    qed
  next
    case (Ok r)
    let ?R = "R\<lparr>sr_env := (sr_env R)\<lparr>wr_events := es, sent := sent (sr_env R) @ take r (drop ac (se_packet ?s))\<rparr>\<rparr>"
    show ?thesis
    proof (cases "r \<noteq> 0 \<and> ac + r < sizeof_packet")
      case True
      then have go: "r \<noteq> 0" "ac + r < sizeof_packet" by simp_all
      have "write_ack_loop (ac + r) ?R = (out, e, R')"
        using step Ok go by simp
      with "1.IH"(1) [OF refl wr [symmetric] Ok go(1) refl go(2)] "1.prems"(1-3) go
      have "ack_leaves ?R R'" by (simp add: sizeof_packet_def)
      then show ?thesis by (simp add: ack_leaves_def)
    next
      case False
      then show ?thesis
        using step Ok ok by (auto simp: ack_leaves_def split: if_splits)
    qed
  qed
qed

lemma bcd_write_ack_leaves:
  assumes "session_ok (sr_session R)" and "se_offset (sr_session R) \<le> 8"
  shows "\<exists>out e R'. bcd_write_ack R = Some (out, e, R') \<and> ack_leaves R R'"
proof -
  let ?s = "sr_session R"
  have len: "length (se_packet ?s) = 1032"
    using assms(1) by (simp add: session_ok_def sizeof_packet_def BCD_PACKET_LIMIT_def)
  let ?p1 = "patch (se_packet ?s) 0 (enc32 (op_value BCD_OP_OK))"
  let ?p2 = "patch ?p1 4 (enc32 0)"
  let ?R = "R\<lparr>sr_session := ?s\<lparr>se_packet := ?p2\<rparr>\<rparr>"
  have s1: "store (se_packet ?s) 0 (enc32 (op_value BCD_OP_OK)) = Some ?p1"
    and s2: "store ?p1 4 (enc32 0) = Some ?p2"
    using len by (simp_all add: store_patch)
  obtain out e R' where run: "write_ack_loop (se_offset ?s) ?R = (out, e, R')"
    by (cases "write_ack_loop (se_offset ?s) ?R")
  have "ack_leaves ?R R'"
    using run assms len
    by (intro write_ack_loop_leaves [where ac = "se_offset ?s"])
      (simp_all add: session_ok_def sizeof_packet_def BCD_PACKET_LIMIT_def)
  then have "ack_leaves R R'"
    by (simp add: ack_leaves_def)
  with run s1 s2 show ?thesis
    by (simp add: bcd_write_ack_def Let_def)
qed


section \<open>What a client's handler touches\<close>

definition monitor_within :: "nat \<Rightarrow> bcd_monitor \<Rightarrow> bool" where
  "monitor_within n st \<longleftrightarrow> monitor_ok st \<and> length (kv_list st) \<le> n \<and> length (arg_list st) \<le> n"

lemma monitor_within_same: "same_lists st st' \<Longrightarrow> monitor_within n st' = monitor_within n st"
  by (simp add: monitor_within_def same_lists_ok)

definition client_ok :: "io_payload \<Rightarrow> bool" where
  "client_ok p \<longleftrightarrow> (case p of
     Client c \<Rightarrow> session_inv (cl_session c) \<and> se_state (cl_session c) = BCD_SESSION_READING
   | _ \<Rightarrow> True)"

definition only_event :: "nat \<Rightarrow> io_payload io_loop \<Rightarrow> io_payload io_loop \<Rightarrow> bool" where
  "only_event i L L' \<longleftrightarrow> ready_ok L \<and> ready_ok L' \<and>
     (readyevents L' = readyevents L \<or> readyevents L' = remove1 i (readyevents L)) \<and>
     (\<forall>j. j \<noteq> i \<longrightarrow> io_events L' j = io_events L j)"

definition client_at :: "nat \<Rightarrow> io_payload io_loop \<Rightarrow> bool" where
  "client_at i L \<longleftrightarrow> (\<exists>ev c. io_events L i = Some ev \<and> ev_payload ev = Client c \<and> client_ok (Client c))"

lemma only_event_refl [simp]: "only_event i L L = ready_ok L"
  by (simp add: only_event_def)

lemma only_event_trans:
  "only_event i L L' \<Longrightarrow> only_event i L' L'' \<Longrightarrow> only_event i L L''"
  unfolding only_event_def by (elim conjE disjE) (simp_all add: ready_ok_def remove1_idem)

lemma only_event_update:
  assumes "ready_ok L" and "update_event i f L = Some L'" and "\<And>ev. ev_in_ready (f ev) = ev_in_ready ev"
  shows "only_event i L L'"
  using update_event_ready [OF assms] assms(1,2)
  by (auto simp: only_event_def update_event_def split: option.splits)

lemma store_run_at:
  assumes "ready_ok (fst S)" and "io_events (fst S) i = Some ev"
    and "session_inv (sr_session R)" and "se_state (sr_session R) = BCD_SESSION_READING"
  shows "\<exists>S'. store_run i R S = Some S' \<and> only_event i (fst S) (fst S') \<and> client_at i (fst S') \<and>
    w_monitor (snd S') = sr_monitor R"
proof -
  let ?c = "Client \<lparr>cl_session = sr_session R, cl_env = sr_env R\<rparr>"
  obtain L' where L': "update_event i (\<lambda>ev. ev\<lparr>ev_payload := ?c\<rparr>) (fst S) = Some L'"
      "io_events L' i = Some (ev\<lparr>ev_payload := ?c\<rparr>)"
    using update_client_ready [OF assms(1,2)] by blast
  have "only_event i (fst S) L'"
    by (rule only_event_update [OF assms(1) L'(1)]) simp
  then show ?thesis
    using L' assms(3,4) by (simp add: store_run_def client_at_def client_ok_def)
qed

lemma remove_ready_at:
  assumes "ready_ok L" and "client_at i L"
  shows "\<exists>L'. bcd_io_event_remove_from_ready_list i L = Some L' \<and> only_event i L L' \<and> client_at i L' \<and>
    i \<notin> set (readyevents L')"
proof -
  obtain ev c where ev: "io_events L i = Some ev" "ev_payload ev = Client c" "client_ok (Client c)"
    using assms(2) by (auto simp: client_at_def)
  from remove_from_ready [OF assms(1) ev(1)] ev(2,3) assms(1) show ?thesis
    by (auto simp: only_event_def client_at_def)
qed

lemma wait_for_edge_at:
  assumes "ready_ok (fst S)" and "client_at i (fst S)"
  shows "\<exists>L'. wait_for_edge i msk S = Some (Returns 0, (L', snd S)) \<and> only_event i (fst S) L' \<and>
    client_at i L'"
proof -
  obtain ev c where ev: "io_events (fst S) i = Some ev" "ev_payload ev = Client c" "client_ok (Client c)"
    using assms(2) by (auto simp: client_at_def)
  let ?f = "\<lambda>ev :: io_payload bcd_io_event. ev\<lparr>ev_mask := and (ev_mask ev) (not msk)\<rparr>"
  obtain L1 where L1: "update_event i ?f (fst S) = Some L1" "io_events L1 i = Some (?f ev)"
    using update_event_at [OF assms(1) ev(1), of ?f] by auto
  have 1: "only_event i (fst S) L1"
    by (rule only_event_update [OF assms(1) L1(1)]) simp
  have "client_at i L1"
    using L1(2) ev by (simp add: client_at_def)
  then obtain L2 where "bcd_io_event_remove_from_ready_list i L1 = Some L2" "only_event i L1 L2" "client_at i L2"
    using remove_ready_at [of L1 i] 1 by (auto simp: only_event_def)
  then show ?thesis
    using 1 L1(1) by (auto simp: wait_for_edge_def bcd_io_event_unset_def intro: only_event_trans)
qed

lemma finish_client_at:
  assumes "ready_ok (fst S)" and "client_at i (fst S)"
  shows "\<exists>S'. finish_client i R S = Some (Returns 0, S') \<and> only_event i (fst S) (fst S') \<and>
    (client_at i (fst S') \<or> io_events (fst S') i = None) \<and> w_monitor (snd S') = w_monitor (snd S)"
proof (cases "se_terminated (sr_session R)")
  case True
  obtain ev where ev: "io_events (fst S) i = Some ev"
    using assms(2) by (auto simp: client_at_def)
  obtain L1 where L1: "bcd_io_event_remove_from_ready_list i (fst S) = Some L1"
      "only_event i (fst S) L1" "client_at i L1" "i \<notin> set (readyevents L1)"
    using remove_ready_at [OF assms] by blast
  obtain L2 where L2: "bcd_io_event_remove_from_ready_list i L1 = Some L2"
      "only_event i L1 L2" "client_at i L2" "i \<notin> set (readyevents L2)"
    using remove_ready_at [of L1 i] L1(2,3) by (auto simp: only_event_def)
  have "only_event i (fst S) L2"
    using L1(2) L2(2) by (rule only_event_trans)
  then have "only_event i (fst S) (bcd_io_event_destroy (Some i) L2)"
    using L2(4) by (auto simp: only_event_def bcd_io_event_destroy_def ready_ok_def)
  then show ?thesis
    using True ev L1(1) L2(1)
    by (simp add: finish_client_def bcd_io_event_remove_def bcd_io_event_destroy_def)
next
  case False
  then show ?thesis using assms by (simp add: finish_client_def)
qed

text \<open>How a client's handler leaves the loop and the monitor.\<close>

definition handler_leaves :: "nat \<Rightarrow> bcd_state \<Rightarrow> bcd_monitor \<Rightarrow> bcd_state \<Rightarrow> bool" where
  "handler_leaves i S st S' \<longleftrightarrow> only_event i (fst S) (fst S') \<and>
     (client_at i (fst S') \<or> io_events (fst S') i = None) \<and> same_lists st (w_monitor (snd S'))"

lemma write_response_leaves:
  assumes "ready_ok (fst S)" and "client_at i (fst S)" and "session_ok (sr_session R)"
    and "se_offset (sr_session R) \<le> 8" and "se_state (sr_session R) = BCD_SESSION_READING"
  shows "\<exists>out S'. write_response i R S = Some (out, S') \<and> handler_leaves i S (sr_monitor R) S'"
proof -
  obtain out e R' where ack: "bcd_write_ack R = Some (out, e, R')" "ack_leaves R R'"
    using bcd_write_ack_leaves [OF assms(3,4)] by blast
  obtain ev where "io_events (fst S) i = Some ev"
    using assms(2) by (auto simp: client_at_def)
  from store_run_at [OF assms(1) this, of R'] ack(2) assms(5)
  obtain S1 where S1: "store_run i R' S = Some S1" "only_event i (fst S) (fst S1)"
      "client_at i (fst S1)" "w_monitor (snd S1) = sr_monitor R'"
    by (auto simp: ack_leaves_def)
  have rok: "ready_ok (fst S1)" and same: "same_lists (sr_monitor R) (sr_monitor R')"
    using S1(2) ack(2) by (simp_all add: only_event_def ack_leaves_def)
  obtain L2 where L2: "wait_for_edge i BCD_IO_EVENT_WRITE S1 = Some (Returns 0, (L2, snd S1))"
      "only_event i (fst S1) L2" "client_at i L2"
    using wait_for_edge_at [OF rok S1(3)] by blast
  obtain S3 where S3: "finish_client i R' S1 = Some (Returns 0, S3)" "only_event i (fst S1) (fst S3)"
      "client_at i (fst S3) \<or> io_events (fst S3) i = None" "w_monitor (snd S3) = w_monitor (snd S1)"
    using finish_client_at [OF rok S1(3)] by blast
  show ?thesis
    using ack(1) S1 L2 S3 same
    by (cases out; cases S3) (auto simp: write_response_def handler_leaves_def intro: only_event_trans)
qed


lemma perform_request_session:
  assumes "bcd_perform_request E s st = Some (out, s', st')"
  shows "se_state s' = se_state s \<and> se_offset s' = se_offset s \<and> se_packet s' = se_packet s"
proof -
  obtain v where v: "packet_op (se_packet s) = Some v"
    using assms by (cases "packet_op (se_packet s)") (simp_all add: bcd_perform_request_def)
  note run = assms [unfolded bcd_perform_request_def v Option.bind.bind_lunit]
  show ?thesis
  proof (cases "op_of v")
    case None
    with run show ?thesis by simp
  next
    case (Some p)
    with run show ?thesis
      by (cases p) (auto simp: bind_eq_Some_conv)
  qed
qed

definition grows :: "bcd_monitor \<Rightarrow> bcd_monitor \<Rightarrow> bool" where
  "grows st st' \<longleftrightarrow> (\<forall>n. monitor_within n st \<longrightarrow> n < 2 ^ 64 \<longrightarrow> monitor_within (Suc n) st')"

lemma grows_same: "same_lists st st' \<Longrightarrow> grows st st'"
  by (auto simp: grows_def monitor_within_same) (simp add: monitor_within_def)

lemma grows_perform:
  assumes "packet_ok s" and "bcd_perform_request E s st = Some (out, s', st')"
  shows "grows st st'"
  unfolding grows_def monitor_within_def
proof (intro allI impI)
  fix n :: nat
  assume w: "monitor_ok st \<and> length (kv_list st) \<le> n \<and> length (arg_list st) \<le> n" and n: "n < 2 ^ 64"
  have "length (kv_list st) < 2 ^ 64" "length (arg_list st) < 2 ^ 64"
    using w n by linarith+
  from perform_request_ok [OF assms(1) _ this assms(2)] w
  show "monitor_ok st' \<and> length (kv_list st') \<le> Suc n \<and> length (arg_list st') \<le> Suc n"
    by auto
qed

lemma grows_frame:
  "same_lists a b \<Longrightarrow> grows b c \<Longrightarrow> same_lists c d \<Longrightarrow> grows a d"
  by (simp add: grows_def monitor_within_same)

text \<open>The handler's frame and the growth of the lists.\<close>

lemma client_handler_frame:
  assumes "ready_ok L" and "io_events L i = Some ev" and "ev_payload ev = Client c"
    and "client_ok (Client c)"
    and "bcd_handler_request_response E i (L, w) = Some (out, (L', w'))"
  shows "ready_ok L' \<and> (readyevents L' = readyevents L \<or> readyevents L' = remove1 i (readyevents L)) \<and>
    (\<forall>j. j \<noteq> i \<longrightarrow> io_events L' j = io_events L j) \<and>
    (client_at i L' \<or> io_events L' i = None) \<and> grows (w_monitor w) (w_monitor w')"
proof -
  have c: "session_inv (cl_session c)" "se_state (cl_session c) = BCD_SESSION_READING"
    using assms(4) by (simp_all add: client_ok_def)
  define R where "R = \<lparr>sr_session = cl_session c, sr_monitor = w_monitor w, sr_env = cl_env c\<rparr>"
  have R: "sr_session R = cl_session c" "sr_monitor R = w_monitor w"
    by (simp_all add: R_def)
  obtain o1 e R1 where read: "bcd_read_request R = Some (o1, e, R1)" "read_leaves R o1 e R1"
    using bcd_read_request_leaves [of R] c R by auto
  have R1: "session_inv (sr_session R1)" "se_state (sr_session R1) = BCD_SESSION_READING"
      "same_lists (w_monitor w) (sr_monitor R1)"
    using read(2) R c by (simp_all add: read_leaves_def)
  obtain S1 where S1: "store_run i R1 (L, w) = Some S1" "only_event i L (fst S1)" "client_at i (fst S1)"
      "w_monitor (snd S1) = sr_monitor R1"
    using store_run_at [of "(L, w)" i ev R1] assms(1,2) R1 by auto
  have rok: "ready_ok (fst S1)"
    using S1(2) by (simp add: only_event_def)
  have finish: ?thesis if "only_event i (fst S1) L'" "client_at i L' \<or> io_events L' i = None"
      "grows (sr_monitor R1) (w_monitor w')"
    using only_event_trans [OF S1(2) that(1)] that grows_frame [OF R1(3) that(3) same_lists_refl]
    by (simp add: only_event_def)
  note run = assms(5) [unfolded bcd_handler_request_response_def fst_conv snd_conv assms(2)
      Option.bind.bind_lunit assms(3) io_payload.case Let_def c(2) bcd_session_state.case R_def [symmetric]
      read(1) prod.case S1(1)]
  show ?thesis
  proof (cases "\<exists>r. o1 = Returns r")
    case False
    then have "(L', w') = S1"
      using run by (cases o1) auto
    then have "fst S1 = L'" "snd S1 = w'"
      by auto
    then show ?thesis
      using S1(3,4) rok by (intro finish) (auto intro: grows_same)
  next
    case True
    then obtain r where o1: "o1 = Returns r" by blast
    note run = run [unfolded o1 outcome.case]
    consider (again) "r = -1 \<and> e = Some E_AGAIN"
      | (ended) "\<not> (r = -1 \<and> e = Some E_AGAIN)" "se_terminated (sr_session R1)"
      | (request) "\<not> (r = -1 \<and> e = Some E_AGAIN)" "\<not> se_terminated (sr_session R1)"
          "packet_ok (sr_session R1)" "se_offset (sr_session R1) = 0"
      using read(2) o1 by (auto simp: read_leaves_def)
    then show ?thesis
    proof cases
      case again
      from wait_for_edge_at [OF rok S1(3), of BCD_IO_EVENT_READ] run again S1(4) show ?thesis
        by (intro finish) (auto intro: grows_same)
    next
      case ended
      from finish_client_at [OF rok S1(3), of R1] run ended S1(4) show ?thesis
        by (intro finish) (auto intro: grows_same)
    next
      case request
      note run = run [unfolded if_not_P [OF request(1)] if_not_P [OF request(2)]]
      from run obtain o2 s st where perf: "bcd_perform_request E (sr_session R1) (sr_monitor R1) = Some (o2, s, st)"
        by (cases "bcd_perform_request E (sr_session R1) (sr_monitor R1)") auto
      let ?R2 = "R1\<lparr>sr_session := s, sr_monitor := st\<rparr>"
      have s: "session_ok s" "se_offset s = 0" "se_state s = BCD_SESSION_READING"
        using perform_request_session [OF perf] request R1 by (simp_all add: packet_ok_def session_ok_def)
      then have inv: "session_inv s"
        by (simp add: session_inv_def)
      obtain ev1 where ev1: "io_events (fst S1) i = Some ev1"
        using S1(3) by (auto simp: client_at_def)
      obtain S2 where S2: "store_run i ?R2 S1 = Some S2" "only_event i (fst S1) (fst S2)"
          "client_at i (fst S2)" "w_monitor (snd S2) = st"
        using store_run_at [OF rok ev1, of ?R2] inv s by auto
      have rok2: "ready_ok (fst S2)"
        using S2(2) by (simp add: only_event_def)
      have g: "grows (sr_monitor R1) st"
        by (rule grows_perform [OF request(3) perf])
      obtain o3 S3 where S3: "write_response i ?R2 S2 = Some (o3, S3)" "handler_leaves i S2 st S3"
        using write_response_leaves [OF rok2 S2(3), of ?R2] s by auto
      note run = run [unfolded perf Option.bind.bind_lunit prod.case S2(1)]
      show ?thesis
      proof (cases "\<exists>r. o2 = Returns r")
        case True
        then have S3': "S3 = (L', w')"
          using run S3(1) by auto
        show ?thesis
          using S3(2) S2(2) grows_frame [OF same_lists_refl g, of "w_monitor w'"] unfolding S3'
          by (intro finish) (auto simp: handler_leaves_def intro: only_event_trans)
      next
        case False
        then have "S2 = (L', w')"
          using run by (cases o2) auto
        then show ?thesis
          using S2 g by (intro finish) auto
      qed
    qed
  qed
qed

text \<open>
  C17: whatever a client sends, its handler works on its own event: every other event is
  untouched, the ready queue changes at most by the client's own entry, the session stays
  well-formed (or its event is freed), its state never leaves \<open>BCD_SESSION_READING\<close>, and the
  monitor's lists keep their invariant and grow by at most one element.
\<close>

theorem bcd_handler_isolated:
  assumes "ready_ok L" and "io_events L i = Some ev" and "ev_payload ev = Client c"
    and "client_ok (Client c)"
    and "bcd_handler_request_response E i (L, w) = Some (out, (L', w'))"
  shows "ready_ok L' \<and> (readyevents L' = readyevents L \<or> readyevents L' = remove1 i (readyevents L)) \<and>
    (\<forall>j. j \<noteq> i \<longrightarrow> io_events L' j = io_events L j) \<and>
    (client_at i L' \<or> io_events L' i = None) \<and> grows (w_monitor w) (w_monitor w')"
  by (rule client_handler_frame [OF assms])

end
