(* ===== verification/Bcd_System.thy ===== *)
theory Bcd_System
  imports Bcd_Client_Handler Bcd_Client
begin

text \<open>
  The client and the monitor together: what a public call of \<open>Bcd_Client\<close> sends is what the
  handler of \<open>Bcd_Handler\<close> performs, however the socket cuts it up, and the answer the
  handler sends is what makes the call succeed.
\<close>

section \<open>Key-value pairs and arguments\<close>

lemma perform_kv:
  assumes "has_bytes s (packet_bytes BCD_OP_KV (k @ 0 # v @ [0])) (8 + length (k @ 0 # v @ [0]))"
    and "length (k @ 0 # v @ [0]) \<le> BCD_PACKET_LIMIT"
    and "cstr_ok k" and "cstr_ok v" and "k \<noteq> []" and "env_errno E = None"
  shows "bcd_perform_request E s st = Some (Returns 0, s, kv_insert \<lparr>kv_key = k, kv_value = v\<rparr> st)"
proof -
  note f = received_fields [OF assms(1,2)]
  have "kv_parse (se_payload s) = Some (k, v)"
    using kv_parse_print [OF assms(3-5), of "[]"] f(3) by simp
  then have "bcd_kv_set None s st = Some (0, kv_insert \<lparr>kv_key = k, kv_value = v\<rparr> st)"
    using bcd_kv_set_parse [OF f(4), of None st] by simp
  then show ?thesis
    unfolding bcd_perform_request_def f(1) Option.bind.bind_lunit op_of_value
    by (simp add: assms(6))
qed

lemma perform_arg:
  assumes "has_bytes s (packet_bytes BCD_OP_ARG (a @ [0])) (8 + length (a @ [0]))"
    and "length (a @ [0]) \<le> BCD_PACKET_LIMIT"
    and "cstr_ok a" and "a \<noteq> []" and "env_errno E = None"
  shows "bcd_perform_request E s st = Some (Returns 0, s, arg_insert a st)"
proof -
  note f = received_fields [OF assms(1,2)]
  have "at_mem (se_packet s) sizeof_packet (a @ [0])"
    using f(5) by (simp add: sizeof_packet_def)
  from bcd_arg_set_string [OF this assms(3), of None st]
  have "bcd_arg_set None s st = Some (0, arg_insert a st)"
    using assms(4) by simp
  then show ?thesis
    unfolding bcd_perform_request_def f(1) Option.bind.bind_lunit op_of_value
    by (simp add: assms(5))
qed

text \<open>
  C5: a key-value pair set by a client arrives. \<open>bcd_kv\<close>, with a key that is not
  empty and a pair that fits a packet, succeeds over a socket that acknowledges. The bytes it
  sent, in the monitor's socket in any fragments and with interruptions, but all there (no
  read would block), and followed by anything, make one call of the monitor's handler map the
  key to the value, put the pair first in the tracer's option and, if the socket has room for
  the 8 bytes, answer with exactly the acknowledgement the client waits for; what follows
  stays in the socket for the next request.
\<close>

theorem bcd_kv_end_to_end:
  assumes "acknowledged C (length k + length v + 2) rest2"
    and "cstr_ok k" and "cstr_ok v" and "k \<noteq> []" and "length k + length v + 2 \<le> BCD_PACKET_LIMIT"
    and "served i S c (packet_bytes BCD_OP_KV (k @ 0 # v @ [0]) @ rest)"
    and "wr_events (cl_env c) = Wr_room room # ws" and "8 \<le> room" and "env_errno E = None"
    and "kv_ok (w_monitor (snd S))" and "length (kv_list (w_monitor (snd S))) < 2 ^ 64"
  shows "(\<exists>C'. bcd_kv bcd k v C = Some (0, None, C') \<and>
      sent (ca_env C') = sent (ca_env C) @ packet_bytes BCD_OP_KV (k @ 0 # v @ [0])) \<and>
    (\<exists>S' c'. bcd_handler_request_response E i S = Some (Returns 0, S') \<and> served i S' c' rest \<and>
      sent (cl_env c') = sent (cl_env c) @ packet_bytes BCD_OP_OK [] \<and>
      kv_ok (w_monitor (snd S')) \<and>
      kv_map (w_monitor (snd S')) = (kv_map (w_monitor (snd S)))(k \<mapsto> v) \<and>
      hd (kv_list (w_monitor (snd S'))) = \<lparr>kv_key = k, kv_value = v\<rparr>)"
proof
  have "acknowledged C (length ((k @ [0]) @ (v @ [0]))) rest2"
    using assms(1) by simp
  from call_ok [OF this, of BCD_OP_KV] show "\<exists>C'. bcd_kv bcd k v C = Some (0, None, C') \<and>
      sent (ca_env C') = sent (ca_env C) @ packet_bytes BCD_OP_KV (k @ 0 # v @ [0])"
    using assms(5) by (auto simp: bcd_kv_def Let_def)
next
  let ?d = "k @ 0 # v @ [0]" and ?st = "w_monitor (snd S)"
  let ?kv = "\<lparr>kv_key = k, kv_value = v\<rparr>"
  have d: "length ?d \<le> BCD_PACKET_LIMIT"
    using assms(5) by simp
  have "\<exists>S' c'. bcd_handler_request_response E i S = Some (Returns 0, S') \<and>
      w_monitor (snd S') = kv_insert ?kv ?st \<and> served i S' c' rest \<and>
      sent (cl_env c') = sent (cl_env c) @ packet_bytes BCD_OP_OK [] \<and>
      wr_events (cl_env c') = ws \<and> se_tid (cl_session c') = se_tid (cl_session c)"
    by (rule handler_serves [OF assms(6) d assms(7,8)])
      (use perform_kv assms(2-4,9) d in blast)
  then show "\<exists>S' c'. bcd_handler_request_response E i S = Some (Returns 0, S') \<and> served i S' c' rest \<and>
      sent (cl_env c') = sent (cl_env c) @ packet_bytes BCD_OP_OK [] \<and>
      kv_ok (w_monitor (snd S')) \<and>
      kv_map (w_monitor (snd S')) = (kv_map (w_monitor (snd S)))(k \<mapsto> v) \<and>
      hd (kv_list (w_monitor (snd S'))) = \<lparr>kv_key = k, kv_value = v\<rparr>"
    using kvs.add_tracked [OF assms(10,11), of ?kv] kv_map_insert [OF assms(10,11), of ?kv]
      kv_insert_eq [OF assms(10,11), of ?kv] by auto
qed

text \<open>One connected client, its packet in the socket in three pieces.\<close>

definition example_state :: "bcd_client \<Rightarrow> bcd_state" where
  "example_state c =
     (\<lparr>io_events = [0 \<mapsto> \<lparr>ev_fd = 9, ev_mask = 1, ev_in_ready = True, ev_payload = Client c\<rparr>],
       readyevents = [0]\<rparr>,
      \<lparr>w_monitor = start_monitor (bcd_config_init_v1 1) 5, w_closed = []\<rparr>)"

definition example_client :: "rd_event list \<Rightarrow> wr_event list \<Rightarrow> bcd_client" where
  "example_client es ws = \<lparr>cl_session = zero_session,
     cl_env = \<lparr>rd_events = es, wr_events = ws, sel_events = [], sent = []\<rparr>\<rparr>"

lemma served_example:
  assumes "rd_live es" and "rd_waits es = 0"
  shows "served 0 (example_state (example_client es ws)) (example_client es ws) (rd_bytes es)"
  using assms session_ok_zero
  by (auto simp: served_def example_state_def example_client_def ready_ok_def zero_session_def)

theorem bcd_kv_end_to_end_witness:
  "\<exists>S' c'. bcd_handler_request_response (example_env []) 0
      (example_state (example_client [Rd_data [3, 0, 0], Rd_data [0, 4, 0, 0, 0, 97, 0, 98],
        Rd_intr, Rd_data [0, 7]] [Wr_room 100])) = Some (Returns 0, S') \<and>
    sent (cl_env c') = packet_bytes BCD_OP_OK [] \<and> served 0 S' c' [7] \<and>
    kv_map (w_monitor (snd S')) [97] = Some [98]"
proof -
  let ?es = "[Rd_data [3, 0, 0], Rd_data [0, 4, 0, 0, 0, 97, 0, 98], Rd_intr, Rd_data [0, 7]]"
  let ?C = "\<lparr>ca_timeout = 30, ca_now = 100,
      ca_env = \<lparr>rd_events = [Rd_data [1, 0, 0, 0, 0, 0, 0, 0]], wr_events = [Wr_room 100],
        sel_events = [], sent = []\<rparr>, ca_closed = []\<rparr>"
  have P: "packet_bytes BCD_OP_KV [97, 0, 98, 0] = [3, 0, 0, 0, 4, 0, 0, 0, 97, 0, 98, 0]"
    and ok: "packet_bytes BCD_OP_OK [] = [1, 0, 0, 0, 0, 0, 0, 0]"
    by code_simp+
  have "acknowledged ?C (length [97 :: byte] + length [98 :: byte] + 2) []"
    by (simp add: acknowledged_def ready_selects_def ok)
  moreover have "served 0 (example_state (example_client ?es [Wr_room 100]))
      (example_client ?es [Wr_room 100]) (packet_bytes BCD_OP_KV ([97] @ 0 # [98] @ [0]) @ [7])"
    using served_example [of ?es "[Wr_room 100]"] by (simp add: P)
  ultimately show ?thesis
    using bcd_kv_end_to_end [of ?C "[97]" "[98]" "[]" 0 "example_state (example_client ?es [Wr_room 100])"
        "example_client ?es [Wr_room 100]" "[7]" 100 "[]" "example_env []" "\<lparr>bcd_fd = 5\<rparr>"] kv_ok_start
    by (auto simp: BCD_PACKET_LIMIT_def example_client_def example_env_def example_state_def)
qed

section \<open>Acknowledgements that do not fit\<close>

text \<open>A reading session with a part of a header and an empty socket waits for another edge.\<close>

lemma reading_stalls:
  assumes "ready_ok L" and "io_events L i = Some ev" and "ev_payload ev = Client c"
    and "se_state (cl_session c) = BCD_SESSION_READING"
    and "0 < se_offset (cl_session c)" and "se_offset (cl_session c) < 8"
    and "rd_events (cl_env c) = []"
  shows "\<exists>L' ev'. bcd_handler_request_response E i (L, w) = Some (Returns 0, (L', w)) \<and>
    io_events L' i = Some ev' \<and> ev_payload ev' = Client c \<and> i \<notin> set (readyevents L')"
proof -
  let ?R = "\<lparr>sr_session = cl_session c, sr_monitor = w_monitor w, sr_env = cl_env c\<rparr>"
  have "bcd_read_request ?R = Some (Returns (-1), Some E_AGAIN,
      ?R\<lparr>sr_session := (cl_session c)\<lparr>se_offset := se_offset (cl_session c)\<rparr>,
         sr_env := (cl_env c)\<lparr>rd_events := []\<rparr>\<rparr>)"
    using assms(5-7)
    by (simp add: bcd_read_request_def read_request_loop.simps [of 0] sizeof_packet_def size_sub_def Let_def)
  moreover have "(cl_env c)\<lparr>rd_events := []\<rparr> = cl_env c"
    using assms(7) by (cases "cl_env c") simp
  moreover have "(cl_session c)\<lparr>se_offset := se_offset (cl_session c)\<rparr> = cl_session c"
    by (cases "cl_session c") simp
  ultimately have read: "bcd_read_request ?R = Some (Returns (-1), Some E_AGAIN, ?R)"
    by simp
  have c: "\<lparr>cl_session = cl_session c, cl_env = cl_env c\<rparr> = c"
    by (cases c) simp
  obtain L1 where L1: "update_event i (\<lambda>ev. ev\<lparr>ev_payload := Client c\<rparr>) L = Some L1" "ready_ok L1"
      "io_events L1 i = Some (ev\<lparr>ev_payload := Client c\<rparr>)"
    using update_client_ready [OF assms(1,2)] by blast
  obtain L2 ev2 where L2: "bcd_io_event_unset i BCD_IO_EVENT_READ L1 = Some L2" "ready_ok L2"
      "io_events L2 i = Some ev2" "ev_payload ev2 = Client c"
    using update_event_at [OF L1(2,3), of "\<lambda>ev. ev\<lparr>ev_mask := and (ev_mask ev) (not BCD_IO_EVENT_READ)\<rparr>"]
    by (auto simp: bcd_io_event_unset_def)
  obtain L3 where L3: "bcd_io_event_remove_from_ready_list i L2 = Some L3"
      "i \<notin> set (readyevents L3)" "io_events L3 = (io_events L2)(i \<mapsto> ev2\<lparr>ev_in_ready := False\<rparr>)"
    using remove_from_ready [OF L2(2,3)] by blast
  show ?thesis
    using assms(2,3,4) read L1(1) L2(1,4) L3
    by (simp add: bcd_handler_request_response_def store_run_def wait_for_edge_def c)
qed

lemma example_state_event:
  "ready_ok (fst (example_state c))"
  "io_events (fst (example_state c)) 0 = Some \<lparr>ev_fd = 9, ev_mask = 1, ev_in_ready = True,
     ev_payload = Client c\<rparr>"
  by (auto simp: example_state_def ready_ok_def)

text \<open>
  C39: an acknowledgement the socket takes only in part is never completed. The monitor
  performs a complete request that leaves its session as it is (a pair, an argument or a trace
  it survives), writes \<open>k\<close> of the 8 bytes of the
  acknowledgement and finds the socket full. It keeps the count but leaves the session in its
  reading state, so every later call of the handler, however much room the socket then has,
  reads for a new request instead of writing the rest: with a client that waits for its
  answer, nothing is sent and the event leaves the queue again.
\<close>

theorem partial_ack_stalls:
  assumes "served i S c (packet_bytes p d)" and "length d \<le> BCD_PACKET_LIMIT"
    and "wr_events (cl_env c) = Wr_room k # Wr_again # ws" and "0 < k" and "k < 8"
    and "\<And>s. has_bytes s (packet_bytes p d) (8 + length d) \<Longrightarrow>
      bcd_perform_request E s (w_monitor (snd S)) = Some (Returns r, s, st')"
  shows "\<exists>L1 ev1 c1. bcd_handler_request_response E i S =
      Some (Returns 0, (L1, (snd S)\<lparr>w_monitor := st'\<rparr>)) \<and> ready_ok L1 \<and>
    io_events L1 i = Some ev1 \<and> ev_payload ev1 = Client c1 \<and> i \<notin> set (readyevents L1) \<and>
    sent (cl_env c1) = sent (cl_env c) @ take k (packet_bytes BCD_OP_OK []) \<and>
    wr_events (cl_env c1) = ws \<and> rd_bytes (rd_events (cl_env c1)) = [] \<and>
    (\<forall>E' L w ev c2. ready_ok L \<and> io_events L i = Some ev \<and> ev_payload ev = Client c2 \<and>
        cl_session c2 = cl_session c1 \<and> rd_events (cl_env c2) = [] \<longrightarrow>
      (\<exists>L' ev'. bcd_handler_request_response E' i (L, w) = Some (Returns 0, (L', w)) \<and>
        io_events L' i = Some ev' \<and> ev_payload ev' = Client c2 \<and> i \<notin> set (readyevents L')))"
proof -
  have "served i S c (packet_bytes p d @ [])"
    using assms(1) by simp
  from handler_serves_part [OF this assms(2-6)] obtain L1 ev1 c1 where
    "bcd_handler_request_response E i S = Some (Returns 0, (L1, (snd S)\<lparr>w_monitor := st'\<rparr>))"
    "ready_ok L1" "io_events L1 i = Some ev1" "ev_payload ev1 = Client c1" "i \<notin> set (readyevents L1)"
    "sent (cl_env c1) = sent (cl_env c) @ take k (packet_bytes BCD_OP_OK [])"
    "wr_events (cl_env c1) = ws" "rd_bytes (rd_events (cl_env c1)) = []"
    and s: "se_state (cl_session c1) = BCD_SESSION_READING" "se_offset (cl_session c1) = k"
    by blast
  moreover have "\<exists>L' ev'. bcd_handler_request_response E' i (L, w) = Some (Returns 0, (L', w)) \<and>
      io_events L' i = Some ev' \<and> ev_payload ev' = Client c2 \<and> i \<notin> set (readyevents L')"
    if "ready_ok L" "io_events L i = Some ev" "ev_payload ev = Client c2"
      "cl_session c2 = cl_session c1" "rd_events (cl_env c2) = []" for E' L w ev c2
    using reading_stalls [OF that(1-3) _ _ _ that(5)] that(4) s assms(4,5) by simp
  ultimately show ?thesis by blast
qed

text \<open>A pair whose acknowledgement finds room for 3 bytes, then none, then plenty.\<close>

definition cramped_client :: bcd_client where
  "cramped_client = example_client [Rd_data [3, 0, 0, 0, 4, 0, 0, 0, 97, 0, 98, 0]]
     [Wr_room 3, Wr_again, Wr_room 100]"

theorem partial_ack_stalls_witness:
  "\<exists>L1 ev1 c1. bcd_handler_request_response (example_env []) 0 (example_state cramped_client) =
      Some (Returns 0, (L1, (snd (example_state cramped_client))\<lparr>w_monitor :=
        kv_insert \<lparr>kv_key = [97], kv_value = [98]\<rparr> (start_monitor (bcd_config_init_v1 1) 5)\<rparr>)) \<and>
    io_events L1 0 = Some ev1 \<and> ev_payload ev1 = Client c1 \<and> sent (cl_env c1) = [1, 0, 0]"
proof -
  let ?d = "[97, 0, 98, 0] :: byte list" and ?c = cramped_client
  have P: "packet_bytes BCD_OP_KV ?d = [3, 0, 0, 0, 4, 0, 0, 0, 97, 0, 98, 0]"
    and ok: "packet_bytes BCD_OP_OK [] = [1, 0, 0, 0, 0, 0, 0, 0]"
    by code_simp+
  have served: "served 0 (example_state ?c) ?c (packet_bytes BCD_OP_KV ?d)"
    using served_example [of "[Rd_data (packet_bytes BCD_OP_KV ?d)]" "[Wr_room 3, Wr_again, Wr_room 100]"]
    by (simp add: P cramped_client_def)
  have perform: "bcd_perform_request (example_env []) s (w_monitor (snd (example_state ?c))) =
      Some (Returns 0, s, kv_insert \<lparr>kv_key = [97], kv_value = [98]\<rparr> (start_monitor (bcd_config_init_v1 1) 5))"
    if "has_bytes s (packet_bytes BCD_OP_KV ?d) (8 + length ?d)" for s
    using perform_kv [of s "[97]" "[98]" "example_env []"] that
    by (simp add: example_state_def example_env_def cstr_ok_def BCD_PACKET_LIMIT_def)
  have "length ?d \<le> BCD_PACKET_LIMIT"
    by (simp add: BCD_PACKET_LIMIT_def)
  moreover have "wr_events (cl_env ?c) = Wr_room 3 # Wr_again # [Wr_room 100]" "sent (cl_env ?c) = []"
    by (simp_all add: cramped_client_def example_client_def)
  ultimately show ?thesis
    using partial_ack_stalls [OF served _ _ _ _ perform, of 3 "[Wr_room 100]"]
    by (fastforce simp: ok)
qed

text \<open>
  A request on the fatal pipe never leads to a trace: the handler passes no session, and
  performing the trace dereferences it.
\<close>

theorem bcd_handler_fatal_undefined:
  assumes "io_events (fst S) i = Some ev" and "ev_payload ev = Pipe env"
    and "rd_events env = Rd_data (b # bs) # es"
  shows "bcd_handler_fatal E i S = None"
  using assms
  by (simp add: bcd_handler_fatal_def bcd_backtrace_process_def bcd_request_handler_def)

definition example_pipe :: "io_payload io_loop" where
  "example_pipe = \<lparr>io_events = [1 \<mapsto> \<lparr>ev_fd = 4, ev_mask = 1, ev_in_ready = True,
     ev_payload = Pipe \<lparr>rd_events = [Rd_data [6, 0, 0, 0, 0, 0, 0, 0]], wr_events = [],
       sel_events = [], sent = []\<rparr>\<rparr>], readyevents = [1]\<rparr>"

theorem bcd_handler_fatal_undefined_witness:
  "bcd_handler_fatal (example_env []) 1 (example_pipe, snd (example_state cramped_client)) = None"
  using bcd_handler_fatal_undefined [of "(example_pipe, snd (example_state cramped_client))" 1 _ _ 6 "[0, 0, 0, 0, 0, 0, 0]" "[]"]
  by (simp add: example_pipe_def)

end
