(* ===== verification/Bcd_Loop.thy ===== *)
theory Bcd_Loop
  imports Bcd_System
begin

text \<open>
  The monitor's event loop (\<open>bcd_io_enter\<close>) over all handlers. What happens around it is a
  list of turns: for each, what \<open>epoll_wait\<close> returns, the connections that wait to be
  accepted, and the environment of the requests. The list of the events whose handlers ran is
  carried along for the theorems.
\<close>

section \<open>One turn\<close>

text \<open>\<open>epoll_wait\<close> is given its timeout: 0 when events are still ready, else -1.\<close>

record io_turn =
  tn_epoll :: "int \<Rightarrow> (nat \<times> u32) list io_result"
  tn_accepts :: "nat \<Rightarrow> accepted list"
  tn_env :: "nat \<Rightarrow> monitor_env"

text \<open>\<open>malloc\<close> never returns an object that is in use.\<close>

fun fresh_events :: "accepted list \<Rightarrow> 'p io_loop \<Rightarrow> bool" where
  "fresh_events [] L \<longleftrightarrow> True"
| "fresh_events (a # as) L \<longleftrightarrow>
     (case ac_event a of
        None \<Rightarrow> True
      | Some j \<Rightarrow> io_events L j = None \<and> Some j \<notin> set (map ac_event as)) \<and> fresh_events as L"

text \<open>\<open>curr_event->handler(curr_event)\<close>; the payload says which handler it is.\<close>

definition run_handler :: "io_turn \<Rightarrow> nat \<Rightarrow> bcd_state \<Rightarrow> (outcome \<times> bcd_state) option" where
  "run_handler T i S = do {
     ev \<leftarrow> io_events (fst S) i;
     case ev_payload ev of
       Client _ \<Rightarrow> bcd_handler_request_response (tn_env T i) i S
     | Pipe _ \<Rightarrow> bcd_handler_fatal (tn_env T i) i S
     | Watch \<Rightarrow> bcd_handler_sb i S
     | Listener \<Rightarrow>
         if fresh_events (tn_accepts T i) (fst S)
         then map_option (Pair (Returns 0)) (bcd_io_listener_accept (tn_accepts T i) i S)
         else None
   }"

text \<open>
  A handler that leaves the process or aborts ends the loop: nothing runs after it. The result
  also records the event.
\<close>

type_synonym loop_world = "bcd_world \<times> outcome option \<times> nat list"

definition turn_handler ::
    "io_turn \<Rightarrow> nat \<Rightarrow> io_payload io_loop \<times> loop_world \<Rightarrow> (io_payload io_loop \<times> loop_world) option" where
  "turn_handler T i S =
     (case S of
        (L, w, Some out, tr) \<Rightarrow> Some S
      | (L, w, None, tr) \<Rightarrow> do {
          (out, L, w) \<leftarrow> run_handler T i (L, w);
          Some (L, w, (case out of Returns _ \<Rightarrow> None | _ \<Rightarrow> Some out), tr @ [i])
        })"

text \<open>A list of turns that ends leaves the loop waiting in \<open>epoll_wait\<close>.\<close>

fun bcd_io_enter ::
    "io_turn list \<Rightarrow> bcd_state \<Rightarrow> nat list \<Rightarrow> (outcome \<times> bcd_state \<times> nat list) option" where
  "bcd_io_enter [] S tr = Some (Waits, S, tr)"
| "bcd_io_enter (T # Ts) S tr =
     (case tn_epoll T (if \<not> bcd_io_event_ready_list_is_empty (fst S) then 0 else -1) of
        Failed E_INTR \<Rightarrow> bcd_io_enter Ts S tr
      | Failed _ \<Rightarrow> Some (Returns (-1), S, tr)
      | Ok evs \<Rightarrow> do {
          L \<leftarrow> epoll_collect evs (fst S);
          (L, w, ended, tr) \<leftarrow>
            bcd_io_event_dispatch_ready_list (turn_handler T) (L, snd S, None, tr);
          case ended of None \<Rightarrow> bcd_io_enter Ts (L, w) tr | Some out \<Rightarrow> Some (out, (L, w), tr)
        })"

section \<open>The invariant\<close>

definition loop_inv :: "nat \<Rightarrow> bcd_state \<Rightarrow> bool" where
  "loop_inv n S \<longleftrightarrow> ready_ok (fst S) \<and> monitor_within n (w_monitor (snd S)) \<and>
     (\<forall>i ev. io_events (fst S) i = Some ev \<longrightarrow> client_ok (ev_payload ev))"

lemma loop_inv_weaken: "loop_inv n S \<Longrightarrow> n \<le> m \<Longrightarrow> loop_inv m S"
  by (auto simp: loop_inv_def monitor_within_def)

text \<open>Changing flags and masks, and the queue with them.\<close>

definition same_payloads :: "io_payload io_loop \<Rightarrow> io_payload io_loop \<Rightarrow> bool" where
  "same_payloads L L' \<longleftrightarrow>
     (\<forall>i. map_option ev_payload (io_events L' i) = map_option ev_payload (io_events L i))"

lemma loop_inv_payloads:
  assumes "loop_inv n (L, w)" and "ready_ok L'" and "same_payloads L L'"
  shows "loop_inv n (L', w)"
proof -
  have "client_ok (ev_payload ev)" if "io_events L' i = Some ev" for i ev
  proof -
    have "map_option ev_payload (io_events L i) = Some (ev_payload ev)"
      using assms(3) that unfolding same_payloads_def by (metis option.simps(9))
    then obtain ev' where "io_events L i = Some ev'" "ev_payload ev' = ev_payload ev"
      by auto
    then show ?thesis
      using assms(1) by (metis fst_conv loop_inv_def)
  qed
  with assms(1,2) show ?thesis by (simp add: loop_inv_def)
qed

lemma same_payloads_update:
  assumes "update_event i f L = Some L'" and "\<And>ev. ev_payload (f ev) = ev_payload ev"
  shows "same_payloads L L'"
  using assms by (auto simp: update_event_def same_payloads_def split: option.splits)

lemma same_payloads_trans: "same_payloads L L' \<Longrightarrow> same_payloads L' L'' \<Longrightarrow> same_payloads L L''"
  by (simp add: same_payloads_def)

lemma add_to_ready_payloads:
  assumes "ready_ok L" and "bcd_io_event_add_to_ready_list i L = Some L'"
  shows "ready_ok L' \<and> same_payloads L L'"
proof -
  obtain ev where ev: "io_events L i = Some ev"
    using assms(2) by (cases "io_events L i") (simp_all add: event_defs)
  from add_to_ready [OF assms(1) this] assms(2) obtain ev'
    where L': "ready_ok L'" "io_events L' i = Some (ev\<lparr>ev_in_ready := True\<rparr>)"
      "\<forall>j. j \<noteq> i \<longrightarrow> io_events L' j = io_events L j" by auto
  have "map_option ev_payload (io_events L' j) = map_option ev_payload (io_events L j)" for j
    using L' ev by (cases "j = i") simp_all
  with L' show ?thesis by (simp add: same_payloads_def)
qed

lemma remove_ready_payloads:
  assumes "ready_ok L" and "bcd_io_event_remove_from_ready_list i L = Some L'"
  shows "ready_ok L' \<and> same_payloads L L'"
proof -
  obtain ev where ev: "io_events L i = Some ev"
    using assms(2) by (cases "io_events L i") (simp_all add: event_defs)
  from remove_from_ready [OF assms(1) this] assms(2) ev show ?thesis
    by (auto simp: same_payloads_def)
qed

lemma epoll_collect_inv:
  assumes "loop_inv n (L, w)" and "epoll_collect evs L = Some L'"
  shows "loop_inv n (L', w)"
  using assms
proof (induction evs L rule: epoll_collect.induct)
  case (1 L)
  then show ?case by simp
next
  case (2 i events evs L)
  let ?f = "\<lambda>ev :: io_payload bcd_io_event. ev\<lparr>ev_mask := or (ev_mask ev) events\<rparr>"
  obtain L1 L2 where L1: "update_event i ?f L = Some L1"
      and L2: "bcd_io_event_add_to_ready_list i L1 = Some L2" and rest: "epoll_collect evs L2 = Some L'"
    using "2.prems"(2) by (auto simp: bind_eq_Some_conv)
  have "ready_ok L"
    using "2.prems"(1) by (simp add: loop_inv_def)
  then have r1: "ready_ok L1"
    by (rule update_event_ready [OF _ L1]) simp
  have "same_payloads L L1"
    by (rule same_payloads_update [OF L1]) simp
  with add_to_ready_payloads [OF r1 L2] have "ready_ok L2" "same_payloads L L2"
    by (auto intro: same_payloads_trans)
  with "2.prems"(1) have "loop_inv n (L2, w)"
    by (blast intro: loop_inv_payloads)
  with "2.IH" [OF L1 L2] rest show ?case by simp
qed

lemma client_ok_zero: "client_ok (Client \<lparr>cl_session = zero_session, cl_env = e\<rparr>)"
  using session_ok_zero by (simp add: client_ok_def session_inv_def) (simp add: zero_session_def)

text \<open>A new connection: its own event is set up or freed again, and nothing else changes.\<close>

lemma handler_accept_new:
  assumes "ready_ok L" and "io_events L j = Some ev" and "ev_payload ev = Client c" and "\<not> ev_in_ready ev"
    and "bcd_handler_accept ctl j (L, w) = Some S'"
  shows "ready_ok (fst S') \<and> snd S' = w \<and> (\<forall>k. k \<noteq> j \<longrightarrow> io_events (fst S') k = io_events L k) \<and>
    (\<forall>ev'. io_events (fst S') j = Some ev' \<longrightarrow> client_ok (ev_payload ev'))"
proof -
  let ?c = "Client (c\<lparr>cl_session := zero_session\<rparr>)"
  let ?L = "L\<lparr>io_events := (io_events L)(j \<mapsto> ev\<lparr>ev_payload := ?c\<rparr>)\<rparr>"
  have up: "update_event j (\<lambda>ev. ev\<lparr>ev_payload := ?c\<rparr>) L = Some ?L"
    by (simp add: update_event_def assms(2))
  have rok: "ready_ok ?L"
    using update_event_ready [OF assms(1) up] by simp
  have ok: "client_ok ?c"
    using client_ok_zero [of "cl_env c"] by (cases c) simp
  have j: "j \<notin> set (readyevents L)"
    using assms(1,2,4) by (auto simp: ready_ok_def)
  show ?thesis
  proof (cases ctl)
    case True
    obtain L' where "bcd_io_event_add_to_ready_list j ?L = Some L'" "ready_ok L'"
        "io_events L' j = Some (ev\<lparr>ev_payload := ?c, ev_in_ready := True\<rparr>)"
        "\<forall>k. k \<noteq> j \<longrightarrow> io_events L' k = io_events ?L k"
      using add_to_ready [OF rok, of j "ev\<lparr>ev_payload := ?c\<rparr>"] by auto
    then show ?thesis
      using assms(2,3,5) True up ok by (auto simp: bcd_handler_accept_def bcd_io_event_add_def)
  next
    case False
    have "ready_ok (bcd_io_event_destroy (Some j) ?L)"
      using assms(1) j by (auto simp: ready_ok_def bcd_io_event_destroy_def)
    then show ?thesis
      using assms(2,3,5) False up
      by (auto simp: bcd_handler_accept_def bcd_io_event_add_def bcd_io_event_destroy_def)
  qed
qed

lemma fresh_events_cong:
  "fresh_events as L \<Longrightarrow> Some j \<notin> set (map ac_event as) \<Longrightarrow>
    (\<And>k. k \<noteq> j \<Longrightarrow> io_events L' k = io_events L k) \<Longrightarrow> fresh_events as L'"
  by (induction as) (auto split: option.splits)

lemma accept_inv:
  assumes "loop_inv n S" and "fresh_events as (fst S)" and "bcd_io_listener_accept as i S = Some S'"
  shows "loop_inv n S'"
  using assms
proof (induction as i S rule: bcd_io_listener_accept.induct)
  case (1 i S)
  then show ?case by simp
next
  case (2 a as i S)
  obtain L w where S: "S = (L, w)" by (cases S)
  have rok: "ready_ok L"
    using "2.prems"(1) by (simp add: S loop_inv_def)
  note run = "2.prems"(3)
  show ?case
  proof (cases "ac_fd a")
    case (Failed e)
    show ?thesis
    proof (cases e)
      case E_AGAIN
      with run Failed obtain L' where "bcd_io_event_remove_from_ready_list i L = Some L'" "S' = (L', w)"
        by (auto simp: S bind_eq_Some_conv)
      with remove_ready_payloads [OF rok this(1)] "2.prems"(1) show ?thesis
        by (auto simp: S intro: loop_inv_payloads)
    qed (use run Failed "2.prems"(1) in auto)
  next
    case (Ok fd)
    show ?thesis
    proof (cases "ac_prepared a")
      case False
      with run Ok "2.prems"(1) show ?thesis by simp
    next
      case prepared: True
      show ?thesis
      proof (cases "ac_event a")
        case None
        let ?w = "w\<lparr>w_closed := w_closed w @ [fd]\<rparr>"
        have "loop_inv n (L, ?w)"
          using "2.prems"(1) by (simp add: S loop_inv_def)
        moreover have "bcd_io_listener_accept as i (L, ?w) = Some S'"
          using run Ok prepared None by (simp add: S bcd_io_event_create_def)
        ultimately show ?thesis
          using "2.IH"(1) [OF Ok _ refl, of None L] prepared None "2.prems"(2)
          by (simp add: S bcd_io_event_create_def)
      next
        case (Some j)
        let ?c = "\<lparr>cl_session = zero_session, cl_env = ac_env a\<rparr>"
        let ?ev = "\<lparr>ev_fd = fd, ev_mask = 0, ev_in_ready = False, ev_payload = Client ?c\<rparr>"
        let ?L = "L\<lparr>io_events := (io_events L)(j \<mapsto> ?ev)\<rparr>"
        have free: "io_events L j = None"
          using "2.prems"(2) Some by (simp add: S)
        then have rL: "ready_ok ?L"
          using rok by (auto simp: ready_ok_def)
        obtain S1 where S1: "bcd_handler_accept (ac_ctl a) j (?L, w) = Some S1"
            "bcd_io_listener_accept as i S1 = Some S'"
          using run Ok prepared Some by (auto simp: S bcd_io_event_create_def bind_eq_Some_conv)
        have new: "ready_ok (fst S1)" "snd S1 = w" "\<And>k. k \<noteq> j \<Longrightarrow> io_events (fst S1) k = io_events L k"
            "\<And>ev'. io_events (fst S1) j = Some ev' \<Longrightarrow> client_ok (ev_payload ev')"
          using handler_accept_new [OF rL _ _ _ S1(1), of ?ev ?c] by simp_all
        have "client_ok (ev_payload ev')" if "io_events (fst S1) k = Some ev'" for k ev'
          using new(3) [of k] new(4) that "2.prems"(1) by (cases "k = j") (auto simp: S loop_inv_def)
        then have "loop_inv n S1"
          using new(1,2) "2.prems"(1) by (simp add: S loop_inv_def)
        moreover have "fresh_events as (fst S1)"
          using fresh_events_cong [of as L j "fst S1"] "2.prems"(2) Some new(3) by (simp add: S)
        moreover have "(Some j, ?L) = bcd_io_event_create (ac_event a) fd (Client ?c) (fst S)"
          using Some by (simp add: S bcd_io_event_create_def)
        ultimately show ?thesis
          using "2.IH"(2) [OF Ok _ _ refl] prepared S1 by (simp add: S)
      qed
    qed
  qed
qed


lemma fatal_inv:
  assumes "loop_inv n S" and "bcd_handler_fatal E i S = Some (out, S')"
  shows "loop_inv n S'"
proof -
  obtain L w where S: "S = (L, w)" by (cases S)
  obtain ev env where ev: "io_events L i = Some ev" "ev_payload ev = Pipe env"
    using assms(2) by (cases "io_events L i") (auto simp: S bcd_handler_fatal_def split: io_payload.splits)
  obtain res es where read: "sys_read 1 (rd_events env) = (res, es)"
    by (cases "sys_read 1 (rd_events env)")
  note run = assms(2) [unfolded bcd_handler_fatal_def S fst_conv snd_conv ev(1) Option.bind.bind_lunit ev(2)
      io_payload.case read prod.case]
  show ?thesis
  proof (cases res)
    case (Ok bs)
    with run assms(1) show ?thesis
      by (auto simp: S bind_eq_Some_conv loop_inv_def monitor_within_same [OF same_lists_process]
          split: if_splits)
  next
    case (Failed e)
    show ?thesis
    proof (cases "e = E_AGAIN")
      case False
      with run Failed assms(1) show ?thesis by (cases e) (auto simp: S)
    next
      case True
      let ?f = "\<lambda>ev :: io_payload bcd_io_event. ev\<lparr>ev_payload := Pipe (env\<lparr>rd_events := es\<rparr>)\<rparr>"
      obtain L1 L2 where L1: "update_event i ?f L = Some L1"
          and L2: "bcd_io_event_remove_from_ready_list i L1 = Some L2" and S': "S' = (L2, w)"
        using run Failed True by (auto simp: bind_eq_Some_conv)
      have "ready_ok L"
        using assms(1) by (simp add: S loop_inv_def)
      then have r1: "ready_ok L1"
        by (rule update_event_ready [OF _ L1]) simp
      have "loop_inv n (L1, w)"
        using assms(1) r1 L1 ev(1)
        by (auto simp: S loop_inv_def update_event_def client_ok_def split: if_splits)
      with remove_ready_payloads [OF r1 L2] show ?thesis
        unfolding S' by (blast intro: loop_inv_payloads)
    qed
  qed
qed

lemma sb_inv:
  assumes "loop_inv n S" and "bcd_handler_sb i S = Some (out, S')"
  shows "loop_inv n S'"
proof -
  obtain L w where S: "S = (L, w)" by (cases S)
  have "ready_ok L"
    using assms(1) by (simp add: S loop_inv_def)
  with assms remove_ready_payloads [OF this] show ?thesis
    by (auto simp: S bcd_handler_sb_def bind_eq_Some_conv split: if_splits intro: loop_inv_payloads)
qed

lemma client_inv:
  assumes "loop_inv n (L, w)" and "n < 2 ^ 64" and "io_events L i = Some ev" and "ev_payload ev = Client c"
    and "bcd_handler_request_response E i (L, w) = Some (out, (L', w'))"
  shows "loop_inv (Suc n) (L', w')"
proof -
  have ok: "ready_ok L" "client_ok (Client c)" "monitor_within n (w_monitor w)"
    using assms(1,3,4) by (auto simp: loop_inv_def) (metis assms(4))
  note frame = client_handler_frame [OF ok(1) assms(3,4) ok(2) assms(5)]
  have "monitor_within (Suc n) (w_monitor w')"
    using frame ok(3) assms(2) by (simp add: grows_def)
  moreover have "client_ok (ev_payload ev')" if "io_events L' j = Some ev'" for j ev'
    using frame that assms(1) by (cases "j = i") (auto simp: client_at_def loop_inv_def)
  ultimately show ?thesis
    using frame by (simp add: loop_inv_def)
qed

lemma run_handler_inv:
  assumes "loop_inv n S" and "n < 2 ^ 64" and "run_handler T i S = Some (out, S')"
  shows "loop_inv (Suc n) S'"
proof -
  obtain L w where S: "S = (L, w)" by (cases S)
  obtain L' w' where S': "S' = (L', w')" by (cases S')
  obtain ev where ev: "io_events L i = Some ev"
    using assms(3) by (cases "io_events L i") (simp_all add: S run_handler_def)
  note run = assms(3) [unfolded run_handler_def S fst_conv ev Option.bind.bind_lunit]
  have le: "n \<le> Suc n" by simp
  show ?thesis
  proof (cases "ev_payload ev")
    case (Client c)
    with run assms(1,2) ev show ?thesis
      unfolding S S' by (intro client_inv) simp_all
  next
    case (Pipe env)
    with run have "bcd_handler_fatal (tn_env T i) i (L, w) = Some (out, S')" by simp
    from loop_inv_weaken [OF fatal_inv [OF assms(1) [unfolded S] this] le] show ?thesis .
  next
    case Listener
    with run have "fresh_events (tn_accepts T i) (fst (L, w))"
        "bcd_io_listener_accept (tn_accepts T i) i (L, w) = Some S'"
      by (auto split: if_splits)
    from loop_inv_weaken [OF accept_inv [OF assms(1) [unfolded S] this] le] show ?thesis .
  next
    case Watch
    with run have "bcd_handler_sb i (L, w) = Some (out, S')" by simp
    from loop_inv_weaken [OF sb_inv [OF assms(1) [unfolded S] this] le] show ?thesis .
  qed
qed

text \<open>The invariant of the loop, counting the handlers that have run.\<close>

definition world_inv :: "nat \<Rightarrow> io_payload io_loop \<times> loop_world \<Rightarrow> bool" where
  "world_inv base S \<longleftrightarrow>
     (case S of (L, w, e, tr) \<Rightarrow>
        base + length tr < 2 ^ 64 \<longrightarrow> loop_inv (base + length tr) (L, w))"

lemma turn_handler_inv:
  assumes "world_inv base S" and "turn_handler T i S = Some S'"
  shows "world_inv base S'"
proof -
  obtain L w e tr where S: "S = (L, w, e, tr)" by (cases S)
  show ?thesis
  proof (cases e)
    case (Some out)
    with assms show ?thesis by (simp add: S turn_handler_def)
  next
    case None
    with assms(2) obtain out L' w' e' where run: "run_handler T i (L, w) = Some (out, (L', w'))"
        and S': "S' = (L', w', e', tr @ [i])"
      by (auto simp: S turn_handler_def bind_eq_Some_conv)
    show ?thesis
    proof (cases "base + length tr < 2 ^ 64")
      case True
      then have "loop_inv (base + length tr) (L, w)"
        using assms(1) by (simp add: S world_inv_def)
      from run_handler_inv [OF this True run] show ?thesis
        by (simp add: S' world_inv_def)
    next
      case False
      then show ?thesis by (simp add: S' world_inv_def)
    qed
  qed
qed

lemma dispatch_from_inv:
  assumes "dispatch_from h cur s = Some s'" and "\<And>i s s'. Q s \<Longrightarrow> h i s = Some s' \<Longrightarrow> Q s'" and "Q s"
  shows "Q s'"
proof -
  have "(\<forall>i s s'. Q s \<longrightarrow> h i s = Some s' \<longrightarrow> Q s') \<longrightarrow> Q s \<longrightarrow> Q s'"
  proof (rule dispatch_from.raw_induct [OF _ assms(1)])
    fix f h cur s s'
    assume IH: "\<And>h cur s y. f h cur s = Some y \<Longrightarrow>
        (\<forall>i s s'. Q s \<longrightarrow> h i s = Some s' \<longrightarrow> Q s') \<longrightarrow> Q s \<longrightarrow> Q y"
      and run: "(case cur of None \<Rightarrow> Some s
       | Some i \<Rightarrow> if io_events (fst s) i = None then None
          else let nxt = next_ready i (readyevents (fst s)) in h i s \<bind> f h nxt) = Some s'"
    show "(\<forall>i s s'. Q s \<longrightarrow> h i s = Some s' \<longrightarrow> Q s') \<longrightarrow> Q s \<longrightarrow> Q s'"
    proof (cases cur)
      case None
      with run show ?thesis by simp
    next
      case (Some i)
      with run obtain s1 where s1: "h i s = Some s1"
          "f h (next_ready i (readyevents (fst s))) s1 = Some s'"
        by (auto simp: Let_def bind_eq_Some_conv split: if_splits)
      from IH [OF s1(2)] s1(1) show ?thesis by blast
    qed
  qed
  then show ?thesis
    using assms(2,3) by blast
qed

lemma dispatch_inv:
  "bcd_io_event_dispatch_ready_list (turn_handler T) S = Some S' \<Longrightarrow> world_inv base S \<Longrightarrow> world_inv base S'"
  unfolding bcd_io_event_dispatch_ready_list_def
  by (rule dispatch_from_inv [where Q = "world_inv base"]) (auto intro: turn_handler_inv)

lemma enter_inv:
  assumes "bcd_io_enter Ts S tr = Some (out, S', tr')" and "world_inv base (fst S, snd S, None, tr)"
  shows "world_inv base (fst S', snd S', None, tr')"
  using assms
proof (induction Ts S tr rule: bcd_io_enter.induct)
  case (1 S tr)
  then show ?case by simp
next
  case (2 T Ts S tr)
  obtain L w where S: "S = (L, w)" by (cases S)
  let ?r = "tn_epoll T (if \<not> bcd_io_event_ready_list_is_empty (fst S) then 0 else - 1)"
  show ?case
  proof (cases ?r)
    case (Failed e)
    show ?thesis
    proof (cases "e = E_INTR")
      case True
      with Failed "2.prems" show ?thesis
        using "2.IH"(2) [of e] by simp
    next
      case False
      with Failed "2.prems" show ?thesis
        by (cases e) auto
    qed
  next
    case (Ok evs)
    note run = "2.prems"(1) [unfolded bcd_io_enter.simps Ok io_result.case]
    obtain L1 L2 w2 e2 tr2 where L1: "epoll_collect evs L = Some L1"
        and d: "bcd_io_event_dispatch_ready_list (turn_handler T) (L1, w, None, tr) = Some (L2, w2, e2, tr2)"
      using run by (auto simp: S bind_eq_Some_conv)
    have "world_inv base (L1, w, None, tr)"
      using "2.prems"(2) epoll_collect_inv [OF _ L1] by (simp add: S world_inv_def)
    from dispatch_inv [OF d this] have inv: "world_inv base (L2, w2, e2, tr2)" .
    show ?thesis
    proof (cases e2)
      case None
      with run L1 d have "bcd_io_enter Ts (L2, w2) tr2 = Some (out, S', tr')"
        by (simp add: S)
      moreover have "world_inv base (fst (L2, w2), snd (L2, w2), None, tr2)"
        using inv None by simp
      ultimately show ?thesis
        using "2.IH"(1) [unfolded S fst_conv snd_conv, OF Ok [unfolded S fst_conv] L1 d refl refl refl None]
        by simp
    next
      case (Some o2)
      with run L1 d inv show ?thesis
        by (auto simp: S world_inv_def)
    qed
  qed
qed


text \<open>
  C6: the monitor's invariant holds for as long as it runs: whatever arrives on whatever
  descriptor in whatever order, whoever connects, and however the loop ends, the ready queue
  agrees with the flags, every client's session is well-formed and the two lists are
  duplicate-free with the right counts, no longer than the number of handlers that ran.
\<close>

theorem bcd_io_enter_invariant:
  assumes "loop_inv n S" and "bcd_io_enter Ts S [] = Some (out, S', tr)" and "n + length tr < 2 ^ 64"
  shows "loop_inv (n + length tr) S'"
proof -
  have "world_inv n (fst S, snd S, None, [])"
    using assms(1,3) by (simp add: world_inv_def)
  from enter_inv [OF assms(2) this] assms(3) show ?thesis
    by (simp add: world_inv_def)
qed

section \<open>A round of clients\<close>

definition clients_ready :: "io_payload io_loop \<times> loop_world \<Rightarrow> bool" where
  "clients_ready S \<longleftrightarrow> ready_ok (fst S) \<and> (\<forall>i \<in> set (readyevents (fst S)). client_at i (fst S))"

lemma turn_handler_clients:
  assumes I: "clients_ready (L, w)" and i: "i \<in> set (readyevents L)"
    and run: "turn_handler T i (L, w) = Some (L', w')"
  shows "clients_ready (L', w') \<and>
       (readyevents L' = readyevents L \<or> readyevents L' = remove1 i (readyevents L)) \<and>
       (\<forall>j. j \<noteq> i \<longrightarrow> io_events L j \<noteq> None \<longrightarrow> io_events L' j \<noteq> None)"
proof -
  obtain v e tr where w: "w = (v, e, tr)" by (cases w)
  have rok: "ready_ok L" and at: "client_at i L"
    using I i by (auto simp: clients_ready_def)
  then obtain ev c where ev: "io_events L i = Some ev" "ev_payload ev = Client c" "client_ok (Client c)"
    by (auto simp: client_at_def)
  show "clients_ready (L', w') \<and>
       (readyevents L' = readyevents L \<or> readyevents L' = remove1 i (readyevents L)) \<and>
       (\<forall>j. j \<noteq> i \<longrightarrow> io_events L j \<noteq> None \<longrightarrow> io_events L' j \<noteq> None)"
  proof (cases e)
    case (Some out)
    with run I show ?thesis by (simp add: turn_handler_def w)
  next
    case None
    with run ev obtain out v' where
      "bcd_handler_request_response (tn_env T i) i (L, v) = Some (out, (L', v'))"
      by (auto simp: turn_handler_def w run_handler_def bind_eq_Some_conv)
    note frame = client_handler_frame [OF rok ev this]
    have "client_at j L'" if j: "j \<in> set (readyevents L')" for j
    proof (cases "j = i")
      case True
      then show ?thesis using frame j by (auto simp: ready_ok_def)
    next
      case False
      then have "client_at j L"
        using frame j I by (auto simp: clients_ready_def dest: notin_set_remove1)
      then show ?thesis
        using frame False by (auto simp: client_at_def)
    qed
    with frame show ?thesis
      by (auto simp: clients_ready_def)
  qed
qed

interpretation clients: queue_handler clients_ready "turn_handler T" for T
  by unfold_locales (use turn_handler_clients in blast)+

text \<open>A client with a complete key-value request in its socket, and room for the answer.\<close>

record kv_request =
  rq_event :: nat
  rq_key :: cstr
  rq_value :: cstr
  rq_rest :: "byte list"

definition rq_payload :: "kv_request \<Rightarrow> byte list" where
  "rq_payload q = rq_key q @ 0 # rq_value q @ [0]"

definition pending :: "bcd_state \<Rightarrow> kv_request \<Rightarrow> bcd_client \<Rightarrow> bool" where
  "pending S q c \<longleftrightarrow>
     served (rq_event q) S c (packet_bytes BCD_OP_KV (rq_payload q) @ rq_rest q) \<and>
     cstr_ok (rq_key q) \<and> cstr_ok (rq_value q) \<and> rq_key q \<noteq> [] \<and>
     length (rq_payload q) \<le> BCD_PACKET_LIMIT \<and>
     (\<exists>k ws. wr_events (cl_env c) = Wr_room k # ws \<and> 8 \<le> k)"

definition answered :: "bcd_state \<Rightarrow> kv_request \<Rightarrow> bcd_client \<Rightarrow> bool" where
  "answered S q c \<longleftrightarrow>
     (\<exists>c'. served (rq_event q) S c' (rq_rest q) \<and>
        sent (cl_env c') = sent (cl_env c) @ packet_bytes BCD_OP_OK [])"

definition set_pair :: "kv_request \<Rightarrow> (cstr \<Rightarrow> cstr option) \<Rightarrow> cstr \<Rightarrow> cstr option" where
  "set_pair q m = m(rq_key q \<mapsto> rq_value q)"

lemma served_frame:
  "served i (L, w) c bs \<Longrightarrow> ready_ok L' \<Longrightarrow> io_events L' i = io_events L i \<Longrightarrow> served i (L', w') c bs"
  by (simp add: served_def)

lemma served_client:
  assumes "served i (L, w) c bs"
  obtains ev where "io_events L i = Some ev" "ev_payload ev = Client c" "client_ok (Client c)" "ready_ok L"
  using assms by (auto simp: served_def client_ok_def session_inv_def)

lemma turn_serves_one:
  assumes "pending (L, w) q c" and "env_errno (tn_env T (rq_event q)) = None"
    and "kv_ok (w_monitor w)" and "length (kv_list (w_monitor w)) < 2 ^ 64"
  shows "\<exists>L' w'. turn_handler T (rq_event q) (L, w, None, tr) =
      Some (L', w', None, tr @ [rq_event q]) \<and> answered (L', w') q c \<and> ready_ok L' \<and>
    (\<forall>j. j \<noteq> rq_event q \<longrightarrow> io_events L' j = io_events L j) \<and>
    w_monitor w' = kv_insert \<lparr>kv_key = rq_key q, kv_value = rq_value q\<rparr> (w_monitor w)"
proof -
  let ?i = "rq_event q" and ?d = "rq_payload q"
  have p: "served ?i (L, w) c (packet_bytes BCD_OP_KV ?d @ rq_rest q)" "cstr_ok (rq_key q)"
      "cstr_ok (rq_value q)" "rq_key q \<noteq> []" "length ?d \<le> BCD_PACKET_LIMIT"
    using assms(1) by (simp_all add: pending_def)
  obtain k ws where room: "wr_events (cl_env c) = Wr_room k # ws" "8 \<le> k"
    using assms(1) by (auto simp: pending_def)
  obtain ev where ev: "io_events L ?i = Some ev" "ev_payload ev = Client c" "client_ok (Client c)" "ready_ok L"
    using p(1) by (rule served_client)
  let ?st' = "kv_insert \<lparr>kv_key = rq_key q, kv_value = rq_value q\<rparr> (w_monitor w)"
  have perform: "bcd_perform_request (tn_env T ?i) s (w_monitor (snd (L, w))) = Some (Returns 0, s, ?st')"
    if "has_bytes s (packet_bytes BCD_OP_KV ?d) (8 + length ?d)" for s
    using perform_kv that p(2-5) assms(2) by (simp add: rq_payload_def)
  obtain S' c' where S': "bcd_handler_request_response (tn_env T ?i) ?i (L, w) = Some (Returns 0, S')"
      "w_monitor (snd S') = ?st'" "served ?i S' c' (rq_rest q)"
      "sent (cl_env c') = sent (cl_env c) @ packet_bytes BCD_OP_OK []"
    using handler_serves [OF p(1,5) room, of "tn_env T ?i" 0 ?st', OF perform] by blast
  obtain L' w' where "S' = (L', w')" by (cases S')
  with S' client_handler_frame [OF ev(4,1,2,3), of "tn_env T ?i" w "Returns 0" L' w'] ev(1,2) show ?thesis
    by (auto simp: turn_handler_def run_handler_def answered_def)
qed

lemma kv_insert_length_le:
  assumes "kv_ok st" and "length (kv_list st) < 2 ^ 64"
  shows "kv_ok (kv_insert kv st)" "length (kv_list (kv_insert kv st)) \<le> Suc (length (kv_list st))"
  using kvs.add_tracked [OF assms] kvs.add_length [OF assms] by auto

lemma run_all_serves:
  assumes "distinct (map rq_event qs)" and "ready_ok L"
    and "\<And>q. q \<in> set qs \<Longrightarrow> pending (L, w) q (c q)"
    and "\<And>i. env_errno (tn_env T i) = None"
    and "kv_ok (w_monitor w)" and "length (kv_list (w_monitor w)) + length qs < 2 ^ 64"
  shows "\<exists>L' w'. run_all (turn_handler T) (map rq_event qs) (L, w, None, tr) =
      Some (L', w', None, tr @ map rq_event qs) \<and> ready_ok L' \<and>
    (\<forall>j. j \<notin> rq_event ` set qs \<longrightarrow> io_events L' j = io_events L j) \<and>
    (\<forall>q \<in> set qs. answered (L', w') q (c q)) \<and>
    kv_map (w_monitor w') = fold set_pair qs (kv_map (w_monitor w))"
  using assms(1-3,5-)
proof (induction qs arbitrary: L w tr)
  case Nil
  then show ?case by simp
next
  case (Cons q qs)
  let ?kv = "\<lparr>kv_key = rq_key q, kv_value = rq_value q\<rparr>" and ?st = "w_monitor w"
  have len: "length (kv_list ?st) < 2 ^ 64"
    using Cons.prems(5) by simp
  have "pending (L, w) q (c q)"
    using Cons.prems(3) by simp
  from turn_serves_one [OF this assms(4) Cons.prems(4) len, of tr] obtain L1 w1
    where one: "turn_handler T (rq_event q) (L, w, None, tr) = Some (L1, w1, None, tr @ [rq_event q])"
      "answered (L1, w1) q (c q)" "ready_ok L1"
      "\<And>j. j \<noteq> rq_event q \<Longrightarrow> io_events L1 j = io_events L j" "w_monitor w1 = kv_insert ?kv ?st"
    by blast
  have "pending (L1, w1) p (c p)" if "p \<in> set qs" for p
  proof -
    have "rq_event p \<noteq> rq_event q"
      using Cons.prems(1) that by (metis distinct.simps(2) image_eqI list.set_map list.simps(9))
    moreover have "pending (L, w) p (c p)"
      using Cons.prems(3) that by simp
    ultimately show ?thesis
      using one(3,4) by (auto simp: pending_def intro: served_frame)
  qed
  moreover have "kv_ok (w_monitor w1)" "length (kv_list (w_monitor w1)) + length qs < 2 ^ 64"
    using kv_insert_length_le [OF Cons.prems(4) len, of ?kv] Cons.prems(5) unfolding one(5) by auto
  moreover have "distinct (map rq_event qs)"
    using Cons.prems(1) by simp
  ultimately obtain L2 w2 where rest: "run_all (turn_handler T) (map rq_event qs) (L1, w1, None, tr @ [rq_event q]) =
        Some (L2, w2, None, (tr @ [rq_event q]) @ map rq_event qs)" "ready_ok L2"
      "\<forall>j. j \<notin> rq_event ` set qs \<longrightarrow> io_events L2 j = io_events L1 j"
      "\<forall>p \<in> set qs. answered (L2, w2) p (c p)"
      "kv_map (w_monitor w2) = fold set_pair qs (kv_map (w_monitor w1))"
    using Cons.IH [OF _ one(3), of w1 "tr @ [rq_event q]"] by blast
  have "rq_event q \<notin> rq_event ` set qs"
    using Cons.prems(1) by simp
  with one(2) rest(2,3) have "answered (L2, w2) q (c q)"
    by (auto simp: answered_def intro: served_frame)
  moreover have "kv_map (w_monitor w1) = set_pair q (kv_map ?st)"
    using kv_map_insert [OF Cons.prems(4) len, of ?kv] by (simp add: one(5) set_pair_def)
  moreover have "run_all (turn_handler T) (map rq_event (q # qs)) (L, w, None, tr) =
      Some (L2, w2, None, tr @ map rq_event (q # qs))"
    using one(1) rest(1) by simp
  moreover have "\<forall>j. j \<notin> rq_event ` set (q # qs) \<longrightarrow> io_events L2 j = io_events L j"
    using one(4) rest(3) by simp
  ultimately show ?case
    using rest(2,4,5) by (intro exI [of _ L2] exI [of _ w2]) simp
qed


text \<open>
  C11: one round serves a queue of key-value requests. When every event in the queue is a
  client with a complete key-value request in its socket, with a key that is not empty, and
  room for the answer, one pass over the queue runs every handler once in queue order, answers
  every client with exactly the acknowledgement, leaves what follows each request in its
  socket, and the monitor's map is updated by the requests in queue order; no other event is
  touched. Nothing is said of a queue with other events, incomplete requests or other
  requests.
\<close>

theorem bcd_round_serves_all:
  assumes "ready_ok L" and "readyevents L = map rq_event qs"
    and "\<And>q. q \<in> set qs \<Longrightarrow> pending (L, w) q (c q)"
    and "\<And>i. env_errno (tn_env T i) = None"
    and "kv_ok (w_monitor w)" and "length (kv_list (w_monitor w)) + length qs < 2 ^ 64"
  shows "\<exists>L' w'. bcd_io_event_dispatch_ready_list (turn_handler T) (L, w, None, tr) =
      Some (L', w', None, tr @ map rq_event qs) \<and>
    (\<forall>q \<in> set qs. answered (L', w') q (c q)) \<and>
    kv_map (w_monitor w') = fold set_pair qs (kv_map (w_monitor w)) \<and>
    (\<forall>j. j \<notin> set (readyevents L) \<longrightarrow> io_events L' j = io_events L j)"
proof -
  have d: "distinct (map rq_event qs)"
    using assms(1,2) by (metis ready_ok_def)
  have "client_at i L" if i: "i \<in> set (readyevents L)" for i
  proof -
    obtain q where "q \<in> set qs" "i = rq_event q"
      using i assms(2) by auto
    then have "served i (L, w) (c q) (packet_bytes BCD_OP_KV (rq_payload q) @ rq_rest q)"
      using assms(3) [of q] by (simp add: pending_def)
    then show ?thesis
      by (rule served_client) (auto simp: client_at_def)
  qed
  then have "clients_ready (L, w, None, tr)"
    using assms(1) by (simp add: clients_ready_def)
  note round = clients.dispatch_run_all [OF this assms(1)]
  from run_all_serves [OF d assms(1) assms(3-6), of tr] show ?thesis
    unfolding round assms(2) by auto
qed

section \<open>Examples\<close>

text \<open>A monitor whose pipe to the parent is ready.\<close>

definition watch_state :: bcd_state where
  "watch_state =
     (\<lparr>io_events = [0 \<mapsto> \<lparr>ev_fd = 9, ev_mask = 0, ev_in_ready = False, ev_payload = Watch\<rparr>],
       readyevents = []\<rparr>,
      \<lparr>w_monitor = start_monitor (bcd_config_init_v1 1) 5, w_closed = []\<rparr>)"

definition watch_turn :: "(nat \<times> u32) list io_result \<Rightarrow> io_turn" where
  "watch_turn r = \<lparr>tn_epoll = (\<lambda>_. r), tn_accepts = (\<lambda>_. []), tn_env = (\<lambda>_. example_env [])\<rparr>"

lemma loop_inv_watch: "loop_inv 0 watch_state"
  using monitor_ok_start by (auto simp: loop_inv_def watch_state_def ready_ok_def monitor_within_def client_ok_def)

theorem bcd_io_enter_invariant_witness:
  "\<exists>S'. bcd_io_enter [watch_turn (Ok [(0, 1)]), watch_turn (Failed (E_OTHER 9))] watch_state [] =
     Some (Returns (-1), S', [0]) \<and> loop_inv 1 S'"
proof -
  have "\<exists>S'. bcd_io_enter [watch_turn (Ok [(0, 1)]), watch_turn (Failed (E_OTHER 9))] watch_state [] =
     Some (Returns (-1), S', [0])"
    by (simp add: watch_turn_def watch_state_def event_defs bcd_io_event_dispatch_ready_list_def
        dispatch_from.simps turn_handler_def run_handler_def bcd_handler_sb_def bcd_io_event_has_error_def
        EPOLLERR_def)
  then obtain S' where run: "bcd_io_enter [watch_turn (Ok [(0, 1)]), watch_turn (Failed (E_OTHER 9))]
      watch_state [] = Some (Returns (-1), S', [0])" by blast
  from bcd_io_enter_invariant [OF loop_inv_watch run] run show ?thesis by simp
qed

theorem bcd_handler_isolated_witness:
  "\<exists>L' w'. bcd_handler_request_response (example_env []) 0 (example_state (example_client [] [])) =
     Some (Returns 0, (L', w')) \<and> ready_ok L' \<and> (client_at 0 L' \<or> io_events L' 0 = None)"
proof -
  let ?c = "example_client [] []"
  have "\<exists>L' w'. bcd_handler_request_response (example_env []) 0 (example_state ?c) =
     Some (Returns 0, (L', w'))"
    by (simp add: bcd_handler_request_response_def example_state_def example_client_def
        zero_session_def bcd_read_request_def read_request_loop.simps [of 0] sizeof_packet_def
        size_sub_def store_run_def wait_for_edge_def event_defs)
  then obtain L' w' where run: "bcd_handler_request_response (example_env []) 0
      (fst (example_state ?c), snd (example_state ?c)) = Some (Returns 0, (L', w'))" by auto
  have c: "client_ok (Client ?c)"
    unfolding example_client_def by (rule client_ok_zero)
  from bcd_handler_isolated [OF example_state_event(1,2) _ c run] run show ?thesis by auto
qed

text \<open>Two clients that set the same key.\<close>

definition two_clients :: bcd_state where
  "two_clients =
     (\<lparr>io_events = [
         0 \<mapsto> \<lparr>ev_fd = 9, ev_mask = 1, ev_in_ready = True, ev_payload = Client (example_client
            [Rd_data (packet_bytes BCD_OP_KV [97, 0, 99, 0] @ [7])] [Wr_room 100])\<rparr>,
         1 \<mapsto> \<lparr>ev_fd = 8, ev_mask = 1, ev_in_ready = True, ev_payload = Client (example_client
            [Rd_data (packet_bytes BCD_OP_KV [97, 0, 98, 0])] [Wr_room 100])\<rparr>],
       readyevents = [1, 0]\<rparr>,
      \<lparr>w_monitor = start_monitor (bcd_config_init_v1 1) 5, w_closed = []\<rparr>)"

definition two_requests :: "kv_request list" where
  "two_requests = [\<lparr>rq_event = 1, rq_key = [97], rq_value = [98], rq_rest = []\<rparr>,
     \<lparr>rq_event = 0, rq_key = [97], rq_value = [99], rq_rest = [7]\<rparr>]"

definition client_of :: "kv_request \<Rightarrow> bcd_client" where
  "client_of q = example_client
     [Rd_data (packet_bytes BCD_OP_KV (rq_payload q) @ rq_rest q)] [Wr_room 100]"

lemma ready_ok_two_clients: "ready_ok (fst two_clients)"
  by (auto simp: two_clients_def ready_ok_def)

lemma pending_two:
  assumes "q \<in> set two_requests"
  shows "pending (fst two_clients, snd two_clients) q (client_of q)"
  using assms session_ok_zero ready_ok_two_clients
  by (auto simp: two_requests_def pending_def served_def client_of_def rq_payload_def example_client_def
      BCD_PACKET_LIMIT_def two_clients_def zero_session_def)

theorem bcd_round_serves_all_witness:
  "\<exists>L' w'. bcd_io_event_dispatch_ready_list (turn_handler (watch_turn (Ok [])))
      (fst two_clients, snd two_clients, None, []) = Some (L', w', None, [1, 0]) \<and>
    kv_map (w_monitor w') [97] = Some [99]"
proof -
  have q: "readyevents (fst two_clients) = map rq_event two_requests"
    by (simp add: two_clients_def two_requests_def)
  have env: "env_errno (tn_env (watch_turn (Ok [])) i) = None" for i
    by (simp add: watch_turn_def example_env_def)
  have mon: "w_monitor (snd two_clients) = example_start"
    by (simp add: two_clients_def)
  show ?thesis
    using bcd_round_serves_all [OF ready_ok_two_clients q pending_two env, of "[]"] kv_ok_start
    by (auto simp: mon two_requests_def set_pair_def)
qed

end
