(* ===== verification/Bcd_OS.thy ===== *)
theory Bcd_OS
  imports Bcd_Client
begin

text \<open>
  The operating-system layer of bcd: command name, CPU affinity, OOM score, users and groups,
  ownership and privileges, signal handlers. What the system calls and the C library answer
  are arguments: a result for one call, a list for calls in a loop. Calls that change the
  system are recorded as actions.
\<close>

section \<open>The process\<close>

text \<open>\<open>prctl(PR_SET_NAME, title)\<close>: its error; \<open>None\<close> as a title is NULL.\<close>

definition bcd_setcomm :: "cstr option \<Rightarrow> io_errno option \<Rightarrow> int" where
  "bcd_setcomm title prctl =
     (case title of
        None \<Rightarrow> -1
      | Some t \<Rightarrow> if t = [] \<or> 15 < length t then -1 else if prctl = None then 0 else -1)"

definition bcd_set_cpu_affinity :: "int \<Rightarrow> (int \<Rightarrow> io_errno option) \<Rightarrow> int" where
  "bcd_set_cpu_affinity core_id setaffinity =
     (if core_id < 0 then -1 else if setaffinity core_id = None then 0 else -1)"

section \<open>OOM score\<close>

definition EEXIST :: io_errno where "EEXIST = E_OTHER 17"
definition ENOENT :: io_errno where "ENOENT = E_OTHER 2"

definition PATH_MAX :: nat where "PATH_MAX = 4096"

definition oom_path :: "u32 \<Rightarrow> string \<Rightarrow> cstr" where
  "oom_path pid name = cstr_of ''/proc/'' @ pid_string pid @ cstr_of (''/'' @ name)"

text \<open>
  The loop that opens the file, with its variables \<open>i\<close> and \<open>path\<close>: the descriptor or the
  error with its message, and the paths tried. \<open>None\<close>: the list of results is too short.
\<close>

fun oom_open ::
    "u32 \<Rightarrow> nat \<Rightarrow> cstr \<Rightarrow> int io_result list \<Rightarrow> ((bcd_err + int) \<times> cstr list) option" where
  "oom_open pid i path opens =
     (if PATH_MAX \<le> length path
      then Some (Inl (err_set None ''failed to construct oom path''), [])
      else case opens of
        [] \<Rightarrow> None
      | Ok fd # _ \<Rightarrow> Some (Inr fd, [path])
      | Failed e # rs \<Rightarrow>
          if e \<noteq> EEXIST \<or> 1 < i then Some (Inl (err_set (Some e) ''failed to open oom path''), [path])
          else map_option (\<lambda>(r, ps). (r, path # ps))
                 (oom_open pid (i + 1) (oom_path pid ''oom_score_adj'') rs))"

text \<open>
  The loop that writes the score: \<open>ac\<close> counts, but each turn writes the score from its first
  byte. The result is the error and the bytes the file received.
\<close>

fun oom_write :: "byte list \<Rightarrow> nat \<Rightarrow> wr_event list \<Rightarrow> byte list \<Rightarrow> io_errno option \<times> byte list" where
  "oom_write score ac [] out = (Some E_AGAIN, out)"
| "oom_write score ac (ev # evs) out =
     (case fst (sys_write (length score) (ev # evs)) of
        Failed E_INTR \<Rightarrow> oom_write score ac evs out
      | Failed e \<Rightarrow> (Some e, out)
      | Ok wr \<Rightarrow>
          if ac + wr < length score then oom_write score (ac + wr) evs (out @ take wr score)
          else (None, out @ take wr score))"

text \<open>The descriptor is closed on both ways out.\<close>

definition bcd_os_oom_adjust ::
    "u32 \<Rightarrow> int io_result list \<Rightarrow> wr_event list \<Rightarrow>
     (int \<times> bcd_err option \<times> cstr list \<times> byte list) option" where
  "bcd_os_oom_adjust pid opens writes = do {
     (r, paths) \<leftarrow> oom_open pid 0 (oom_path pid ''oom_adj'') opens;
     case r of
       Inl err \<Rightarrow> Some (-1, Some err, paths, [])
     | Inr fd \<Rightarrow>
         (let (e, out) = oom_write (cstr_of ''-17'') 0 writes []
          in Some (case e of
               None \<Rightarrow> (0, None, paths, out)
             | Some e \<Rightarrow> (-1, Some (err_set (Some e) ''failed to adjust OOM score''), paths, out)))
   }"

section \<open>Users and groups\<close>

text \<open>
  The build with \<open>getpwnam_r\<close> and \<open>getgrnam_r\<close>. \<open>sysconf\<close>, \<open>malloc\<close> (its error) and the two lookups: the id, or whether the lookup failed
  with an error and \<open>errno\<close>.
\<close>

record user_db =
  db_pw_size :: int
  db_gr_size :: int
  db_malloc :: "int \<Rightarrow> io_errno option"
  db_user :: "cstr \<Rightarrow> bool \<times> io_errno + u32"
  db_group :: "cstr \<Rightarrow> bool \<times> io_errno + u32"

definition lookup_error :: "bool \<times> io_errno \<Rightarrow> string \<Rightarrow> bcd_err" where
  "lookup_error r msg = err_set (if fst r then Some (snd r) else None) msg"

text \<open>\<open>None\<close>: the name is NULL, which the lookup dereferences.\<close>

definition bcd_uid_name ::
    "user_db \<Rightarrow> u32 \<Rightarrow> cstr option \<Rightarrow> (int \<times> u32 \<times> bcd_err option) option" where
  "bcd_uid_name db uid name =
     (let n_buffer = (if db_pw_size db = -1 then 16384 else db_pw_size db)
      in case db_malloc db n_buffer of
           Some e \<Rightarrow> Some (-1, uid, Some (err_set (Some e) ''failed to allocate internal buffer''))
         | None \<Rightarrow> do {
             name \<leftarrow> name;
             Some (case db_user db name of
                     Inl r \<Rightarrow> (-1, uid, Some (lookup_error r ''failed to find user for chown''))
                   | Inr u \<Rightarrow> (0, u, None))
           })"

definition bcd_gid_name ::
    "user_db \<Rightarrow> u32 \<Rightarrow> cstr option \<Rightarrow> (int \<times> u32 \<times> bcd_err option) option" where
  "bcd_gid_name db gid name =
     (let n_buffer = (if db_gr_size db = -1 then 16384 else db_gr_size db)
      in case db_malloc db n_buffer of
           Some e \<Rightarrow> Some (-1, gid, Some (err_set (Some e) ''failed to allocate internal buffer''))
         | None \<Rightarrow> do {
             name \<leftarrow> name;
             Some (case db_group db name of
                     Inl r \<Rightarrow> (-1, gid, Some (lookup_error r ''failed to find group''))
                   | Inr g \<Rightarrow> (0, g, None))
           })"

datatype os_action = Chown cstr u32 u32 | Setgid u32 | Setuid u32

text \<open>The errors of \<open>chown\<close>, \<open>setgid\<close> and \<open>setuid\<close>, and the effective ids.\<close>

record os_privileges =
  op_error :: "os_action \<Rightarrow> io_errno option"
  op_egid :: u32
  op_euid :: u32

definition bcd_chown ::
    "user_db \<Rightarrow> os_privileges \<Rightarrow> bcd_config_internal \<Rightarrow> cstr \<Rightarrow>
     (int \<times> bcd_err option \<times> os_action list) option" where
  "bcd_chown db os cf path =
     (if cf_chown_user cf = None then Some (0, None, [])
      else do {
        (r, uid, e) \<leftarrow> bcd_uid_name db 0 (cf_chown_user cf);
        if r = -1 then Some (-1, e, [])
        else do {
          (r, gid, e) \<leftarrow> (if cf_chown_group cf = None then Some (0, -1, None)
                          else bcd_gid_name db 0 (cf_chown_group cf));
          if r = -1 then Some (-1, e, [])
          else Some (case op_error os (Chown path uid gid) of
                 Some e \<Rightarrow> (-1, Some (err_set (Some e) ''failed to set permissions''), [])
               | None \<Rightarrow> (0, None, [Chown path uid gid]))
        }
      })"

text \<open>The end of \<open>bcd_suid\<close>, after the actions \<open>acts\<close>.\<close>

definition suid_user ::
    "user_db \<Rightarrow> os_privileges \<Rightarrow> bcd_config_internal \<Rightarrow> os_action list \<Rightarrow>
     (int \<times> bcd_err option \<times> os_action list) option" where
  "suid_user db os cf acts =
     (if cf_chown_user cf = None then Some (0, None, acts)
      else do {
        (r, uid, e) \<leftarrow> bcd_uid_name db 0 (cf_suid_user cf);
        if r = -1 then Some (-1, e, acts)
        else if op_euid os = uid then Some (0, None, acts)
        else Some (case op_error os (Setuid uid) of
               Some e \<Rightarrow> (-1, Some (err_set (Some e) ''failed to drop user privileges''), acts)
             | None \<Rightarrow> (0, None, acts @ [Setuid uid]))
      })"

definition bcd_suid ::
    "user_db \<Rightarrow> os_privileges \<Rightarrow> bcd_config_internal \<Rightarrow>
     (int \<times> bcd_err option \<times> os_action list) option" where
  "bcd_suid db os cf =
     (if cf_chown_group cf = None then suid_user db os cf []
      else do {
        (r, gid, e) \<leftarrow> bcd_gid_name db 0 (cf_chown_group cf);
        if r = -1 then Some (-1, e, [])
        else if op_egid os = gid then suid_user db os cf []
        else case op_error os (Setgid gid) of
               Some e \<Rightarrow> Some (-1, Some (err_set (Some e) ''failed to drop group privileges''), [])
             | None \<Rightarrow> suid_user db os cf [Setgid gid]
      })"

section \<open>The clock\<close>

definition bcd_abort :: "bcd_monitor \<Rightarrow> bcd_monitor" where
  "bcd_abort st = snd (bcd_error BCD_EVENT_FATAL None ''unrecoverable internal error'' 0 st)"

text \<open>
  \<open>clock\<close> is what \<open>clock_gettime\<close> stores, if it succeeds. \<open>bcd_abort\<close> only reports and returns,
  so the function goes on to return the local variable as it was (\<open>stale\<close>).
\<close>

definition bcd_os_time :: "int option \<Rightarrow> int \<Rightarrow> bcd_monitor \<Rightarrow> int \<times> bcd_monitor" where
  "bcd_os_time clock stale st =
     (case clock of Some t \<Rightarrow> (t, st) | None \<Rightarrow> (stale, bcd_abort st))"

section \<open>Signal handlers\<close>

datatype fatal_signal = SIGSEGV | SIGFPE | SIGABRT | SIGBUS | SIGILL

fun signal_number :: "fatal_signal \<Rightarrow> int" where
  "signal_number SIGSEGV = 11"
| "signal_number SIGFPE = 8"
| "signal_number SIGABRT = 6"
| "signal_number SIGBUS = 7"
| "signal_number SIGILL = 4"

datatype sa_handler = Handler ptr | bcd_default_signal_handler | bcd_default_signal_handler_raise

definition BCD_SIGACTION_RAISE :: u32 where "BCD_SIGACTION_RAISE = 1"

text \<open>\<open>sigaction\<close> succeeds for the signals of \<open>ok\<close>; \<open>tab\<close> is the table of handlers.\<close>

fun sigaction_loop ::
    "(fatal_signal \<Rightarrow> bool) \<Rightarrow> sa_handler \<Rightarrow> fatal_signal list \<Rightarrow> (fatal_signal \<Rightarrow> sa_handler option) \<Rightarrow>
     int \<times> (fatal_signal \<Rightarrow> sa_handler option)" where
  "sigaction_loop ok h [] tab = (0, tab)"
| "sigaction_loop ok h (s # ss) tab =
     (if ok s then sigaction_loop ok h ss (tab(s \<mapsto> h)) else (signal_number s, tab))"

definition bcd_sigaction ::
    "(fatal_signal \<Rightarrow> bool) \<Rightarrow> ptr \<Rightarrow> u32 \<Rightarrow> (fatal_signal \<Rightarrow> sa_handler option) \<Rightarrow>
     int \<times> (fatal_signal \<Rightarrow> sa_handler option)" where
  "bcd_sigaction ok h flags tab =
     sigaction_loop ok
       (if h \<noteq> NULL then Handler h
        else if and flags BCD_SIGACTION_RAISE \<noteq> 0 then bcd_default_signal_handler_raise
        else bcd_default_signal_handler)
       [SIGSEGV, SIGFPE, SIGABRT, SIGBUS, SIGILL, SIGFPE] tab"


section \<open>What the configuration achieves\<close>

text \<open>
  \<open>bcd_suid\<close> looks at the wrong members: a configuration that asks to drop privileges
  (\<open>suid\<close>) but not to change the owner of the socket (\<open>chown\<close>) changes no id and reports
  success; one that asks for an owner but not to drop privileges looks up the user NULL; and
  the group the process changes to is the socket's, not the one it was told to.
\<close>

theorem bcd_suid_ignores_suid:
  assumes "\<And>n. db_malloc db n = None"
  shows "bcd_suid db os (cf\<lparr>cf_chown_user := None, cf_chown_group := None\<rparr>) = Some (0, None, []) \<and>
    bcd_suid db os (cf\<lparr>cf_chown_user := Some u, cf_chown_group := None, cf_suid_user := None\<rparr>) = None \<and>
    (case db_group db g of
       Inl r \<Rightarrow> True
     | Inr gid \<Rightarrow> bcd_suid db os (cf\<lparr>cf_chown_user := None, cf_chown_group := Some g\<rparr>) =
         (if op_egid os = gid then Some (0, None, [])
          else case op_error os (Setgid gid) of
                 None \<Rightarrow> Some (0, None, [Setgid gid])
               | Some e \<Rightarrow> Some (-1, Some (err_set (Some e) ''failed to drop group privileges''), [])))"
  using assms
  by (auto simp: bcd_suid_def suid_user_def bcd_uid_name_def bcd_gid_name_def Let_def
      split: sum.splits option.splits)

definition example_db :: user_db where
  "example_db = \<lparr>db_pw_size = 1024, db_gr_size = -1, db_malloc = (\<lambda>_. None),
     db_user = (\<lambda>n. if n = [97] then Inr 7 else Inl (False, E_INTR)),
     db_group = (\<lambda>n. if n = [98] then Inr 8 else Inl (False, E_INTR))\<rparr>"

definition root_privileges :: os_privileges where
  "root_privileges = \<lparr>op_error = (\<lambda>_. None), op_egid = 0, op_euid = 0\<rparr>"

theorem bcd_suid_ignores_suid_witness:
  "bcd_suid example_db root_privileges ((bcd_config_init_v1 5)\<lparr>cf_suid_user := Some [97],
     cf_chown_user := None, cf_chown_group := None\<rparr>) = Some (0, None, [])"
  using bcd_suid_ignores_suid [of example_db root_privileges "(bcd_config_init_v1 5)\<lparr>cf_suid_user := Some [97]\<rparr>"]
  by (simp add: example_db_def)

text \<open>
  With both kinds of names configured, the owner is changed before the ids, all from the
  databases: \<open>bcd_chown\<close> and \<open>bcd_suid\<close> as the child calls them, one after the other.
\<close>

lemma chown_then_suid:
  assumes "\<And>n. db_malloc db n = None" and "\<And>a. op_error os a = None"
    and "cf_chown_user cf = Some cu" and "cf_chown_group cf = Some cg" and "cf_suid_user cf = Some su"
    and "db_user db cu = Inr uid" and "db_group db cg = Inr gid" and "db_user db su = Inr uid'"
  shows "bcd_chown db os cf path = Some (0, None, [Chown path uid gid]) \<and>
    bcd_suid db os cf = Some (0, None,
      (if op_egid os = gid then [] else [Setgid gid]) @ (if op_euid os = uid' then [] else [Setuid uid']))"
  using assms
  by (simp add: bcd_chown_def bcd_suid_def suid_user_def bcd_uid_name_def bcd_gid_name_def Let_def)

text \<open>
  The score is written when the old interface exists and the write is whole. Where the old
  file is missing the new one is never tried: the code expects \<open>EEXIST\<close>, but \<open>open\<close> without
  \<open>O_CREAT\<close> answers \<open>ENOENT\<close>. A write that is cut short is started over, so the file
  receives more than the score.
\<close>

lemma oom_path_short: "length (oom_path pid ''oom_adj'') < PATH_MAX \<longleftrightarrow> length (pid_string pid) < 4082"
  by (simp add: oom_path_def cstr_of_def PATH_MAX_def)

theorem bcd_os_oom_adjust_cases:
  assumes "length (pid_string pid) < 4082"
  shows "bcd_os_oom_adjust pid (Ok fd # rs) (Wr_room (k + 3) # ws) =
      Some (0, None, [oom_path pid ''oom_adj''], cstr_of ''-17'') \<and>
    bcd_os_oom_adjust pid (Failed ENOENT # rs) ws =
      Some (-1, Some (err_set (Some ENOENT) ''failed to open oom path''), [oom_path pid ''oom_adj''], []) \<and>
    bcd_os_oom_adjust pid (Ok fd # rs) (Wr_room 1 # Wr_room (k + 3) # ws) =
      Some (0, None, [oom_path pid ''oom_adj''], cstr_of ''--17'')"
proof -
  have "\<not> PATH_MAX \<le> length (oom_path pid ''oom_adj'')"
    using assms oom_path_short [of pid] by linarith
  then show ?thesis
    by (simp add: bcd_os_oom_adjust_def cstr_of_def EEXIST_def ENOENT_def Let_def)
qed

text \<open>Installing the handlers stops at the first signal \<open>sigaction\<close> refuses.\<close>

lemma sigaction_loop_ok:
  "(\<And>s. s \<in> set ss \<Longrightarrow> ok s) \<Longrightarrow>
    sigaction_loop ok h ss tab = (0, \<lambda>s. if s \<in> set ss then Some h else tab s)"
  by (induction ss arbitrary: tab) auto

lemma bcd_sigaction_all:
  assumes "\<And>s. ok s"
  shows "bcd_sigaction ok h flags tab =
    (0, \<lambda>_. Some (if h \<noteq> NULL then Handler h
        else if and flags BCD_SIGACTION_RAISE \<noteq> 0 then bcd_default_signal_handler_raise
        else bcd_default_signal_handler))"
proof -
  have "s \<in> set [SIGSEGV, SIGFPE, SIGABRT, SIGBUS, SIGILL, SIGFPE]" for s
    by (cases s) simp_all
  then show ?thesis
    unfolding bcd_sigaction_def by (subst sigaction_loop_ok) (use assms in auto)
qed

end
