(* ===== verification/Bcd_Startup.thy ===== *)
theory Bcd_Startup
  imports Bcd_Loop Bcd_OS
begin

text \<open>
  How bcd starts: the parent's \<open>bcd_init\<close>, the fork, and the monitor's \<open>bcd_child\<close>, with the
  pipes between the two processes and the socket the monitor listens on. A process has the
  set of its open descriptors; a \<open>close\<close> of a descriptor that is not open is recorded, and so
  is each path a socket of the process was bound to.
\<close>

section \<open>Descriptors and pipes\<close>

record bcd_pipe =
  pipe_rd :: int
  pipe_wr :: int

record bcd_process =
  pr_open :: "int set"
  pr_stray :: "int list"
  pr_bound :: "(int \<times> cstr) list"

definition pr_add :: "int \<Rightarrow> bcd_process \<Rightarrow> bcd_process" where
  "pr_add fd P = P\<lparr>pr_open := insert fd (pr_open P)\<rparr>"

definition pr_close :: "int \<Rightarrow> bcd_process \<Rightarrow> bcd_process" where
  "pr_close fd P =
     (if fd \<in> pr_open P then P\<lparr>pr_open := pr_open P - {fd}\<rparr> else P\<lparr>pr_stray := pr_stray P @ [fd]\<rparr>)"

definition pr_bind :: "int \<Rightarrow> cstr \<Rightarrow> bcd_process \<Rightarrow> bcd_process" where
  "pr_bind fd path P = P\<lparr>pr_bound := pr_bound P @ [(fd, path)]\<rparr>"

text \<open>\<open>fcntl\<close>: the flags of a descriptor, whether they can be set, and the error.\<close>

record fcntl_env =
  fc_getfl :: "int \<Rightarrow> int"
  fc_setfl :: "int \<Rightarrow> u32 \<Rightarrow> bool"
  fc_errno :: io_errno

definition prepare_fd :: "fcntl_env \<Rightarrow> int \<Rightarrow> int" where
  "prepare_fd F fd = fst (bcd_io_fd_prepare (fc_getfl F fd) (fc_setfl F fd))"

definition bcd_pipe_ensure_readonly :: "bcd_pipe \<Rightarrow> bcd_process \<Rightarrow> bcd_pipe \<times> bcd_process" where
  "bcd_pipe_ensure_readonly p P = (p\<lparr>pipe_wr := -1\<rparr>, pr_close (pipe_wr p) P)"

definition bcd_pipe_ensure_writeonly :: "bcd_pipe \<Rightarrow> bcd_process \<Rightarrow> bcd_pipe \<times> bcd_process" where
  "bcd_pipe_ensure_writeonly p P = (p\<lparr>pipe_rd := -1\<rparr>, pr_close (pipe_rd p) P)"

definition bcd_pipe_deinit :: "bcd_pipe \<Rightarrow> bcd_process \<Rightarrow> bcd_process" where
  "bcd_pipe_deinit p P = pr_close (pipe_wr p) (pr_close (pipe_rd p) P)"

definition bcd_pipe_init ::
    "(int \<times> int) io_result \<Rightarrow> fcntl_env \<Rightarrow> bcd_pipe \<Rightarrow> bcd_process \<Rightarrow>
     int \<times> bcd_err option \<times> bcd_pipe \<times> bcd_process" where
  "bcd_pipe_init pipe F p P =
     (case pipe of
        Failed e \<Rightarrow> (-1, Some (err_set (Some e) ''could not create create pipe''), p, P)
      | Ok (rd, wr) \<Rightarrow>
          (let p = \<lparr>pipe_rd = rd, pipe_wr = wr\<rparr>; P = pr_add wr (pr_add rd P)
           in if prepare_fd F rd = -1 \<or> prepare_fd F wr = -1
              then (-1, Some (err_set (Some (fc_errno F)) ''internal descriptor management error''), p,
                pr_close wr (pr_close rd P))
              else (0, None, p, P)))"

text \<open>\<open>epoll_create\<close>: the result, the error and the process.\<close>

definition bcd_io_init :: "int io_result \<Rightarrow> bcd_process \<Rightarrow> int \<times> bcd_err option \<times> bcd_process" where
  "bcd_io_init epoll P =
     (case epoll of
        Failed e \<Rightarrow> (-1, Some (err_set (Some e) ''Failed to initialize event loop''), P)
      | Ok fd \<Rightarrow> (0, None, pr_add fd P))"

section \<open>The socket\<close>

definition bcd_io_socket ::
    "int io_result \<Rightarrow> fcntl_env \<Rightarrow> bcd_process \<Rightarrow> int \<times> bcd_err option \<times> bcd_process" where
  "bcd_io_socket socket F P =
     (let (fd, P) = (case socket of Ok fd \<Rightarrow> (fd, pr_add fd P) | Failed e \<Rightarrow> (-1, P))
      in if prepare_fd F fd = -1
         then (-1, Some (err_set (Some (fc_errno F)) ''failed to create socket''), pr_close fd P)
         else (fd, None, P))"

record listener_env =
  le_calloc :: bool
  le_strdup :: bool
  le_socket :: "int io_result"
  le_fcntl :: fcntl_env
  le_unlink :: "io_errno option"
  le_bind :: "io_errno option"
  le_listen :: "io_errno option"

record bcd_io_listener =
  li_fd :: int
  li_path :: cstr

text \<open>\<open>sizeof(un.sun_path)\<close>.\<close>

definition SUN_PATH :: nat where "SUN_PATH = 108"

definition bcd_io_listener_unix ::
    "listener_env \<Rightarrow> cstr \<Rightarrow> bcd_process \<Rightarrow> bcd_io_listener option \<times> bcd_err option \<times> bcd_process" where
  "bcd_io_listener_unix E path P =
     (if \<not> le_calloc E then (None, None, P)
      else if path = [] \<or> hd path \<noteq> of_char (CHR ''/'')
      then (None, Some (err_set None ''listener requires full path''), P)
      else if SUN_PATH \<le> length path
      then (None, Some (err_set None ''UNIX socket path is too long''), P)
      else if \<not> le_strdup E
      then (None, Some (err_set None ''failed to allocate socket path''), P)
      else
        (let (fd, err, P) = bcd_io_socket (le_socket E) (le_fcntl E) P
         in if fd = -1 then (None, err, P)
            else if le_unlink E \<noteq> None \<and> le_unlink E \<noteq> Some ENOENT
            then (None, Some (err_set (le_unlink E) ''failed to initialize UNIX socket''), P)
            else if le_bind E \<noteq> None
            then (None, Some (err_set (le_bind E) ''failed to bind to socket''), pr_close fd P)
            else
              (let P = pr_bind fd path P
               in if le_listen E \<noteq> None then (None, None, pr_close fd P)
                  else (Some \<lparr>li_fd = fd, li_path = path\<rparr>, None, P))))"

text \<open>The listener's event; \<open>malloc\<close> and \<open>epoll_ctl\<close> as in \<open>Bcd_Events\<close>.\<close>

definition bcd_io_listener_handler ::
    "nat option \<Rightarrow> bool \<Rightarrow> bcd_io_listener \<Rightarrow> io_payload io_loop \<Rightarrow> (int \<times> io_payload io_loop) option" where
  "bcd_io_listener_handler malloc ctl li L =
     (let (event, L) = bcd_io_event_create malloc (li_fd li) Listener L
      in case event of
           None \<Rightarrow> Some (-1, L)
         | Some i \<Rightarrow> do {
             (r, L) \<leftarrow> bcd_io_event_add ctl i L;
             Some (if r = -1 then (-1, bcd_io_event_destroy (Some i) L) else (0, L))
           })"

section \<open>The parent\<close>

record bcd_sb =
  sb_master_pid :: u32
  sb_monitor_pid :: int
  sb_master :: bcd_pipe
  sb_monitor :: bcd_pipe
  sb_path :: cstr
  sb_output_fd :: int

text \<open>The library's variables in a process, and the directories it made and removed.\<close>

record bcd_globals =
  gl_config :: bcd_config_internal
  gl_unlink_directory :: "cstr option"
  gl_sb :: bcd_sb
  gl_process :: bcd_process
  gl_directories :: "cstr list"
  gl_error :: bcd_err
  gl_sigmask :: u64

definition set_error :: "bcd_err option \<Rightarrow> bcd_globals \<Rightarrow> bcd_globals" where
  "set_error e G = (case e of None \<Rightarrow> G | Some e \<Rightarrow> G\<lparr>gl_error := e\<rparr>)"

text \<open>\<open>error->message = msg\<close>\<close>

definition set_message :: "string \<Rightarrow> bcd_globals \<Rightarrow> bcd_globals" where
  "set_message msg G = G\<lparr>gl_error := (gl_error G)\<lparr>err_message := msg\<rparr>\<rparr>"

record init_env =
  ie_mkdtemp :: "cstr option"
  ie_asprintf :: bool
  ie_strdup :: bool
  ie_opens :: "int io_result list"
  ie_getpid :: u32
  ie_monitor_pipe :: "(int \<times> int) io_result"
  ie_master_pipe :: "(int \<times> int) io_result"
  ie_fcntl :: fcntl_env
  ie_fork :: "int io_result"
  ie_now :: int
  ie_pipe :: io_env
  ie_mprotect :: "io_errno option"

text \<open>A call repeated while it is interrupted; \<open>None\<close>: the results end.\<close>

fun retry_eintr :: "'a io_result list \<Rightarrow> 'a io_result option" where
  "retry_eintr [] = None"
| "retry_eintr (Failed E_INTR # rs) = retry_eintr rs"
| "retry_eintr (r # rs) = Some r"

text \<open>The part of \<open>bcd_init\<close> that makes a directory and a path where none is configured.\<close>

definition init_path :: "init_env \<Rightarrow> bcd_globals \<Rightarrow> int \<times> bcd_globals" where
  "init_path E G =
     (if cf_ipc_us_path (gl_config G) \<noteq> None then (0, G)
      else case ie_mkdtemp E of
        None \<Rightarrow> (-1, set_error (Some (err_set None ''failed to generate UNIX socket PATH'')) G)
      | Some dir \<Rightarrow>
          (let G = G\<lparr>gl_directories := gl_directories G @ [dir]\<rparr>;
               G = (if ie_asprintf E then G
                    else G\<lparr>gl_directories := removeAll dir (gl_directories G)\<rparr>)
           in if \<not> ie_strdup E
              then (-1, set_error (Some (err_set None ''failed to generate UNIX socket directory''))
                (G\<lparr>gl_unlink_directory := None, gl_directories := removeAll dir (gl_directories G)\<rparr>))
              else
                (let G = G\<lparr>gl_unlink_directory := Some dir\<rparr>
                 in if \<not> ie_asprintf E
                    then (-1, set_error (Some (err_set None ''failed to generate UNIX socket PATH'')) G)
                    else (0, G\<lparr>gl_config := (gl_config G)\<lparr>cf_ipc_us_path :=
                      Some (dir @ cstr_of ''/bcd.socket'')\<rparr>\<rparr>))))"

definition init_output :: "init_env \<Rightarrow> bcd_globals \<Rightarrow> (int \<times> bcd_globals) option" where
  "init_output E G =
     (let G = G\<lparr>gl_sb := (gl_sb G)\<lparr>sb_output_fd := -1\<rparr>\<rparr>
      in case cf_invoke_output_file (gl_config G) of
           None \<Rightarrow> Some (0, G)
         | Some f \<Rightarrow>
             if f = [] then Some (0, G)
             else do {
               r \<leftarrow> retry_eintr (ie_opens E);
               Some (case r of
                 Failed e \<Rightarrow> (-1, set_error (Some (err_set (Some e) ''failed to create output file'')) G)
               | Ok fd \<Rightarrow> (0, G\<lparr>gl_sb := (gl_sb G)\<lparr>sb_output_fd := fd\<rparr>,
                             gl_process := pr_add fd (gl_process G)\<rparr>))
             })"

text \<open>The two pipes; a failure of the second closes the first.\<close>

definition init_pipes :: "init_env \<Rightarrow> bcd_globals \<Rightarrow> int \<times> bcd_globals" where
  "init_pipes E G =
     (let (r, e, p, P) = bcd_pipe_init (ie_monitor_pipe E) (ie_fcntl E) (sb_monitor (gl_sb G)) (gl_process G);
          G = set_error e (G\<lparr>gl_sb := (gl_sb G)\<lparr>sb_monitor := p\<rparr>, gl_process := P\<rparr>)
      in if r = -1 then (-1, set_message ''failed to initialize monitor pipe'' G)
         else
           (let (r, e, p, P) = bcd_pipe_init (ie_master_pipe E) (ie_fcntl E) (sb_master (gl_sb G)) (gl_process G);
                G = set_error e (G\<lparr>gl_sb := (gl_sb G)\<lparr>sb_master := p\<rparr>, gl_process := P\<rparr>)
            in if r = -1
               then (-1, (set_message ''failed to initialize master pipe'' G)
                 \<lparr>gl_process := bcd_pipe_deinit (sb_monitor (gl_sb G)) (gl_process G)\<rparr>)
               else (0, G)))"

text \<open>The label \<open>fail\<close> of \<open>bcd_init\<close>.\<close>

definition init_fail :: "bcd_globals \<Rightarrow> int \<times> bcd_globals" where
  "init_fail G = (-1, G\<lparr>gl_process :=
     bcd_pipe_deinit (sb_master (gl_sb G)) (bcd_pipe_deinit (sb_monitor (gl_sb G)) (gl_process G))\<rparr>)"

text \<open>
  \<open>bcd_os_fork\<close>: all signals are blocked across the fork. In the child (\<open>Ok 0\<close>) they stay
  blocked until \<open>bcd_child\<close> clears the mask; in the parent the old mask comes back.
\<close>

definition bcd_os_fork :: "int io_result \<Rightarrow> bcd_globals \<Rightarrow> int \<times> bcd_globals" where
  "bcd_os_fork fork G =
     (case fork of
        Ok pid \<Rightarrow> if pid = 0 then (0, G\<lparr>gl_sigmask := -1\<rparr>) else (pid, G)
      | Failed e \<Rightarrow> (-1, G))"

definition BCD_SB_PATH :: nat where "BCD_SB_PATH = 1024"

text \<open>The library's own \<open>strlcpy\<close>: the result and the destination's contents before and after.\<close>

definition strlcpy :: "cstr \<Rightarrow> cstr \<Rightarrow> nat \<Rightarrow> nat \<times> cstr" where
  "strlcpy dst src n =
     (let len = length src
      in (len, if 0 < n then take (if len < n then len else n - 1) src else dst))"

lemma strlcpy_fits: "length src < n \<Longrightarrow> strlcpy dst src n = (length src, src)"
  by (simp add: strlcpy_def)

lemma strlcpy_bound: "0 < n \<Longrightarrow> length (snd (strlcpy dst src n)) < n"
  by (simp add: strlcpy_def Let_def)

text \<open>The parent keeps the reading end of the monitor's pipe and the writing end of its own.\<close>

definition parent_ends :: "int \<Rightarrow> bcd_globals \<Rightarrow> bcd_globals" where
  "parent_ends child G =
     (let G = G\<lparr>gl_sb := (gl_sb G)\<lparr>sb_monitor_pid := child\<rparr>\<rparr>;
          (p, P) = bcd_pipe_ensure_readonly (sb_monitor (gl_sb G)) (gl_process G);
          G = G\<lparr>gl_sb := (gl_sb G)\<lparr>sb_monitor := p\<rparr>, gl_process := P\<rparr>;
          (p, P) = bcd_pipe_ensure_writeonly (sb_master (gl_sb G)) (gl_process G)
      in G\<lparr>gl_sb := (gl_sb G)\<lparr>sb_master := p\<rparr>, gl_process := P\<rparr>)"

text \<open>
  The parent waits for the monitor's configuration. The packet instance \<open>buf\<close> is not
  initialized, so a payload that was not received has no content: reading it is \<open>None\<close>.
\<close>

definition init_receive :: "init_env \<Rightarrow> mem \<Rightarrow> bcd_globals \<Rightarrow> (int \<times> bcd_globals) option" where
  "init_receive E buf G = do {
     let deadline = ie_now E + int (unat (cf_timeout (gl_config G)));
     (r, e, packet, env) \<leftarrow> bcd_sb_read buf BCD_SB_PATH (cf_timeout (gl_config G)) deadline (ie_pipe E);
     let G = set_error e G;
     if r = -1 then Some (init_fail G)
     else do {
       v \<leftarrow> packet_op packet;
       if op_of v = Some BCD_OP_CF
       then do {
         n \<leftarrow> packet_length packet;
         len \<leftarrow> (if BCD_SB_PATH < unat n then None
                else mem_strlen (take (sizeof_packet + unat n) packet) sizeof_packet);
         let path = snd (strlcpy (sb_path (gl_sb G)) (take len (drop sizeof_packet packet)) BCD_SB_PATH);
         let G = G\<lparr>gl_sb := (gl_sb G)\<lparr>sb_path := path\<rparr>\<rparr>;
         case ie_mprotect E of
           Some e \<Rightarrow> Some (init_fail
             (set_error (Some (err_set (Some e) ''failed to lock control page permissions'')) G))
         | None \<Rightarrow> Some (0, G)
       } else Some (init_fail (set_error (Some (err_set None ''failed to initialize path'')) G))
     }
   }"

text \<open>\<open>bcd_init\<close> up to the fork.\<close>

definition init_before_fork ::
    "ptr \<Rightarrow> init_env \<Rightarrow> bcd_config option \<Rightarrow> bcd_globals \<Rightarrow> (int \<times> bcd_globals) option" where
  "init_before_fork default_handler E cf G = do {
     let (r, g) = (case cf of
            None \<Rightarrow> bcd_config_assign (gl_config G) (bcd_config_init_v1 default_handler)
          | Some cf \<Rightarrow> bcd_config_assign (gl_config G) cf);
     let G = G\<lparr>gl_config := g\<rparr>;
     if r \<noteq> 0 then Some (-1, set_error (Some (err_set None ''unrecognized config version'')) G)
     else do {
       let (r, G) = init_path E G;
       if r = -1 then Some (-1, G)
       else do {
         (r, G) \<leftarrow> init_output E G;
         if r = -1 then Some (-1, G)
         else Some (init_pipes E (G\<lparr>gl_sb := (gl_sb G)\<lparr>sb_master_pid := ie_getpid E\<rparr>\<rparr>))
       }
     }
   }"

text \<open>The child does not return from the fork (\<open>None\<close>): it runs \<open>bcd_child\<close>.\<close>

definition bcd_init ::
    "ptr \<Rightarrow> init_env \<Rightarrow> mem \<Rightarrow> bcd_config option \<Rightarrow> bcd_globals \<Rightarrow> (int \<times> bcd_globals) option" where
  "bcd_init default_handler E buf cf G = do {
     (r, G) \<leftarrow> init_before_fork default_handler E cf G;
     if r = -1 then Some (-1, G)
     else do {
       let (child, G) = bcd_os_fork (ie_fork E) G;
       if child = 0 then None
       else if child = -1 then Some (init_fail G)
       else init_receive E buf (parent_ends child G)
     }
   }"

section \<open>Descriptors of the parent\<close>

lemma pr_open_add [simp]: "pr_open (pr_add fd P) = insert fd (pr_open P)"
  by (simp add: pr_add_def)

lemma pr_open_close [simp]: "pr_open (pr_close fd P) = pr_open P - {fd}"
  by (auto simp: pr_close_def)

lemma pr_open_deinit [simp]: "pr_open (bcd_pipe_deinit p P) = pr_open P - {pipe_rd p, pipe_wr p}"
  by (auto simp: bcd_pipe_deinit_def)

lemma pr_bound_simps [simp]:
  "pr_bound (pr_add fd P) = pr_bound P" "pr_bound (pr_close fd P) = pr_bound P"
  "pr_bound (pr_bind fd path P) = pr_bound P @ [(fd, path)]" "pr_open (pr_bind fd path P) = pr_open P"
  by (simp_all add: pr_add_def pr_close_def pr_bind_def)

lemma set_error_fields [simp]:
  "gl_process (set_error e G) = gl_process G" "gl_sb (set_error e G) = gl_sb G"
  "gl_config (set_error e G) = gl_config G"
  "gl_process (set_message m G) = gl_process G" "gl_sb (set_message m G) = gl_sb G"
  "gl_config (set_message m G) = gl_config G"
  by (simp_all add: set_error_def set_message_def split: option.split)

lemma pipe_init_open:
  assumes "bcd_pipe_init pipe F p P = (r, e, p', P')"
  shows "if r = -1 then pr_open P' \<subseteq> pr_open P
    else pr_open P' = {pipe_rd p', pipe_wr p'} \<union> pr_open P \<and> r = 0"
  using assms by (auto simp: bcd_pipe_init_def Let_def split: io_result.splits prod.splits if_splits)

lemma init_path_frame:
  assumes "init_path E G = (r, G')"
  shows "gl_process G' = gl_process G \<and> gl_sb G' = gl_sb G"
  using assms by (auto simp: init_path_def Let_def split: if_splits option.splits)

lemma init_output_open:
  assumes "init_output E G = Some (r, G')"
  shows "pr_open (gl_process G) \<subseteq> pr_open (gl_process G') \<and>
    pr_open (gl_process G') \<subseteq> insert (sb_output_fd (gl_sb G')) (pr_open (gl_process G))"
proof (cases "retry_eintr (ie_opens E)")
  case None
  with assms show ?thesis
    by (auto simp: init_output_def Let_def split: if_splits option.splits)
next
  case (Some r)
  with assms show ?thesis
    by (cases r) (auto simp: init_output_def Let_def split: if_splits option.splits)
qed

lemma init_pipes_open:
  assumes "init_pipes E G = (r, G')"
  shows "sb_output_fd (gl_sb G') = sb_output_fd (gl_sb G) \<and>
    (if r = -1 then pr_open (gl_process G') \<subseteq> pr_open (gl_process G)
     else pr_open (gl_process G') = {pipe_rd (sb_monitor (gl_sb G')), pipe_wr (sb_monitor (gl_sb G')),
       pipe_rd (sb_master (gl_sb G')), pipe_wr (sb_master (gl_sb G'))} \<union> pr_open (gl_process G))"
proof -
  obtain r1 e1 p1 P1 where one: "bcd_pipe_init (ie_monitor_pipe E) (ie_fcntl E) (sb_monitor (gl_sb G))
      (gl_process G) = (r1, e1, p1, P1)"
    by (metis prod_cases4)
  obtain r2 e2 p2 P2 where two: "bcd_pipe_init (ie_master_pipe E) (ie_fcntl E) (sb_master (gl_sb G)) P1 =
      (r2, e2, p2, P2)"
    by (metis prod_cases4)
  show ?thesis
    using assms pipe_init_open [OF one] pipe_init_open [OF two]
    by (auto simp: init_pipes_def Let_def one two split: if_splits)
qed

lemma init_fail_open:
  "pr_open (gl_process (snd (init_fail G))) =
    pr_open (gl_process G) - {pipe_rd (sb_monitor (gl_sb G)), pipe_wr (sb_monitor (gl_sb G)),
      pipe_rd (sb_master (gl_sb G)), pipe_wr (sb_master (gl_sb G))} \<and>
   sb_output_fd (gl_sb (snd (init_fail G))) = sb_output_fd (gl_sb G)"
  by (auto simp: init_fail_def)


lemma parent_ends_open:
  "pr_open (gl_process (parent_ends child G)) = pr_open (gl_process G) -
      {pipe_wr (sb_monitor (gl_sb G)), pipe_rd (sb_master (gl_sb G))}"
  "sb_monitor (gl_sb (parent_ends child G)) = (sb_monitor (gl_sb G))\<lparr>pipe_wr := -1\<rparr>"
  "sb_master (gl_sb (parent_ends child G)) = (sb_master (gl_sb G))\<lparr>pipe_rd := -1\<rparr>"
  "sb_output_fd (gl_sb (parent_ends child G)) = sb_output_fd (gl_sb G)"
  "gl_config (parent_ends child G) = gl_config G"
  by (auto simp: parent_ends_def bcd_pipe_ensure_readonly_def bcd_pipe_ensure_writeonly_def Let_def)

text \<open>When the parent gives up after the fork, it does so through \<open>fail\<close>.\<close>

lemma init_receive_fail:
  assumes "init_receive E buf G = Some (-1, G')"
  shows "\<exists>G2. G' = snd (init_fail G2) \<and> gl_process G2 = gl_process G \<and>
    sb_monitor (gl_sb G2) = sb_monitor (gl_sb G) \<and> sb_master (gl_sb G2) = sb_master (gl_sb G) \<and>
    sb_output_fd (gl_sb G2) = sb_output_fd (gl_sb G)"
proof -
  obtain r e packet env where read: "bcd_sb_read buf BCD_SB_PATH (cf_timeout (gl_config G))
      (ie_now E + int (unat (cf_timeout (gl_config G)))) (ie_pipe E) = Some (r, e, packet, env)"
    using assms by (auto simp: init_receive_def bind_eq_Some_conv)
  note run = assms [unfolded init_receive_def read Let_def Option.bind.bind_lunit prod.case]
  show ?thesis
  proof (cases "r = -1")
    case True
    then have "(-1, G') = init_fail (set_error e G)"
      using run by simp
    then have "G' = snd (init_fail (set_error e G))"
      by (metis snd_conv)
    then show ?thesis by (intro exI [of _ "set_error e G"]) simp
  next
    case False
    then obtain v where v: "packet_op packet = Some v"
      using run by (cases "packet_op packet") auto
    show ?thesis
    proof (cases "op_of v = Some BCD_OP_CF")
      case True
      with run False v obtain path err where
        "init_fail (set_error (Some err) ((set_error e G)\<lparr>gl_sb := (gl_sb (set_error e G))\<lparr>sb_path := path\<rparr>\<rparr>)) =
          (-1, G')"
        by (auto simp: bind_eq_Some_conv split: option.splits if_splits)
      then have "G' = snd (init_fail (set_error (Some err) ((set_error e G)\<lparr>gl_sb := (gl_sb G)\<lparr>sb_path := path\<rparr>\<rparr>)))"
        by (simp add: set_error_fields(2))
      then show ?thesis
        by (intro exI [of _ "set_error (Some err) ((set_error e G)\<lparr>gl_sb := (gl_sb G)\<lparr>sb_path := path\<rparr>\<rparr>)"]) simp
    next
      case op: False
      let ?G = "set_error (Some (err_set None ''failed to initialize path'')) (set_error e G)"
      have "(-1, G') = init_fail ?G"
        using run False v op by simp
      then have "G' = snd (init_fail ?G)"
        by (metis snd_conv)
      then show ?thesis by (intro exI [of _ ?G]) simp
    qed
  qed
qed

text \<open>What \<open>bcd_init\<close> has opened when it forks, or when it fails before.\<close>

lemma init_before_fork_open:
  assumes "init_before_fork dh E cf G = Some (r, G')"
  shows "pr_open (gl_process G') \<subseteq> insert (sb_output_fd (gl_sb G')) (pr_open (gl_process G)) \<union>
    (if r = -1 then {} else {pipe_rd (sb_monitor (gl_sb G')), pipe_wr (sb_monitor (gl_sb G')),
       pipe_rd (sb_master (gl_sb G')), pipe_wr (sb_master (gl_sb G'))})"
proof -
  obtain r0 g where cfg: "(case cf of
            None \<Rightarrow> bcd_config_assign (gl_config G) (bcd_config_init_v1 dh)
          | Some cf \<Rightarrow> bcd_config_assign (gl_config G) cf) = (r0, g)"
    by (meson surj_pair)
  let ?G0 = "G\<lparr>gl_config := g\<rparr>"
  obtain r1 G1 where path: "init_path E ?G0 = (r1, G1)"
    by (meson surj_pair)
  note G1 = init_path_frame [OF path]
  note run = assms [unfolded init_before_fork_def cfg Let_def prod.case path]
  show ?thesis
  proof (cases "r0 = 0 \<and> r1 \<noteq> -1")
    case False
    with run G1 show ?thesis by (auto split: if_splits)
  next
    case go1: True
    then obtain r2 G2 where out: "init_output E G1 = Some (r2, G2)"
      using run by (cases "init_output E G1") auto
    note G2 = init_output_open [OF out]
    let ?G2 = "G2\<lparr>gl_sb := (gl_sb G2)\<lparr>sb_master_pid := ie_getpid E\<rparr>\<rparr>"
    obtain r3 G3 where pipes: "init_pipes E ?G2 = (r3, G3)"
      by (meson surj_pair)
    note G3 = init_pipes_open [OF pipes]
    note run = run [unfolded out Option.bind.bind_lunit prod.case pipes]
    show ?thesis
    proof (cases "r2 = -1")
      case True
      with run go1 G1 G2 show ?thesis by (auto split: if_splits)
    next
      case False
      with run go1 G1 G2 G3 show ?thesis by (auto split: if_splits)
    qed
  qed
qed

text \<open>
  C32: a failing \<open>bcd_init\<close> leaves no pipe open: whatever fails, and at whatever point, every
  descriptor that is open afterwards was open before or is the tracer's output file, which is
  not closed.
\<close>

theorem bcd_init_failure_closes:
  assumes "bcd_init dh E buf cf G = Some (-1, G')"
  shows "pr_open (gl_process G') \<subseteq> insert (sb_output_fd (gl_sb G')) (pr_open (gl_process G))"
proof -
  obtain r G3 where before: "init_before_fork dh E cf G = Some (r, G3)"
    using assms by (auto simp: bcd_init_def bind_eq_Some_conv)
  note G3 = init_before_fork_open [OF before]
  obtain child G4 where fork: "bcd_os_fork (ie_fork E) G3 = (child, G4)"
    by (meson surj_pair)
  have G4: "gl_process G4 = gl_process G3" "gl_sb G4 = gl_sb G3"
    using fork by (auto simp: bcd_os_fork_def split: io_result.splits if_splits)
  note run = assms [unfolded bcd_init_def before Option.bind.bind_lunit prod.case fork Let_def]
  show ?thesis
  proof (cases "r = -1 \<or> child = -1")
    case True
    with run G3 init_fail_open [of G4] G4 show ?thesis
      by (auto split: if_splits simp: init_fail_def)
  next
    case False
    with run have "init_receive E buf (parent_ends child G4) = Some (-1, G')"
      by (auto split: if_splits)
    from init_receive_fail [OF this] obtain G5 where G5: "G' = snd (init_fail G5)"
        "gl_process G5 = gl_process (parent_ends child G4)"
        "sb_monitor (gl_sb G5) = sb_monitor (gl_sb (parent_ends child G4))"
        "sb_master (gl_sb G5) = sb_master (gl_sb (parent_ends child G4))"
        "sb_output_fd (gl_sb G5) = sb_output_fd (gl_sb (parent_ends child G4))" by blast
    with init_fail_open [of G5] parent_ends_open [of child G4] G4 G3 False show ?thesis by auto
  qed
qed

text \<open>A fork that fails after both pipes were made.\<close>

definition example_globals :: bcd_globals where
  "example_globals = \<lparr>gl_config = bcd_config_init_v1 5, gl_unlink_directory = None,
     gl_sb = \<lparr>sb_master_pid = 0, sb_monitor_pid = 0, sb_master = \<lparr>pipe_rd = -1, pipe_wr = -1\<rparr>,
       sb_monitor = \<lparr>pipe_rd = -1, pipe_wr = -1\<rparr>, sb_path = [], sb_output_fd = -1\<rparr>,
     gl_process = \<lparr>pr_open = {0, 1, 2}, pr_stray = [], pr_bound = []\<rparr>, gl_directories = [],
     gl_error = \<lparr>err_message = [], err_errnum = 0\<rparr>, gl_sigmask = 0\<rparr>"

definition example_init :: "int io_result \<Rightarrow> rd_event list \<Rightarrow> init_env" where
  "example_init fork es = \<lparr>ie_mkdtemp = None, ie_asprintf = True, ie_strdup = True,
     ie_opens = [Failed E_INTR, Ok 9], ie_getpid = 77, ie_monitor_pipe = Ok (3, 4), ie_master_pipe = Ok (5, 6),
     ie_fcntl = \<lparr>fc_getfl = (\<lambda>_. 0), fc_setfl = (\<lambda>_ _. True), fc_errno = E_INTR\<rparr>,
     ie_fork = fork, ie_now = 0,
     ie_pipe = \<lparr>rd_events = es, wr_events = [], sel_events = [], sent = []\<rparr>, ie_mprotect = None\<rparr>"

definition example_config :: bcd_config where
  "example_config = (bcd_config_init_v1 5)\<lparr>cf_ipc_us_path := Some (cstr_of ''/run/b''),
     cf_oom_adjust := 0\<rparr>"

theorem bcd_init_failure_closes_witness:
  "\<exists>G'. bcd_init 5 (example_init (Failed E_AGAIN) []) [] (Some example_config) example_globals =
     Some (-1, G') \<and> pr_open (gl_process G') \<subseteq> {-1, 0, 1, 2}"
proof -
  let ?E = "example_init (Failed E_AGAIN) []"
  have "\<exists>G'. bcd_init 5 ?E [] (Some example_config) example_globals = Some (-1, G') \<and>
      sb_output_fd (gl_sb G') = -1"
    by (simp add: bcd_init_def init_before_fork_def bcd_config_assign_def bcd_config_assign_from_v1_def
        example_config_def example_globals_def example_init_def init_path_def init_output_def
        init_pipes_def bcd_pipe_init_def prepare_fd_def bcd_io_fd_prepare_def bcd_os_fork_def
        init_fail_def bcd_config_init_v1_def Let_def set_error_def)
  then obtain G' where run: "bcd_init 5 ?E [] (Some example_config) example_globals = Some (-1, G')"
      "sb_output_fd (gl_sb G') = -1" by blast
  from bcd_init_failure_closes [OF run(1)] run show ?thesis
    by (simp add: example_globals_def)
qed

end
