(* ===== verification/Bcd_Child.thy ===== *)
theory Bcd_Child
  imports Bcd_Startup
begin

text \<open>
  The monitor process: \<open>bcd_child\<close> from the fork to its end, in the order of the code, and
  the handshake with the parent. The function is cut into stages; a stage ends the process
  with an outcome or goes on.
\<close>

text \<open>
  What the calls return. The client's \<open>monitor_init\<close> works on the memory the two processes
  share; \<open>None\<close>: it ends the process with \<open>abort\<close>.
\<close>

record child_env =
  ce_monitor_init :: "ptr \<Rightarrow> mem \<Rightarrow> mem option"
  ce_affinity :: "int \<Rightarrow> io_errno option"
  ce_dup2_out :: "int io_result list"
  ce_dup2_err :: "int io_result list"
  ce_getpid :: u32
  ce_oom_opens :: "int io_result list"
  ce_oom_writes :: "wr_event list"
  ce_prctl :: "io_errno option"
  ce_asprintf :: bool
  ce_epoll :: "int io_result"
  ce_errno :: io_errno
  ce_listener :: listener_env
  ce_users :: user_db
  ce_privileges :: os_privileges
  ce_listener_event :: "nat option"
  ce_listener_ctl :: bool
  ce_monitor_event :: "nat option"
  ce_monitor_ctl :: bool
  ce_master_event :: "nat option"
  ce_master_ctl :: bool
  ce_master :: io_env
  ce_turns :: "io_turn list"

text \<open>
  \<open>ch_removed\<close>: the socket and the directory once they are removed; \<open>ch_cloexec\<close>: descriptors
  that get \<open>FD_CLOEXEC\<close>; \<open>ch_shared\<close>: the contents of the memory shared with the parent.
\<close>

record child =
  ch_globals :: bcd_globals
  ch_state :: bcd_state
  ch_pipe :: io_env
  ch_actions :: "os_action list"
  ch_removed :: "cstr list"
  ch_umask :: u32
  ch_cloexec :: "int list"
  ch_shared :: mem

definition ch_monitor :: "child \<Rightarrow> bcd_monitor" where
  "ch_monitor c = w_monitor (snd (ch_state c))"

definition report :: "string \<Rightarrow> int \<Rightarrow> child \<Rightarrow> child" where
  "report msg code c = c\<lparr>ch_state := (fst (ch_state c), (snd (ch_state c))\<lparr>w_monitor :=
     snd (bcd_error BCD_EVENT_FATAL None msg code (ch_monitor c))\<rparr>)\<rparr>"

lemma report_fields [simp]:
  "ch_globals (report msg code c) = ch_globals c" "ch_removed (report msg code c) = ch_removed c"
  "ch_shared (report msg code c) = ch_shared c"
  by (simp_all add: report_def)

text \<open>\<open>unlink\<close> and \<open>rmdir\<close> before \<open>_exit\<close>.\<close>

definition bcd_child_exit :: "int \<Rightarrow> child \<Rightarrow> outcome \<times> child" where
  "bcd_child_exit code c =
     (let G = ch_globals c
      in (Exits code, c\<lparr>ch_removed := ch_removed c @
            (case cf_ipc_us_path (gl_config G) of None \<Rightarrow> [] | Some p \<Rightarrow> [p]) @
            (case gl_unlink_directory G of None \<Rightarrow> [] | Some d \<Rightarrow> [d])\<rparr>))"

type_synonym stage = "outcome option \<times> child"

definition ends :: "outcome \<times> child \<Rightarrow> stage" where
  "ends r = (Some (fst r), snd r)"

definition and_then :: "stage \<Rightarrow> (child \<Rightarrow> stage option) \<Rightarrow> stage option" where
  "and_then r f = (case fst r of Some _ \<Rightarrow> Some r | None \<Rightarrow> f (snd r))"

text \<open>The label \<open>fail\<close>: the socket and its directory stay.\<close>

definition child_fail :: "child_env \<Rightarrow> child \<Rightarrow> stage" where
  "child_fail E c =
     ends (Exits EXIT_FAILURE, report ''failed to create UNIX socket'' (errno_code (ce_errno E)) c)"

text \<open>The client's initialization, before anything else.\<close>

definition child_init :: "child_env \<Rightarrow> child \<Rightarrow> stage" where
  "child_init E c =
     (let init = cf_monitor_init (gl_config (ch_globals c))
      in if init = NULL then (None, c)
         else (case ce_monitor_init E init (ch_shared c) of
                 None \<Rightarrow> ends (Aborts, c)
               | Some m \<Rightarrow> (None, c\<lparr>ch_shared := m\<rparr>)))"

text \<open>\<open>dup2\<close> of the output file onto one of the standard streams.\<close>

definition child_output :: "child_env \<Rightarrow> child \<Rightarrow> stage option" where
  "child_output E c =
     (let G = ch_globals c; fd = sb_output_fd (gl_sb G)
      in if fd = -1 then Some (None, c)
         else do {
           r1 \<leftarrow> retry_eintr (ce_dup2_out E);
           case r1 of
             Failed _ \<Rightarrow> Some (ends (Exits EXIT_FAILURE, c))
           | Ok _ \<Rightarrow> do {
               r2 \<leftarrow> retry_eintr (ce_dup2_err E);
               Some (case r2 of
                 Failed _ \<Rightarrow> ends (Exits EXIT_FAILURE, c)
               | Ok _ \<Rightarrow> (None, c\<lparr>ch_globals := G\<lparr>gl_process := pr_close fd (gl_process G)\<rparr>\<rparr>))
             }
         })"

text \<open>
  Signal mask, OOM score, file mode mask, command name, and the monitor's string of the
  traced process. The affinity and the OOM score are set as far as they can be.
\<close>

definition child_prepare :: "child_env \<Rightarrow> child \<Rightarrow> stage option" where
  "child_prepare E c = do {
     let cf = gl_config (ch_globals c);
     let r = bcd_set_cpu_affinity (sint (cf_affinity_target_cpu cf)) (ce_affinity E);
     s \<leftarrow> child_output E c;
     and_then s (\<lambda>c. do {
       let c = c\<lparr>ch_globals := (ch_globals c)\<lparr>gl_sigmask := 0\<rparr>\<rparr>;
       oom \<leftarrow> (if cf_oom_adjust cf \<noteq> 0
              then map_option Some (bcd_os_oom_adjust (ce_getpid E) (ce_oom_opens E) (ce_oom_writes E))
              else Some None);
       let c = c\<lparr>ch_umask := cf_umask cf\<rparr>;
       Some (if and (cf_flags cf) 1 \<noteq> 0 \<and>
                bcd_setcomm (Some (cstr_of ''[bcd] monitor'')) (ce_prctl E) = -1
             then ends (Exits EXIT_FAILURE, report ''failed to respect BCD_CONFIG_F_SETCOMM'' 0 c)
             else if \<not> ce_asprintf E then child_fail E c else (None, c))
     })
   }"

text \<open>
  \<open>bcd_io_init\<close>, whose failure goes unnoticed, the unused ends of the pipes, \<open>FD_CLOEXEC\<close> for
  the monitor's end so that no tracer keeps it open, and the socket.
\<close>

definition child_ends :: "child_env \<Rightarrow> child \<Rightarrow> child" where
  "child_ends E c =
     (let G = ch_globals c;
          (r, e, P) = bcd_io_init (ce_epoll E) (gl_process G);
          (master, P) = bcd_pipe_ensure_readonly (sb_master (gl_sb G)) P;
          (monitor, P) = bcd_pipe_ensure_writeonly (sb_monitor (gl_sb G)) P
      in c\<lparr>ch_globals := G\<lparr>gl_process := P,
            gl_sb := (gl_sb G)\<lparr>sb_master := master, sb_monitor := monitor\<rparr>\<rparr>,
          ch_cloexec := ch_cloexec c @ [pipe_wr monitor]\<rparr>)"

definition child_socket :: "child_env \<Rightarrow> child \<Rightarrow> stage option" where
  "child_socket E c0 = do {
     let c = child_ends E c0;
     let G = ch_globals c;
     path \<leftarrow> cf_ipc_us_path (gl_config G);
     let (li, e, P) = bcd_io_listener_unix (ce_listener E) path (gl_process G);
     let c = c\<lparr>ch_globals := G\<lparr>gl_process := P\<rparr>\<rparr>;
     case li of
       None \<Rightarrow> Some (child_fail E c)
     | Some li \<Rightarrow> do {
         (r, e, acts) \<leftarrow> bcd_chown (ce_users E) (ce_privileges E) (gl_config G) path;
         let c = c\<lparr>ch_actions := ch_actions c @ acts\<rparr>;
         if r = -1 then Some (child_fail E c)
         else do {
           (r, e, acts) \<leftarrow> bcd_suid (ce_users E) (ce_privileges E) (gl_config G);
           let c = c\<lparr>ch_actions := ch_actions c @ acts\<rparr>;
           if r = -1 then Some (child_fail E c)
           else do {
             (r, L) \<leftarrow> bcd_io_listener_handler (ce_listener_event E) (ce_listener_ctl E) li (fst (ch_state c));
             let c = c\<lparr>ch_state := (L, snd (ch_state c))\<rparr>;
             Some (if r = -1 then child_fail E c else (None, c))
           }
         }
       }
   }"

text \<open>
  The path of the socket goes to the parent. Its packet has room for \<open>BCD_SB_PATH\<close> bytes;
  writing more would read past it (\<open>None\<close>).
\<close>

definition child_announce :: "child \<Rightarrow> stage option" where
  "child_announce c = do {
     path \<leftarrow> cf_ipc_us_path (gl_config (ch_globals c));
     payload \<leftarrow> (if length path < BCD_SB_PATH then Some (path @ [0]) else None);
     (r, e, env) \<leftarrow> bcd_sb_write BCD_OP_CF payload (cf_timeout (gl_config (ch_globals c))) 0 (ch_pipe c);
     let c = c\<lparr>ch_pipe := env\<rparr>;
     Some (if r = -1
       then ends (bcd_child_exit EXIT_FAILURE (report ''failed to write configuration information''
              (case e of Some e \<Rightarrow> errno_code e | None \<Rightarrow> 0) c))
       else (None, c))
   }"

text \<open>An event for one of the pipes: creation, watching, and the two reports.\<close>

definition child_watch ::
    "child_env \<Rightarrow> nat option \<Rightarrow> bool \<Rightarrow> int \<Rightarrow> io_payload \<Rightarrow> string \<Rightarrow> string \<Rightarrow> child \<Rightarrow> stage option" where
  "child_watch E malloc ctl fd payload msg1 msg2 c =
     (let (event, L) = bcd_io_event_create malloc fd payload (fst (ch_state c));
          c = c\<lparr>ch_state := (L, snd (ch_state c))\<rparr>
      in case event of
           None \<Rightarrow> Some (ends (bcd_child_exit EXIT_FAILURE (report msg1 (errno_code (ce_errno E)) c)))
         | Some i \<Rightarrow> do {
             (r, L) \<leftarrow> bcd_io_event_add ctl i L;
             Some (if r = -1
               then ends (bcd_child_exit EXIT_FAILURE (report msg2 (errno_code (ce_errno E))
                      (c\<lparr>ch_state := (bcd_io_event_destroy (Some i) L, snd (ch_state c))\<rparr>)))
               else (None, c\<lparr>ch_state := (L, snd (ch_state c))\<rparr>))
           })"

text \<open>
  The loop. Handlers leave through \<open>bcd_child_exit\<close>, except the one that is terminated while
  its tracer runs: that \<open>_exit\<close> has the status 128 + 15 and removes nothing.
\<close>

definition child_loop :: "child_env \<Rightarrow> child \<Rightarrow> (outcome \<times> child \<times> nat list) option" where
  "child_loop E c = do {
     (out, S, tr) \<leftarrow> bcd_io_enter (ce_turns E) (ch_state c) [];
     let c = c\<lparr>ch_state := S\<rparr>;
     let (out, c) =
       (case out of
          Returns r \<Rightarrow>
            if r = -1 then bcd_child_exit EXIT_FAILURE
                 (report ''internal event loop error'' (errno_code (ce_errno E)) c)
            else bcd_child_exit EXIT_SUCCESS c
        | Exits n \<Rightarrow> if n = 128 + 15 then (Exits n, c) else bcd_child_exit n c
        | _ \<Rightarrow> (out, c));
     Some (out, c, tr)
   }"

definition child_setup :: "child_env \<Rightarrow> child \<Rightarrow> stage option" where
  "child_setup E c = do {
     s \<leftarrow> and_then (child_init E c) (child_prepare E);
     s \<leftarrow> and_then s (child_socket E);
     s \<leftarrow> and_then s child_announce;
     s \<leftarrow> and_then s (\<lambda>c. child_watch E (ce_monitor_event E) (ce_monitor_ctl E)
            (pipe_wr (sb_monitor (gl_sb (ch_globals c)))) Watch
            ''failed to configure pipe watcher'' ''failed to monitor pipe'' c);
     and_then s (\<lambda>c. child_watch E (ce_master_event E) (ce_master_ctl E)
       (pipe_rd (sb_master (gl_sb (ch_globals c)))) (Pipe (ce_master E))
       ''failed to configure master pipe'' ''failed to watch master pipe'' c)
   }"

definition bcd_child :: "child_env \<Rightarrow> child \<Rightarrow> (outcome \<times> child \<times> nat list) option" where
  "bcd_child E c = do {
     (ended, c) \<leftarrow> child_setup E c;
     case ended of Some out \<Rightarrow> Some (out, c, []) | None \<Rightarrow> child_loop E c
   }"

text \<open>The child as the fork leaves it: a copy of the parent with nothing set up.\<close>

definition forked :: "bcd_globals \<Rightarrow> io_env \<Rightarrow> mem \<Rightarrow> child" where
  "forked G pipe shared =
     \<lparr>ch_globals = snd (bcd_os_fork (Ok 0) G),
      ch_state = (\<lparr>io_events = (\<lambda>_. None), readyevents = []\<rparr>,
        \<lparr>w_monitor = start_monitor (gl_config G) (sb_master_pid (gl_sb G)), w_closed = []\<rparr>),
      ch_pipe = pipe, ch_actions = [], ch_removed = [], ch_umask = 0, ch_cloexec = [],
      ch_shared = shared\<rparr>"

section \<open>A start that succeeds\<close>

text \<open>Every call of the child answers, for a socket at \<open>path\<close>.\<close>

definition child_answers :: "child_env \<Rightarrow> child \<Rightarrow> cstr \<Rightarrow> bool" where
  "child_answers E c path \<longleftrightarrow>
     (let cf = gl_config (ch_globals c); Li = ce_listener E
      in cf_ipc_us_path cf = Some path \<and> path \<noteq> [] \<and> hd path = of_char (CHR ''/'') \<and>
         length path < SUN_PATH \<and> cstr_ok path \<and>
         sb_output_fd (gl_sb (ch_globals c)) = -1 \<and>
         (cf_oom_adjust cf \<noteq> 0 \<longrightarrow>
            bcd_os_oom_adjust (ce_getpid E) (ce_oom_opens E) (ce_oom_writes E) \<noteq> None) \<and>
         (and (cf_flags cf) 1 = 0 \<or> ce_prctl E = None) \<and> ce_asprintf E \<and>
         le_calloc Li \<and> le_strdup Li \<and> le_listen Li = None \<and> le_bind Li = None \<and>
         (le_unlink Li = None \<or> le_unlink Li = Some ENOENT) \<and>
         (\<exists>fd. le_socket Li = Ok fd \<and> fd \<noteq> -1 \<and> prepare_fd (le_fcntl Li) fd \<noteq> -1) \<and>
         (\<exists>acts. bcd_chown (ce_users E) (ce_privileges E) cf path = Some (0, None, acts)) \<and>
         (\<exists>acts. bcd_suid (ce_users E) (ce_privileges E) cf = Some (0, None, acts)) \<and>
         ce_listener_ctl E \<and> ce_monitor_ctl E \<and> ce_master_ctl E \<and>
         (\<exists>i j k. ce_listener_event E = Some i \<and> ce_monitor_event E = Some j \<and> ce_master_event E = Some k \<and>
            distinct [i, j, k]) \<and>
         (\<exists>k ws. wr_events (ch_pipe c) = Wr_room k # ws \<and> 8 + length path + 1 \<le> k))"

definition child_ready :: "child_env \<Rightarrow> child \<Rightarrow> cstr \<Rightarrow> bool" where
  "child_ready E c path \<longleftrightarrow>
     (let init = cf_monitor_init (gl_config (ch_globals c))
      in init \<noteq> NULL \<longrightarrow> ce_monitor_init E init (ch_shared c) \<noteq> None) \<and>
     child_answers E c path"

text \<open>The loop the child enters: the socket and the two pipes are watched.\<close>

definition watches :: "child_env \<Rightarrow> child \<Rightarrow> bool" where
  "watches E c \<longleftrightarrow>
     (\<exists>i j k sfd. ce_listener_event E = Some i \<and> ce_monitor_event E = Some j \<and> ce_master_event E = Some k \<and>
        le_socket (ce_listener E) = Ok sfd \<and> readyevents (fst (ch_state c)) = [i, j, k] \<and>
        io_events (fst (ch_state c)) =
          [i \<mapsto> \<lparr>ev_fd = sfd, ev_mask = 0, ev_in_ready = True, ev_payload = Listener\<rparr>,
           j \<mapsto> \<lparr>ev_fd = pipe_wr (sb_monitor (gl_sb (ch_globals c))), ev_mask = 0, ev_in_ready = True,
                 ev_payload = Watch\<rparr>,
           k \<mapsto> \<lparr>ev_fd = pipe_rd (sb_master (gl_sb (ch_globals c))), ev_mask = 0, ev_in_ready = True,
                 ev_payload = Pipe (ce_master E)\<rparr>])"

text \<open>The shared memory after the client's initialization.\<close>

definition initialized :: "child_env \<Rightarrow> bcd_config_internal \<Rightarrow> mem \<Rightarrow> mem" where
  "initialized E cf m =
     (if cf_monitor_init cf = NULL then m
      else case ce_monitor_init E (cf_monitor_init cf) m of None \<Rightarrow> m | Some m' \<Rightarrow> m')"

lemma child_init_ready:
  assumes "child_ready E c path"
  shows "child_init E c = (None, c\<lparr>ch_shared := initialized E (gl_config (ch_globals c)) (ch_shared c)\<rparr>)"
  using assms by (auto simp: child_ready_def child_init_def initialized_def Let_def)

lemma child_prepare_ready:
  assumes "child_answers E c path"
  shows "child_prepare E (c\<lparr>ch_shared := m\<rparr>) =
    Some (None, c\<lparr>ch_globals := (ch_globals c)\<lparr>gl_sigmask := 0\<rparr>,
      ch_umask := cf_umask (gl_config (ch_globals c)), ch_shared := m\<rparr>)"
proof -
  have "bcd_setcomm (Some (cstr_of ''[bcd] monitor'')) None = 0"
    by (simp add: bcd_setcomm_def cstr_of_def)
  then show ?thesis
    using assms
    by (auto simp: child_answers_def child_prepare_def child_output_def and_then_def Let_def)
qed

lemma listener_ready:
  assumes "child_answers E c path" and "le_socket (ce_listener E) = Ok fd"
  shows "bcd_io_listener_unix (ce_listener E) path P = (Some \<lparr>li_fd = fd, li_path = path\<rparr>, None,
    pr_bind fd path (pr_add fd P))"
  using assms
  by (auto simp: child_answers_def bcd_io_listener_unix_def bcd_io_socket_def Let_def)

lemma child_socket_ready:
  assumes "child_answers E c path" and "ce_listener_event E = Some i"
    and "ch_state c = (\<lparr>io_events = (\<lambda>_. None), readyevents = []\<rparr>, w)"
  shows "\<exists>c' fd. child_socket E c = Some (None, c') \<and> le_socket (ce_listener E) = Ok fd \<and>
    ch_state c' = (\<lparr>io_events = [i \<mapsto> \<lparr>ev_fd = fd, ev_mask = 0, ev_in_ready = True,
      ev_payload = Listener\<rparr>], readyevents = [i]\<rparr>, w) \<and>
    pr_bound (gl_process (ch_globals c')) = pr_bound (gl_process (ch_globals c)) @ [(fd, path)] \<and>
    gl_config (ch_globals c') = gl_config (ch_globals c) \<and>
    gl_unlink_directory (ch_globals c') = gl_unlink_directory (ch_globals c) \<and>
    ch_pipe c' = ch_pipe c \<and> ch_removed c' = ch_removed c \<and> ch_shared c' = ch_shared c"
proof -
  let ?c = "child_ends E c"
  have ends: "gl_config (ch_globals ?c) = gl_config (ch_globals c)" "ch_state ?c = ch_state c"
      "gl_unlink_directory (ch_globals ?c) = gl_unlink_directory (ch_globals c)" "ch_pipe ?c = ch_pipe c"
      "ch_removed ?c = ch_removed c" "ch_shared ?c = ch_shared c"
      "pr_bound (gl_process (ch_globals ?c)) = pr_bound (gl_process (ch_globals c))"
    by (auto simp: child_ends_def bcd_io_init_def bcd_pipe_ensure_readonly_def bcd_pipe_ensure_writeonly_def
        Let_def split: prod.split io_result.split)
  obtain fd where fd: "le_socket (ce_listener E) = Ok fd"
    using assms(1) by (auto simp: child_answers_def Let_def)
  note li = fd listener_ready [OF assms(1) fd]
  obtain a1 a2 where priv: "bcd_chown (ce_users E) (ce_privileges E) (gl_config (ch_globals c)) path = Some (0, None, a1)"
      "bcd_suid (ce_users E) (ce_privileges E) (gl_config (ch_globals c)) = Some (0, None, a2)"
    using assms(1) by (auto simp: child_answers_def Let_def)
  have cfg: "cf_ipc_us_path (gl_config (ch_globals c)) = Some path" "ce_listener_ctl E"
    using assms(1) by (simp_all add: child_answers_def Let_def)
  let ?L0 = "\<lparr>io_events = (\<lambda>_. None), readyevents = []\<rparr> :: io_payload io_loop"
  let ?L1 = "\<lparr>io_events = [i \<mapsto> \<lparr>ev_fd = fd, ev_mask = 0, ev_in_ready = True,
      ev_payload = Listener\<rparr>], readyevents = [i]\<rparr>"
  have handler: "bcd_io_listener_handler (Some i) True \<lparr>li_fd = fd, li_path = path\<rparr> ?L0 = Some (0, ?L1)"
    by (simp add: bcd_io_listener_handler_def event_defs)
  show ?thesis
    using ends li priv cfg handler assms(2,3) by (simp add: child_socket_def Let_def)
qed

lemma child_announce_ready:
  assumes "cf_ipc_us_path (gl_config (ch_globals c)) = Some path" and "length path < SUN_PATH"
    and "wr_events (ch_pipe c) = Wr_room k # ws" and "8 + length path + 1 \<le> k"
  shows "child_announce c = Some (None, c\<lparr>ch_pipe := (ch_pipe c)\<lparr>wr_events := ws,
    sent := sent (ch_pipe c) @ packet_bytes BCD_OP_CF (path @ [0])\<rparr>\<rparr>)"
proof -
  have "packet_bytes BCD_OP_CF (path @ [0]) \<noteq> []"
    by (rule packet_bytes_not_Nil)
  then show ?thesis
    using assms fd_write_room [OF assms(3), of "packet_bytes BCD_OP_CF (path @ [0])"]
    by (simp add: child_announce_def bcd_sb_write_def SUN_PATH_def BCD_SB_PATH_def)
qed

lemma child_watch_ready:
  assumes "io_events (fst (ch_state c)) i = None" and "i \<notin> set (readyevents (fst (ch_state c)))"
  shows "child_watch E (Some i) True fd p m1 m2 c = Some (None, c\<lparr>ch_state :=
    ((fst (ch_state c))\<lparr>io_events := (io_events (fst (ch_state c)))(i \<mapsto>
       \<lparr>ev_fd = fd, ev_mask = 0, ev_in_ready = True, ev_payload = p\<rparr>),
     readyevents := readyevents (fst (ch_state c)) @ [i]\<rparr>, snd (ch_state c))\<rparr>)"
  using assms by (simp add: child_watch_def event_defs)

lemma child_setup_ready:
  assumes "child_ready E c path"
    and "ch_state c = (\<lparr>io_events = (\<lambda>_. None), readyevents = []\<rparr>, w)"
  shows "\<exists>c' fd. child_setup E c = Some (None, c') \<and> watches E c' \<and> snd (ch_state c') = w \<and>
    le_socket (ce_listener E) = Ok fd \<and>
    pr_bound (gl_process (ch_globals c')) = pr_bound (gl_process (ch_globals c)) @ [(fd, path)] \<and>
    sent (ch_pipe c') = sent (ch_pipe c) @ packet_bytes BCD_OP_CF (path @ [0]) \<and>
    gl_config (ch_globals c') = gl_config (ch_globals c) \<and>
    gl_unlink_directory (ch_globals c') = gl_unlink_directory (ch_globals c) \<and>
    ch_removed c' = ch_removed c \<and>
    ch_shared c' = initialized E (gl_config (ch_globals c)) (ch_shared c)"
proof -
  let ?c1 = "c\<lparr>ch_globals := (ch_globals c)\<lparr>gl_sigmask := 0\<rparr>,
    ch_umask := cf_umask (gl_config (ch_globals c)),
    ch_shared := initialized E (gl_config (ch_globals c)) (ch_shared c)\<rparr>"
  have r0: "child_answers E c path"
    using assms(1) by (simp add: child_ready_def)
  then have r1: "child_answers E ?c1 path"
    by (simp add: child_answers_def Let_def)
  obtain i j k where ev: "ce_listener_event E = Some i" "ce_monitor_event E = Some j"
      "ce_master_event E = Some k" "distinct [i, j, k]"
    using assms(1) by (auto simp: child_ready_def child_answers_def Let_def)
  have ctl: "ce_monitor_ctl E" "ce_master_ctl E"
    using assms(1) by (simp_all add: child_ready_def child_answers_def Let_def)
  obtain c2 fd where c2: "child_socket E ?c1 = Some (None, c2)" "le_socket (ce_listener E) = Ok fd"
      "ch_state c2 = (\<lparr>io_events = [i \<mapsto> \<lparr>ev_fd = fd, ev_mask = 0, ev_in_ready = True,
        ev_payload = Listener\<rparr>], readyevents = [i]\<rparr>, w)"
      "pr_bound (gl_process (ch_globals c2)) = pr_bound (gl_process (ch_globals c)) @ [(fd, path)]"
      "gl_config (ch_globals c2) = gl_config (ch_globals c)"
      "gl_unlink_directory (ch_globals c2) = gl_unlink_directory (ch_globals c)"
      "ch_pipe c2 = ch_pipe c" "ch_removed c2 = ch_removed c"
      "ch_shared c2 = initialized E (gl_config (ch_globals c)) (ch_shared c)"
    using child_socket_ready [OF r1 ev(1), of w] assms(2) by auto
  obtain n ws where room: "wr_events (ch_pipe c2) = Wr_room n # ws" "8 + length path + 1 \<le> n"
    using assms(1) c2(7) by (auto simp: child_ready_def child_answers_def Let_def)
  have path: "cf_ipc_us_path (gl_config (ch_globals c2)) = Some path" "length path < SUN_PATH"
    using assms(1) c2(5) by (simp_all add: child_ready_def child_answers_def Let_def)
  note announce = child_announce_ready [OF path room]
  show ?thesis
    using child_init_ready [OF assms(1)] child_prepare_ready [OF r0] c2 announce ev ctl
    by (simp add: child_setup_def and_then_def child_watch_ready watches_def)
qed

lemma watches_inv:
  assumes "watches E c" and "monitor_ok (w_monitor (snd (ch_state c)))"
    and "kv_list (w_monitor (snd (ch_state c))) = []" and "arg_list (w_monitor (snd (ch_state c))) = []"
    and "distinct (readyevents (fst (ch_state c)))"
  shows "loop_inv 0 (ch_state c)"
  using assms
  by (auto simp: watches_def loop_inv_def monitor_within_def ready_ok_def client_ok_def split: if_splits)


section \<open>The handshake\<close>

text \<open>The parent receives a path.\<close>

lemma init_receive_path:
  assumes "rd_live (rd_events (ie_pipe E))"
    and "rd_bytes (rd_events (ie_pipe E)) = packet_bytes BCD_OP_CF (path @ [0]) @ rest"
    and "ready_selects (sel_events (ie_pipe E))"
    and "rd_waits (rd_events (ie_pipe E)) \<le> length (sel_events (ie_pipe E))"
    and "cstr_ok path" and "length path < BCD_SB_PATH" and "length buf = sizeof_packet + BCD_SB_PATH"
    and "ie_mprotect E = None"
  shows "init_receive E buf G = Some (0, G\<lparr>gl_sb := (gl_sb G)\<lparr>sb_path := path\<rparr>\<rparr>)"
proof -
  let ?d = "path @ [0 :: byte]" and ?timeout = "cf_timeout (gl_config G)"
  let ?b = "patch buf 0 (packet_bytes BCD_OP_CF ?d)"
  have len: "length buf = 1032" "length path < 1024"
    using assms(6,7) by (simp_all add: sizeof_packet_def BCD_SB_PATH_def)
  obtain env' where read: "bcd_sb_read buf BCD_SB_PATH ?timeout (ie_now E + int (unat ?timeout)) (ie_pipe E) =
      Some (0, None, ?b, env')"
    using bcd_sb_read_packet [OF assms(1-4), of BCD_SB_PATH buf ?timeout "ie_now E + int (unat ?timeout)"] len
    by (auto simp: BCD_SB_PATH_def)
  have "at_mem ?b 0 (packet_bytes BCD_OP_CF ?d)"
    using len by (intro at_mem_patch_same) simp
  then have parts: "at_mem ?b 0 (enc32 (op_value BCD_OP_CF))"
      "at_mem ?b 4 (enc32 (of_nat (length ?d)))" "at_mem ?b 8 ?d"
    by (simp_all add: packet_bytes_def at_mem_append)
  have p: "packet_op ?b = Some (op_value BCD_OP_CF)"
    and l: "packet_length ?b = Some (of_nat (length ?d))"
    using parts by (simp_all add: packet_op_def packet_length_def load32_at)
  have n: "unat (of_nat (length ?d) :: u32) = length ?d"
    by (subst unat_of_nat) (use len in simp)
  have body: "take (length ?d) (drop 8 ?b) = ?d"
    using parts(3) by (simp add: at_mem_def)
  have "at_mem (take (8 + length ?d) ?b) 8 ?d"
    using body len by (simp add: at_mem_def take_drop min_def add.commute)
  then have sl: "mem_strlen (take (sizeof_packet + length ?d) ?b) sizeof_packet = Some (length path)"
    using mem_strlen_cstr [OF _ assms(5)] by (simp add: sizeof_packet_def)
  have "take (length path) (drop 8 ?b) = take (length path) (take (length ?d) (drop 8 ?b))"
    by simp
  then have path: "take (length path) (drop 8 ?b) = path"
    unfolding body by simp
  have m: "\<not> BCD_SB_PATH < length ?d"
    using len by (simp add: BCD_SB_PATH_def)
  have copy: "snd (strlcpy dst path BCD_SB_PATH) = path" for dst
    using assms(6) by (simp add: strlcpy_fits)
  show ?thesis
    unfolding init_receive_def Let_def read Option.bind.bind_lunit prod.case p op_of_value l n if_not_P [OF m] sl
    using path assms(8) by (simp add: set_error_def sizeof_packet_def copy)
qed

lemma forked_simps [simp]:
  "gl_config (ch_globals (forked F pipe m)) = gl_config F"
  "gl_unlink_directory (ch_globals (forked F pipe m)) = gl_unlink_directory F"
  "gl_sb (ch_globals (forked F pipe m)) = gl_sb F"
  "gl_process (ch_globals (forked F pipe m)) = gl_process F"
  "ch_pipe (forked F pipe m) = pipe" "ch_removed (forked F pipe m) = []"
  "ch_shared (forked F pipe m) = m"
  "ch_state (forked F pipe m) = (\<lparr>io_events = (\<lambda>_. None), readyevents = []\<rparr>,
    \<lparr>w_monitor = start_monitor (gl_config F) (sb_master_pid (gl_sb F)), w_closed = []\<rparr>)"
  by (simp_all add: forked_def bcd_os_fork_def)

lemma child_setup_forked:
  assumes "child_ready E (forked F pipe m) path"
  shows "\<exists>c fd. child_setup E (forked F pipe m) = Some (None, c) \<and> watches E c \<and>
    le_socket (ce_listener E) = Ok fd \<and>
    pr_bound (gl_process (ch_globals c)) = pr_bound (gl_process F) @ [(fd, path)] \<and>
    snd (ch_state c) =
      \<lparr>w_monitor = start_monitor (gl_config F) (sb_master_pid (gl_sb F)), w_closed = []\<rparr> \<and>
    sent (ch_pipe c) = sent pipe @ packet_bytes BCD_OP_CF (path @ [0]) \<and>
    gl_config (ch_globals c) = gl_config F \<and> gl_unlink_directory (ch_globals c) = gl_unlink_directory F \<and>
    ch_removed c = [] \<and> ch_shared c = initialized E (gl_config F) m \<and> loop_inv 0 (ch_state c)"
proof -
  obtain c fd where c: "child_setup E (forked F pipe m) = Some (None, c)" "watches E c"
      "snd (ch_state c) =
        \<lparr>w_monitor = start_monitor (gl_config F) (sb_master_pid (gl_sb F)), w_closed = []\<rparr>"
      "sent (ch_pipe c) = sent pipe @ packet_bytes BCD_OP_CF (path @ [0])"
      "gl_config (ch_globals c) = gl_config F" "gl_unlink_directory (ch_globals c) = gl_unlink_directory F"
      "ch_removed c = []" "ch_shared c = initialized E (gl_config F) m"
      "le_socket (ce_listener E) = Ok fd"
      "pr_bound (gl_process (ch_globals c)) = pr_bound (gl_process F) @ [(fd, path)]"
    using child_setup_ready [OF assms forked_simps(8)] by (auto simp only: forked_simps)
  have "distinct (readyevents (fst (ch_state c)))"
    using c(2) assms by (auto simp: watches_def child_ready_def child_answers_def Let_def)
  then have "loop_inv 0 (ch_state c)"
    using watches_inv [OF c(2)] c(3) monitor_ok_start by simp
  with c show ?thesis by blast
qed

lemma fork_parent:
  "pid \<noteq> 0 \<Longrightarrow> bcd_os_fork (Ok pid) G = (pid, G)"
  by (simp add: bcd_os_fork_def)

lemma listener_watched:
  assumes "child_ready E c0 path" and "watches E c" and "le_socket (ce_listener E) = Ok fd"
  shows "\<exists>i ev. io_events (fst (ch_state c)) i = Some ev \<and> ev_payload ev = Listener \<and> ev_fd ev = fd"
proof -
  obtain i j k where "ce_listener_event E = Some i" "ce_monitor_event E = Some j"
      "ce_master_event E = Some k" "distinct [i, j, k]"
    using assms(1) by (auto simp: child_ready_def child_answers_def Let_def)
  with assms(2,3) show ?thesis
    by (auto simp: watches_def intro!: exI [of _ i])
qed

text \<open>
  C15: the two processes agree. When the parent's \<open>bcd_init\<close> (configured without an output
  file) reaches its fork, every call of the child answers, and the bytes the parent finds on
  the pipe are those the child sent, in any fragments, then the child binds one socket, enters
  its event loop with that socket and both pipes watched, the shared memory as the client's
  initialization leaves it and the monitor's invariant; and \<open>bcd_init\<close> returns 0 with the
  path this socket is bound to.
\<close>

theorem bcd_startup_handshake:
  assumes "init_before_fork dh E cf G = Some (0, F)"
    and "ie_fork E = Ok pid" and "0 < pid" and "ie_mprotect E = None"
    and "child_ready C (forked F pipe m) path" and "sent pipe = []"
    and "length buf = sizeof_packet + BCD_SB_PATH"
    and "\<And>c. child_setup C (forked F pipe m) = Some (None, c) \<Longrightarrow>
      rd_bytes (rd_events (ie_pipe E)) = sent (ch_pipe c)"
    and "rd_live (rd_events (ie_pipe E))" and "ready_selects (sel_events (ie_pipe E))"
    and "rd_waits (rd_events (ie_pipe E)) \<le> length (sel_events (ie_pipe E))"
  shows "\<exists>c G' i ev. child_setup C (forked F pipe m) = Some (None, c) \<and>
    bcd_child C (forked F pipe m) = child_loop C c \<and> watches C c \<and> loop_inv 0 (ch_state c) \<and>
    ch_shared c = initialized C (gl_config F) m \<and>
    bcd_init dh E buf cf G = Some (0, G') \<and> sb_monitor_pid (gl_sb G') = pid \<and>
    io_events (fst (ch_state c)) i = Some ev \<and> ev_payload ev = Listener \<and>
    pr_bound (gl_process (ch_globals c)) = pr_bound (gl_process F) @ [(ev_fd ev, sb_path (gl_sb G'))]"
proof -
  let ?c = "forked F pipe m"
  obtain c fd where c: "child_setup C ?c = Some (None, c)" "watches C c" "loop_inv 0 (ch_state c)"
      "sent (ch_pipe c) = packet_bytes BCD_OP_CF (path @ [0])"
      "ch_shared c = initialized C (gl_config F) m" "le_socket (ce_listener C) = Ok fd"
      "pr_bound (gl_process (ch_globals c)) = pr_bound (gl_process F) @ [(fd, path)]"
    using child_setup_forked [OF assms(5)] assms(6) by auto
  have run: "bcd_child C ?c = child_loop C c"
    by (simp add: bcd_child_def c(1))
  have path: "cstr_ok path" "length path < BCD_SB_PATH"
    using assms(5) by (simp_all add: child_ready_def child_answers_def Let_def SUN_PATH_def BCD_SB_PATH_def)
  have bytes: "rd_bytes (rd_events (ie_pipe E)) = packet_bytes BCD_OP_CF (path @ [0]) @ []"
    using assms(8) [OF c(1)] c(4) by simp
  note receive = init_receive_path [OF assms(9) bytes assms(10,11) path assms(7,4)]
  have "bcd_init dh E buf cf G = init_receive E buf (parent_ends pid F)"
    using assms(1-3) by (simp add: bcd_init_def fork_parent)
  then obtain G' where G': "bcd_init dh E buf cf G = Some (0, G')" "sb_path (gl_sb G') = path"
      "sb_monitor_pid (gl_sb G') = pid"
    unfolding receive
    by (simp add: parent_ends_def bcd_pipe_ensure_readonly_def bcd_pipe_ensure_writeonly_def Let_def)
  obtain i ev where ev: "io_events (fst (ch_state c)) i = Some ev" "ev_payload ev = Listener" "ev_fd ev = fd"
    using listener_watched [OF assms(5) c(2,6)] by blast
  show ?thesis
    using c(1-3,5,7) run G' ev by (intro exI [of _ c] exI [of _ G'] exI [of _ i] exI [of _ ev]) simp
qed



section \<open>An example\<close>

definition example_child :: "io_turn list \<Rightarrow> child_env" where
  "example_child Ts = \<lparr>ce_monitor_init = (\<lambda>_ _. None), ce_affinity = (\<lambda>_. None), ce_dup2_out = [], ce_dup2_err = [], ce_getpid = 78,
     ce_oom_opens = [], ce_oom_writes = [], ce_prctl = None, ce_asprintf = True, ce_epoll = Ok 7,
     ce_errno = E_INTR,
     ce_listener = \<lparr>le_calloc = True, le_strdup = True, le_socket = Ok 8,
       le_fcntl = \<lparr>fc_getfl = (\<lambda>_. 0), fc_setfl = (\<lambda>_ _. True), fc_errno = E_INTR\<rparr>,
       le_unlink = Some ENOENT, le_bind = None, le_listen = None\<rparr>,
     ce_users = example_db, ce_privileges = root_privileges,
     ce_listener_event = Some 0, ce_listener_ctl = True, ce_monitor_event = Some 1, ce_monitor_ctl = True,
     ce_master_event = Some 2, ce_master_ctl = True,
     ce_master = \<lparr>rd_events = [], wr_events = [], sel_events = [], sent = []\<rparr>, ce_turns = Ts\<rparr>"

definition example_pipe_out :: io_env where
  "example_pipe_out = \<lparr>rd_events = [], wr_events = [Wr_room 4096], sel_events = [], sent = []\<rparr>"

definition example_forked :: bcd_globals where
  "example_forked = example_globals\<lparr>gl_config := example_config,
     gl_sb := \<lparr>sb_master_pid = 77, sb_monitor_pid = 0, sb_master = \<lparr>pipe_rd = 5, pipe_wr = 6\<rparr>,
       sb_monitor = \<lparr>pipe_rd = 3, pipe_wr = 4\<rparr>, sb_path = [], sb_output_fd = -1\<rparr>,
     gl_process := \<lparr>pr_open = {6, 5, 4, 3, 0, 1, 2}, pr_stray = [], pr_bound = []\<rparr>\<rparr>"


lemma example_before_fork:
  "init_before_fork 5 (example_init fork es) (Some example_config) example_globals =
    Some (0, example_forked)"
  by (simp add: init_before_fork_def bcd_config_assign_def bcd_config_assign_from_v1_def
      example_config_def example_globals_def example_init_def init_path_def init_output_def
      init_pipes_def bcd_pipe_init_def prepare_fd_def bcd_io_fd_prepare_def
      bcd_config_init_v1_def Let_def set_error_def example_forked_def pr_add_def)

lemma child_ready_example:
  "child_ready (example_child Ts) (forked example_forked example_pipe_out []) (cstr_of ''/run/b'')"
  by (simp add: child_ready_def child_answers_def forked_def bcd_os_fork_def example_forked_def example_globals_def
      example_config_def example_child_def example_pipe_out_def bcd_config_init_v1_def cstr_of_def
      SUN_PATH_def cstr_ok_def prepare_fd_def bcd_io_fd_prepare_def bcd_chown_def bcd_suid_def
      suid_user_def Let_def)


theorem bcd_startup_handshake_witness:
  "\<exists>c G' sfd. bcd_init 5 (example_init (Ok 78) [Rd_data (packet_bytes BCD_OP_CF (cstr_of ''/run/b'' @ [0]))])
      (replicate 1032 0) (Some example_config) example_globals = Some (0, G') \<and>
    child_setup (example_child []) (forked example_forked example_pipe_out []) = Some (None, c) \<and>
    pr_bound (gl_process (ch_globals c)) = [(sfd, sb_path (gl_sb G'))]"
proof -
  let ?E = "example_init (Ok 78) [Rd_data (packet_bytes BCD_OP_CF (cstr_of ''/run/b'' @ [0]))]"
  let ?w = "\<lparr>w_monitor = start_monitor (gl_config example_forked) (sb_master_pid (gl_sb example_forked)), w_closed = []\<rparr>"
  have st: "ch_state (forked example_forked example_pipe_out []) = (\<lparr>io_events = (\<lambda>_. None), readyevents = []\<rparr>, ?w)"
    by (simp add: forked_def)
  have sent: "rd_bytes (rd_events (ie_pipe ?E)) = sent (ch_pipe c)"
    if "child_setup (example_child []) (forked example_forked example_pipe_out []) = Some (None, c)" for c
    using child_setup_ready [OF child_ready_example st, of "[]"] that
    by (auto simp: example_init_def forked_def example_pipe_out_def)
  have call: "ie_fork ?E = Ok 78" "(0::int) < 78" "ie_mprotect ?E = None" "sent example_pipe_out = []"
      "length (replicate 1032 (0::byte)) = sizeof_packet + BCD_SB_PATH"
    by (simp_all add: example_init_def example_pipe_out_def sizeof_packet_def BCD_SB_PATH_def)
  have pipe: "rd_live (rd_events (ie_pipe ?E))" "ready_selects (sel_events (ie_pipe ?E))"
      "rd_waits (rd_events (ie_pipe ?E)) \<le> length (sel_events (ie_pipe ?E))"
    by (simp_all add: example_init_def ready_selects_def)
  have "pr_bound (gl_process example_forked) = []"
    by (simp add: example_forked_def)
  with bcd_startup_handshake [OF example_before_fork call(1-3) child_ready_example call(4,5) sent pipe]
  show ?thesis by (simp only: append_Nil) blast
qed

end
