(* ===== verification/Example_Programs.thy ===== *)
theory Example_Programs
  imports Example_Bcd Example_Crashpad Bcd_Child
begin

text \<open>
  The programs under \<open>examples/\<close> that use bcd, from \<open>main\<close> to the crash: each creates the
  shared memory, configures and starts the monitor, attaches to it, lets it trace the process,
  and starts crashpad with its first-chance handler. This theory has the body they share,
  \<open>bcd\<close> and \<open>bcd-dumpwithoutcrash\<close>; \<open>bcd-poison\<close> is in \<open>Example_Poison\<close>, \<open>crashpad-remote\<close> in
  \<open>Example_Remote\<close>.
\<close>

section \<open>Crashpad in the programs\<close>

definition bcd_startCrashHandler :: "crashpad_lib \<Rightarrow> crashpad_client \<Rightarrow> bool \<times> crashpad_client" where
  "bcd_startCrashHandler = start_crash_handler ''https://your_host.sp.backtrace.io:6098/''"

definition bcd_initCrashpad ::
    "crashpad_lib \<Rightarrow> bun_buffer \<Rightarrow> ptr \<Rightarrow> crashpad_client \<Rightarrow> bool \<times> crashpad_client" where
  "bcd_initCrashpad = init_crashpad bcd_startCrashHandler"

definition poison_startCrashHandler :: "crashpad_lib \<Rightarrow> crashpad_client \<Rightarrow> bool \<times> crashpad_client" where
  "poison_startCrashHandler = start_crash_handler ''https://your_host.sp.backtrace.io:6098/''"

definition poison_initCrashpad ::
    "crashpad_lib \<Rightarrow> bun_buffer \<Rightarrow> ptr \<Rightarrow> crashpad_client \<Rightarrow> bool \<times> crashpad_client" where
  "poison_initCrashpad = init_crashpad poison_startCrashHandler"

text \<open>The address in \<open>bcd-dumpwithoutcrash\<close> has no final slash.\<close>

definition dump_startCrashHandler :: "crashpad_lib \<Rightarrow> crashpad_client \<Rightarrow> bool \<times> crashpad_client" where
  "dump_startCrashHandler = start_crash_handler ''https://your_host.sp.backtrace.io:6098''"

definition dump_initCrashpad ::
    "crashpad_lib \<Rightarrow> bun_buffer \<Rightarrow> ptr \<Rightarrow> crashpad_client \<Rightarrow> bool \<times> crashpad_client" where
  "dump_initCrashpad = init_crashpad dump_startCrashHandler"

definition dumpWithoutCrash :: "ptr \<Rightarrow> crashpad_client \<Rightarrow> crashpad_client" where
  "dumpWithoutCrash context CP = CP\<lparr>cc_dumps := cc_dumps CP @ [context]\<rparr>"

section \<open>The programs with bcd\<close>

datatype prctl_call = PR_SET_PTRACER u32 | PR_SET_DUMPABLE nat

text \<open>
  What \<open>main\<close> meets: the operating system, the default error handler, the addresses of its
  callbacks, the uninitialized locals, the calls inside \<open>bcd_init\<close> and \<open>bcd_attach\<close>, the
  shared memory as it is when \<open>bcd_init\<close> has returned, and crashpad.
\<close>

record client_calls =
  xc_os :: example_os
  xc_default_handler :: ptr
  xc_request_handler :: ptr
  xc_monitor_init :: ptr
  xc_first_chance :: ptr
  xc_config :: bcd_config
  xc_bcd :: bcd_handle
  xc_globals :: bcd_globals
  xc_init :: init_env
  xc_packet :: mem
  xc_shared :: mem
  xc_socket :: "int io_result"
  xc_connects :: "unit io_result list"
  xc_fcntl :: "io_errno option"
  xc_tid :: u32
  xc_now :: int
  xc_io :: io_env
  xc_crashpad :: crashpad_lib

record client_process =
  ep_globals :: bcd_globals
  ep_bcd :: bcd_handle
  ep_caller :: bcd_caller
  ep_buffer :: bun_buffer
  ep_shared :: mem
  ep_prctl :: "prctl_call list"
  ep_client :: crashpad_client

definition client_caller :: "client_calls \<Rightarrow> bcd_globals \<Rightarrow> bcd_caller" where
  "client_caller X G = \<lparr>ca_timeout = cf_timeout (gl_config G), ca_now = xc_now X, ca_env = xc_io X,
     ca_closed = []\<rparr>"

text \<open>
  The body the three \<open>main\<close> functions share, over how a program creates its memory, the
  size, and its \<open>initCrashpad\<close>. Addresses are relative to the mapping.
\<close>

definition client_main ::
    "(example_os \<Rightarrow> (int \<times> mem) may_abort option) \<Rightarrow> nat
      \<Rightarrow> (crashpad_lib \<Rightarrow> bun_buffer \<Rightarrow> ptr \<Rightarrow> crashpad_client \<Rightarrow> bool \<times> crashpad_client)
      \<Rightarrow> client_calls \<Rightarrow> client_process program_end option" where
  "client_main create sz initCrashpad X = do {
     created \<leftarrow> create (xc_os X);
     case created of
       Abort \<Rightarrow> Some Program_aborts
     | Proceeds (buffer_fd, buffer) \<Rightarrow>
         (case example_configure (xc_default_handler X) (xc_config X) (xc_request_handler X) (xc_monitor_init X) of
            Abort \<Rightarrow> Some Program_aborts
          | Proceeds cf \<Rightarrow> do {
              (r, G) \<leftarrow> bcd_init (xc_default_handler X) (xc_init X) (xc_packet X) (Some cf) (xc_globals X);
              if r = -1 then Some Program_aborts
              else do {
                (r, bcd, e, C) \<leftarrow> bcd_attach (xc_bcd X) (xc_socket X) (xc_connects X) (xc_fcntl X) (xc_tid X)
                  (client_caller X G);
                if r = -1 then Some Program_aborts
                else do {
                  let buf = \<lparr>buf_data = 0, buf_size = of_nat sz\<rparr>;
                  child_pid \<leftarrow> load32 (xc_shared X) 0;
                  let (initialized, CP) = initCrashpad (xc_crashpad X) buf (xc_first_chance X) crashpad_fresh;
                  if \<not> initialized then Some (Program_exits EXIT_FAILURE_STATUS)
                  else Some (Program_crashes \<lparr>ep_globals = G, ep_bcd = bcd, ep_caller = C, ep_buffer = buf,
                    ep_shared = xc_shared X, ep_prctl = [PR_SET_PTRACER child_pid, PR_SET_DUMPABLE 1],
                    ep_client = CP\<rparr>)
                }
              }
            })
   }"

definition bcd_main :: "client_calls \<Rightarrow> client_process program_end option" where
  "bcd_main = client_main buffer_create BUFFER_SIZE bcd_initCrashpad"

text \<open>The trace requested from the first-chance handler with a dump; \<open>flag\<close> is thread-local.\<close>

definition dump_FirstChanceHandler ::
    "ptr \<Rightarrow> bool \<Rightarrow> client_process \<Rightarrow> (bool \<times> bool \<times> client_process) option" where
  "dump_FirstChanceHandler context flag Q =
     (if flag = False then do {
        let flag = True;
        C \<leftarrow> bcd_emit (ep_bcd Q) (ep_caller Q);
        Some (True, flag, Q\<lparr>ep_caller := C, ep_client := dumpWithoutCrash context (ep_client Q)\<rparr>)
      } else Some (False, flag, Q))"

text \<open>
  After the first signal of a thread, which it claims to have handled, its further signals
  are left to crashpad.
\<close>

lemma dump_chance_once:
  assumes "dump_FirstChanceHandler context False Q = Some (handled, flag, Q')"
  shows "handled \<and> dump_FirstChanceHandler context2 flag Q' = Some (False, flag, Q') \<and>
    cc_dumps (ep_client Q') = cc_dumps (ep_client Q) @ [context]"
  using assms by (auto simp: dump_FirstChanceHandler_def dumpWithoutCrash_def Let_def bind_eq_Some_conv)

definition dump_main :: "client_calls \<Rightarrow> client_process program_end option" where
  "dump_main = client_main buffer_create BUFFER_SIZE dump_initCrashpad"

subsection \<open>What a program that crashes has done\<close>

lemma client_main_crashes:
  assumes "client_main create sz initCrashpad X = Some (Program_crashes Q)"
  obtains fd m cf r G a bcd e C pid CP where
    "create (xc_os X) = Some (Proceeds (fd, m))"
    "example_configure (xc_default_handler X) (xc_config X) (xc_request_handler X) (xc_monitor_init X) =
      Proceeds cf"
    "bcd_init (xc_default_handler X) (xc_init X) (xc_packet X) (Some cf) (xc_globals X) = Some (r, G)"
    "r \<noteq> -1"
    "bcd_attach (xc_bcd X) (xc_socket X) (xc_connects X) (xc_fcntl X) (xc_tid X) (client_caller X G) =
      Some (a, bcd, e, C)"
    "a \<noteq> -1" "load32 (xc_shared X) 0 = Some pid"
    "initCrashpad (xc_crashpad X) \<lparr>buf_data = 0, buf_size = of_nat sz\<rparr> (xc_first_chance X) crashpad_fresh =
      (True, CP)"
    "Q = \<lparr>ep_globals = G, ep_bcd = bcd, ep_caller = C, ep_buffer = \<lparr>buf_data = 0, buf_size = of_nat sz\<rparr>,
      ep_shared = xc_shared X, ep_prctl = [PR_SET_PTRACER pid, PR_SET_DUMPABLE 1], ep_client = CP\<rparr>"
proof -
  let ?b = "\<lparr>buf_data = 0, buf_size = of_nat sz\<rparr>"
  obtain y where y: "create (xc_os X) = Some y"
    using assms by (cases "create (xc_os X)") (simp_all add: client_main_def)
  obtain fd m where created: "create (xc_os X) = Some (Proceeds (fd, m))"
    using assms y by (cases y) (auto simp: client_main_def)
  obtain cf where cf: "example_configure (xc_default_handler X) (xc_config X) (xc_request_handler X)
      (xc_monitor_init X) = Proceeds cf"
    using assms created
    by (cases "example_configure (xc_default_handler X) (xc_config X) (xc_request_handler X) (xc_monitor_init X)")
      (simp_all add: client_main_def)
  obtain r G where init:
    "bcd_init (xc_default_handler X) (xc_init X) (xc_packet X) (Some cf) (xc_globals X) = Some (r, G)"
    using assms created cf
    by (cases "bcd_init (xc_default_handler X) (xc_init X) (xc_packet X) (Some cf) (xc_globals X)")
      (auto simp: client_main_def)
  note run = assms [unfolded client_main_def created cf Option.bind.bind_lunit may_abort.case prod.case init]
  have r: "r \<noteq> -1"
    using run by auto
  obtain a bcd e C where attach: "bcd_attach (xc_bcd X) (xc_socket X) (xc_connects X) (xc_fcntl X) (xc_tid X)
      (client_caller X G) = Some (a, bcd, e, C)"
    using run r
    by (cases "bcd_attach (xc_bcd X) (xc_socket X) (xc_connects X) (xc_fcntl X) (xc_tid X) (client_caller X G)")
      auto
  obtain ok CP where crash: "initCrashpad (xc_crashpad X) ?b (xc_first_chance X) crashpad_fresh = (ok, CP)"
    by fastforce
  obtain pid where pid: "load32 (xc_shared X) 0 = Some pid"
    using run r attach by (cases "load32 (xc_shared X) 0") (auto simp: Let_def split: if_split_asm)
  have a: "a \<noteq> -1"
    using run r attach by auto
  have "ok" "Q = \<lparr>ep_globals = G, ep_bcd = bcd, ep_caller = C, ep_buffer = ?b,
      ep_shared = xc_shared X, ep_prctl = [PR_SET_PTRACER pid, PR_SET_DUMPABLE 1], ep_client = CP\<rparr>"
    using run r attach pid crash by (auto simp: Let_def split: if_split_asm)
  with created cf init r attach a pid crash show thesis
    by (intro that [of fd m cf r G a bcd e C pid CP]) simp_all
qed

section \<open>The memory the two processes share\<close>

text \<open>
  The example's \<open>monitor_init\<close> as the monitor calls it: if the memory can be mapped, the
  mapping shows its contents \<open>m\<close>.
\<close>

definition monitor_init_call ::
    "example_os \<Rightarrow> int \<Rightarrow> u32 \<Rightarrow> ptr \<Rightarrow> ptr \<Rightarrow> mem \<Rightarrow> mem option" where
  "monitor_init_call os fd pid init p m =
     (if p \<noteq> init \<or> xo_mmap os fd = None then None
      else case monitor_init (os\<lparr>xo_mmap := [fd \<mapsto> m]\<rparr>) fd pid of
             Some (Proceeds m') \<Rightarrow> Some m'
           | _ \<Rightarrow> None)"

lemma monitor_init_call_patch:
  assumes "monitor_init_call os fd pid init init m = Some m'"
  shows "m' = patch m 0 (enc32 pid)" and "4 \<le> length m"
  using assms
  by (auto simp: monitor_init_call_def monitor_init_def buffer_reader_def store_def patch_def
      split: if_split_asm may_abort.split_asm option.split_asm)

text \<open>What the configuration says reaches the child.\<close>

lemma init_before_fork_config:
  assumes "init_before_fork dh E (Some cf) G = Some (0, F)"
  shows "cf_monitor_init (gl_config F) = cf_monitor_init cf"
    and "cf_request_handler (gl_config F) = cf_request_handler cf"
proof -
  have path: "cf_monitor_init (gl_config (snd (init_path E G'))) = cf_monitor_init (gl_config G')"
      "cf_request_handler (gl_config (snd (init_path E G'))) = cf_request_handler (gl_config G')" for G'
    by (auto simp: init_path_def set_error_def Let_def split: option.split)
  have out: "gl_config G2 = gl_config G1" if "init_output E G1 = Some (r, G2)" for r G1 G2
  proof (cases "retry_eintr (ie_opens E)")
    case None
    with that show ?thesis
      by (auto simp: init_output_def Let_def split: option.split_asm if_split_asm)
  next
    case (Some res)
    with that show ?thesis
      by (cases res) (auto simp: init_output_def set_error_def Let_def split: option.split_asm if_split_asm)
  qed
  have pipes: "gl_config (snd (init_pipes E G')) = gl_config G'" for G'
    by (auto simp: init_pipes_def set_error_def set_message_def Let_def split: prod.split option.split)
  obtain r g where assign: "bcd_config_assign (gl_config G) cf = (r, g)"
    by fastforce
  then have g: "r = 0 \<Longrightarrow> cf_monitor_init g = cf_monitor_init cf \<and> cf_request_handler g = cf_request_handler cf"
    by (auto simp: bcd_config_assign_def bcd_config_assign_from_v1_def split: if_split_asm)
  obtain r1 G1 where p: "init_path E (G\<lparr>gl_config := g\<rparr>) = (r1, G1)"
    by fastforce
  have "r = 0" "r1 \<noteq> -1"
    using assms assign p by (auto simp: init_before_fork_def Let_def split: if_split_asm)
  then obtain r2 G2 where o2: "init_output E G1 = Some (r2, G2)"
      "(0, F) = init_pipes E (G2\<lparr>gl_sb := (gl_sb G2)\<lparr>sb_master_pid := ie_getpid E\<rparr>\<rparr>)"
    using assms assign p
    by (cases "init_output E G1") (auto simp: init_before_fork_def Let_def split: if_split_asm)
  have "gl_config F = gl_config G1"
    using pipes [of "G2\<lparr>gl_sb := (gl_sb G2)\<lparr>sb_master_pid := ie_getpid E\<rparr>\<rparr>"] out [OF o2(1)]
    by (simp flip: o2(2))
  then show "cf_monitor_init (gl_config F) = cf_monitor_init cf"
    and "cf_request_handler (gl_config F) = cf_request_handler cf"
    using path [of "G\<lparr>gl_config := g\<rparr>"] g [OF \<open>r = 0\<close>] by (simp_all add: p)
qed

section \<open>The report of the bcd example\<close>

text \<open>The fields of the buffer once the monitor has put its number into it.\<close>

lemma patched_zeros:
  assumes "n \<le> 8"  and "length bs = n" and "16 \<le> sz"
  shows "load64 (patch (replicate sz 0) 0 bs) off_handle = Some 0"
proof -
  have "load64 (patch (replicate sz 0) 0 bs) off_handle = load64 (replicate sz 0) off_handle"
    using assms by (intro load64_patch) (simp_all add: off_handle_def)
  moreover have "at_mem (replicate sz 0) off_handle (enc64 0)"
    using assms by (simp add: at_mem_def off_handle_def enc64_def le_encode_zero)
  ultimately show ?thesis
    by (simp add: load64_at)
qed

lemma patched_start:
  assumes "4 \<le> length m"
  shows "load32 (patch m 0 (enc32 pid)) 0 = Some pid"
  using assms by (intro load32_at at_mem_patch_same) simp

lemma bcd_initCrashpad_result:
  assumes "bcd_initCrashpad L b handler crashpad_fresh = (True, CP)" and "handler \<noteq> NULL"
  shows "cc_streams CP = [(BUN_STREAM_ID, buf_data b, buf_size b)]" and "cc_first_chance CP = handler"
  using init_crashpad_result(1,2) [OF assms(1) [unfolded bcd_initCrashpad_def bcd_startCrashHandler_def]]
    assms(2) by (simp_all add: crashpad_fresh_def)

lemma FirstChanceHandler_emits:
  assumes "acknowledged C 0 rest"
  shows "\<exists>C'. FirstChanceHandler bcd C = Some (False, C') \<and>
    sent (ca_env C') = sent (ca_env C) @ packet_bytes BCD_OP_TR_THREAD []"
  using call_ok [of C "[]" rest BCD_OP_TR_THREAD] assms
  by (auto simp: FirstChanceHandler_def bcd_emit_def bcd_backtrace_def)

text \<open>A process that has attached has sent the packet with its thread, and nothing else.\<close>

lemma client_attached:
  assumes "client_main create sz initCrashpad X = Some (Program_crashes Q)"
    and "acknowledged (client_caller X (ep_globals Q)) 4 (packet_bytes BCD_OP_OK [] @ rest)"
    and "tl (wr_events (xc_io X)) = Wr_room k # ws" and "8 \<le> k" and "sent (xc_io X) = []"
  shows "sent (ca_env (ep_caller Q)) = packet_bytes BCD_OP_TID (enc32 (xc_tid X))"
    and "acknowledged (ep_caller Q) 0 rest"
proof -
  obtain G a bcd e C where q: "ep_globals Q = G" "ep_caller Q = C" "a \<noteq> -1"
    and attach: "bcd_attach (xc_bcd X) (xc_socket X) (xc_connects X) (xc_fcntl X) (xc_tid X) (client_caller X G) =
      Some (a, bcd, e, C)"
    using assms(1) by (rule client_main_crashes) simp
  obtain fd where fd: "xc_socket X = Ok fd" "connect_loop (xc_connects X) = Some None" "xc_fcntl X = None"
    using bcd_attach_connected [OF attach q(3)] by blast
  have env: "ca_env (client_caller X G) = xc_io X"
    by (simp add: client_caller_def)
  from bcd_attach_next [where n = 0, OF assms(2) [unfolded q(1)] _ _ fd(2), of k ws "xc_bcd X" fd "xc_tid X"]
    attach fd env assms(3-5)
  show "sent (ca_env (ep_caller Q)) = packet_bytes BCD_OP_TID (enc32 (xc_tid X))"
    and "acknowledged (ep_caller Q) 0 rest"
    by (auto simp: q(2))
qed

text \<open>The monitor's two calls of its handler for such a process.\<close>

lemma monitor_learns_thread:
  assumes "served i S cl (packet_bytes BCD_OP_TID (enc32 tid))"
    and "wr_events (cl_env cl) = Wr_room k # ws" and "8 \<le> k"
  shows "\<exists>S1 cl1. bcd_handler_request_response M i S = Some (Returns 0, S1) \<and> served i S1 cl1 [] \<and>
    sent (cl_env cl1) = sent (cl_env cl) @ packet_bytes BCD_OP_OK [] \<and>
    w_monitor (snd S1) = w_monitor (snd S) \<and> se_tid (cl_session cl1) = tid"
proof -
  have "served i S cl (packet_bytes BCD_OP_TID (enc32 tid) @ [])" and "length (enc32 tid) \<le> BCD_PACKET_LIMIT"
    using assms(1) by (simp_all add: BCD_PACKET_LIMIT_def)
  from handler_serves_tid [where E = M, OF this assms(2,3) perform_tid] show ?thesis by blast
qed

lemma monitor_traces_thread:
  assumes "served i S cl (packet_bytes BCD_OP_TR_THREAD [])" and "se_tid (cl_session cl) = tid"
    and "wr_events (cl_env cl) = Wr_room k # ws" and "8 \<le> k"
    and trace: "\<And>s. se_tid s = tid \<Longrightarrow>
      bcd_backtrace_thread M s (w_monitor (snd S)) = Some (Returns r, st')"
  shows "\<exists>S1 cl1. bcd_handler_request_response M i S = Some (Returns 0, S1) \<and>
    sent (cl_env cl1) = sent (cl_env cl) @ packet_bytes BCD_OP_OK [] \<and>
    served i S1 cl1 [] \<and> w_monitor (snd S1) = st'"
proof -
  have served: "served i S cl (packet_bytes BCD_OP_TR_THREAD [] @ [])"
    and small: "length ([] :: byte list) \<le> BCD_PACKET_LIMIT"
    using assms(1) by simp_all
  have "bcd_perform_request M s (w_monitor (snd S)) = Some (Returns r, s\<lparr>se_tid := tid\<rparr>, st')"
    if "has_bytes s (packet_bytes BCD_OP_TR_THREAD []) (8 + length ([] :: byte list))"
      and "se_tid s = se_tid (cl_session cl)" for s
    using perform_thread [OF that(1) trace] that(2) assms(2) by (cases s) simp
  from handler_serves_tid [OF served small assms(3,4) this] show ?thesis by blast
qed

text \<open>
  C7: the path of a report. The process of the bcd example gets to its crash, with the monitor
  started as \<open>bcd_init\<close> starts it, the shared memory new, and a monitor that answers its two
  packets. Then it has allowed exactly its monitor to trace it, and crashpad has the handler
  and the shared memory as the stream of libbun. What it has sent makes the monitor's handler,
  called for its new connection without a pause in the packet, take over its thread and
  acknowledge it; what its first-chance handler sends (leaving the signal to crashpad) makes
  the handler, whenever it is called next for this session, report that the request handler
  intercepted the trace of that thread, run no tracer and acknowledge. And the request handler,
  for that thread and a trace that fits the buffer, leaves in the shared memory a stream that
  names the thread and the backend and from which a reader gets the frames the library yields,
  as far as the two-byte deficit per frame lets it (all of them when there are at most 13).
\<close>

theorem example_crash_report:
  assumes main: "bcd_main X = Some (Program_crashes Q)" and "xc_first_chance X \<noteq> NULL"
    and handlers: "xc_monitor_init X \<noteq> NULL" "xc_request_handler X \<noteq> NULL"
    and fork: "example_configure (xc_default_handler X) (xc_config X) (xc_request_handler X)
        (xc_monitor_init X) = Proceeds cf"
      "init_before_fork (xc_default_handler X) (xc_init X) (Some cf) (xc_globals X) = Some (0, F)"
    and child: "child_ready C (forked F pipe (replicate BUFFER_SIZE 0)) path"
      "ce_monitor_init C = monitor_init_call (xc_os X) fd mpid (xc_monitor_init X)"
      "child_setup C (forked F pipe (replicate BUFFER_SIZE 0)) = Some (None, c)"
    and shared: "xc_shared X = ch_shared c"
    and socket: "sent (xc_io X) = []"
      "acknowledged (client_caller X (ep_globals Q)) 4 (packet_bytes BCD_OP_OK [] @ rest)"
      "tl (wr_events (xc_io X)) = Wr_room k # ws" "8 \<le> k"
    and request: "xc_tid X \<noteq> 0"
      "env_request_handler M = (\<lambda>p t. handler_value R (ep_shared Q) t)"
      "bun_handle_init (rq_build R) (rq_context R) (rq_handle R) (rq_default R) = (True, h)"
      "rq_address R \<noteq> NULL" "env_remote_yields (rq_env R) (rq_default R) (xc_tid X) fs"
      "40 + total_size fs \<le> BUFFER_SIZE"
    and monitor: "served i S cl (sent (ca_env (ep_caller Q)))" "cl_session cl = zero_session"
      "wr_events (cl_env cl) = Wr_room k1 # ws1" "8 \<le> k1"
  shows "ep_prctl Q = [PR_SET_PTRACER mpid, PR_SET_DUMPABLE 1] \<and>
    cc_first_chance (ep_client Q) = xc_first_chance X \<and>
    cc_streams (ep_client Q) = [(BUN_STREAM_ID, buf_data shared_buffer, buf_size shared_buffer)] \<and>
    (\<exists>S1 cl1 C' request_bytes.
      bcd_handler_request_response M i S = Some (Returns 0, S1) \<and> served i S1 cl1 [] \<and>
      sent (cl_env cl1) = sent (cl_env cl) @ packet_bytes BCD_OP_OK [] \<and>
      w_monitor (snd S1) = w_monitor (snd S) \<and>
      FirstChanceHandler (ep_bcd Q) (ep_caller Q) = Some (False, C') \<and>
      sent (ca_env C') = sent (ca_env (ep_caller Q)) @ request_bytes \<and>
      (\<forall>S2 cl2 k2 ws2. served i S2 cl2 request_bytes \<and> cl_session cl2 = cl_session cl1 \<and>
          wr_events (cl_env cl2) = Wr_room k2 # ws2 \<and> 8 \<le> k2 \<and>
          config (w_monitor (snd S2)) = config (w_monitor (snd (ch_state c))) \<longrightarrow>
        (\<exists>S3 cl3. bcd_handler_request_response M i S2 = Some (Returns 0, S3) \<and>
          sent (cl_env cl3) = sent (cl_env cl2) @ packet_bytes BCD_OP_OK [] \<and>
          served i S3 cl3 [] \<and>
          w_monitor (snd S3) = (w_monitor (snd S2))\<lparr>reports := reports (w_monitor (snd S2)) @
            [(BCD_EVENT_TRACE, master_pid (w_monitor (snd S2)), xc_tid X,
              ''request handler intercepted event'', 0)]\<rparr>))) \<and>
    (\<exists>m' gs. request_handler R (xc_tid X) (ep_shared Q) = Some (-1, m') \<and>
      stream_header m' shared_buffer p' = Some (xc_tid X, backend_value (rq_default R)) \<and>
      replay_stream m' r shared_buffer p' g = Some gs \<and>
      map parsed_of_frame gs = map parsed_of_frame (readable (24 + accounted fs) 24 fs))"
proof -
  let ?z = "replicate BUFFER_SIZE 0 :: mem"
  obtain pid G bcd C0 CP where q: "load32 (xc_shared X) 0 = Some pid"
      "bcd_initCrashpad (xc_crashpad X) shared_buffer (xc_first_chance X) crashpad_fresh = (True, CP)"
      "Q = \<lparr>ep_globals = G, ep_bcd = bcd, ep_caller = C0, ep_buffer = shared_buffer,
        ep_shared = xc_shared X, ep_prctl = [PR_SET_PTRACER pid, PR_SET_DUMPABLE 1], ep_client = CP\<rparr>"
    using main [unfolded bcd_main_def] unfolding shared_buffer_def by (rule client_main_crashes)
  have cfg: "cf_monitor_init (gl_config F) = xc_monitor_init X"
      "cf_request_handler (gl_config F) = xc_request_handler X"
    using init_before_fork_config [OF fork(2)] configured_handlers [OF fork(1)] by simp_all
  have c: "ch_shared c = initialized C (gl_config F) ?z"
      "snd (ch_state c) = \<lparr>w_monitor = start_monitor (gl_config F) (sb_master_pid (gl_sb F)), w_closed = []\<rparr>"
    using child_setup_forked [OF child(1)] child(3) by auto
  have "ce_monitor_init C (xc_monitor_init X) ?z \<noteq> None"
    using child(1) cfg(1) handlers(1) by (simp add: child_ready_def Let_def)
  then obtain m' where m': "monitor_init_call (xc_os X) fd mpid (xc_monitor_init X) (xc_monitor_init X) ?z = Some m'"
    unfolding child(2) by blast
  have mem: "ep_shared Q = patch ?z 0 (enc32 mpid)"
    using q(3) shared c(1) handlers(1) monitor_init_call_patch(1) [OF m'] m'
    by (simp add: initialized_def cfg(1) child(2))
  have prctl: "ep_prctl Q = [PR_SET_PTRACER mpid, PR_SET_DUMPABLE 1]"
    using q patched_start [of ?z mpid] mem by (simp add: BUFFER_SIZE_def)
  note CP = bcd_initCrashpad_result [OF q(2) assms(2)]
  have len: "length (ep_shared Q) = BUFFER_SIZE"
    by (simp add: mem BUFFER_SIZE_def)
  have owner: "load64 (ep_shared Q) off_handle = Some 0"
    unfolding mem by (rule patched_zeros [where n = 4]) (simp_all add: BUFFER_SIZE_def)
  note records = request_handler_records [OF request(3-5) len owner _ request(6), of p' r g]
  have val: "handler_value R (ep_shared Q) (xc_tid X) = -1"
    using records by (auto simp: handler_value_def)
  have conf: "cf_request_handler (config (w_monitor (snd (ch_state c)))) = xc_request_handler X"
    by (simp add: c(2) start_monitor_def cfg(2))
  note attached = client_attached [OF main [unfolded bcd_main_def] socket(2-4,1)]
  obtain C' where first: "FirstChanceHandler (ep_bcd Q) (ep_caller Q) = Some (False, C')"
      "sent (ca_env C') = sent (ca_env (ep_caller Q)) @ packet_bytes BCD_OP_TR_THREAD []"
    using FirstChanceHandler_emits [OF attached(2)] by blast
  obtain S1 cl1 where learned: "bcd_handler_request_response M i S = Some (Returns 0, S1)"
      "served i S1 cl1 []" "sent (cl_env cl1) = sent (cl_env cl) @ packet_bytes BCD_OP_OK []"
      "w_monitor (snd S1) = w_monitor (snd S)" "se_tid (cl_session cl1) = xc_tid X"
    using monitor_learns_thread [OF monitor(1) [unfolded attached(1)] monitor(3,4)] by blast
  have traced: "\<exists>S3 cl3. bcd_handler_request_response M i S2 = Some (Returns 0, S3) \<and>
      sent (cl_env cl3) = sent (cl_env cl2) @ packet_bytes BCD_OP_OK [] \<and> served i S3 cl3 [] \<and>
      w_monitor (snd S3) = (w_monitor (snd S2))\<lparr>reports := reports (w_monitor (snd S2)) @
        [(BCD_EVENT_TRACE, master_pid (w_monitor (snd S2)), xc_tid X,
          ''request handler intercepted event'', 0)]\<rparr>"
    if "served i S2 cl2 (packet_bytes BCD_OP_TR_THREAD [])" "cl_session cl2 = cl_session cl1"
      "wr_events (cl_env cl2) = Wr_room k2 # ws2" "8 \<le> k2"
      "config (w_monitor (snd S2)) = config (w_monitor (snd (ch_state c)))" for S2 cl2 k2 ws2
  proof (rule monitor_traces_thread [OF that(1) _ that(3,4)])
    show "se_tid (cl_session cl2) = xc_tid X"
      using that(2) learned(5) by simp
    show "bcd_backtrace_thread M s (w_monitor (snd S2)) = Some (Returns (-1),
        (w_monitor (snd S2))\<lparr>reports := reports (w_monitor (snd S2)) @
          [(BCD_EVENT_TRACE, master_pid (w_monitor (snd S2)), xc_tid X,
            ''request handler intercepted event'', 0)]\<rparr>)" if "se_tid s = xc_tid X" for s
      using request_intercepted [OF _ handlers(2) that request(1,2) val] conf
        \<open>config (w_monitor (snd S2)) = config (w_monitor (snd (ch_state c)))\<close> by simp
  qed
  have client: "cc_first_chance (ep_client Q) = xc_first_chance X"
      "cc_streams (ep_client Q) = [(BUN_STREAM_ID, buf_data shared_buffer, buf_size shared_buffer)]"
    using CP q(3) by simp_all
  show ?thesis
    using prctl client records learned(1-4) first traced
    by (intro conjI) ((rule exI [of _ S1], rule exI [of _ cl1], rule exI [of _ C'],
        rule exI [of _ "packet_bytes BCD_OP_TR_THREAD []"], intro conjI allI impI; blast) | blast)+
qed

section \<open>A run of the bcd example\<close>

text \<open>
  A system whose temporary directory is \<open>/tmp/d\<close>: the parent is process 77, its monitor
  process 78, the shared memory descriptor 9, and the monitor unwinds with libunwindstack.
\<close>

definition demo_path :: cstr where
  "demo_path = cstr_of ''/tmp/d/bcd.socket''"

definition demo_config :: "ptr \<Rightarrow> ptr \<Rightarrow> bcd_config" where
  "demo_config handler init =
     (bcd_config_init_v1 5)\<lparr>cf_request_handler := handler, cf_monitor_init := init\<rparr>"

definition demo_os :: example_os where
  "demo_os = \<lparr>xo_files = sample_os, xo_utils = \<lparr>bun_internal_cache_dir = Some ''/c''\<rparr>,
     xo_ftruncate = (\<lambda>_. 0), xo_mmap = [9 \<mapsto> replicate BUFFER_SIZE 0]\<rparr>"

definition demo_init :: init_env where
  "demo_init = (example_init (Ok 78) [Rd_data (packet_bytes BCD_OP_CF (demo_path @ [0]))])
     \<lparr>ie_mkdtemp := Some (cstr_of ''/tmp/d'')\<rparr>"

definition demo_forked :: "bcd_config \<Rightarrow> bcd_globals" where
  "demo_forked cf = example_forked\<lparr>gl_config := cf\<lparr>cf_ipc_us_path := Some demo_path\<rparr>,
     gl_unlink_directory := Some (cstr_of ''/tmp/d''), gl_directories := [cstr_of ''/tmp/d'']\<rparr>"

definition demo_child :: child_env where
  "demo_child = (example_child [])\<lparr>ce_monitor_init := monitor_init_call demo_os 9 78 7,
     ce_oom_opens := [Failed (E_OTHER 13)]\<rparr>"

definition demo_shared :: mem where
  "demo_shared = patch (replicate BUFFER_SIZE 0) 0 (enc32 78)"

definition demo_calls :: client_calls where
  "demo_calls =
     \<lparr>xc_os = demo_os, xc_default_handler = 5, xc_request_handler = 6, xc_monitor_init = 7,
      xc_first_chance = 8, xc_config = bcd_config_init_v1 0, xc_bcd = \<lparr>bcd_fd = 0\<rparr>,
      xc_globals = example_globals, xc_init = demo_init, xc_packet = replicate 1032 0,
      xc_shared = demo_shared, xc_socket = Ok 9, xc_connects = [Failed E_AGAIN, Ok ()],
      xc_fcntl = None, xc_tid = 77, xc_now = 100,
      xc_io = \<lparr>rd_events = [Rd_data (packet_bytes BCD_OP_OK []), Rd_data (packet_bytes BCD_OP_OK [])],
        wr_events = [Wr_room 64, Wr_room 64], sel_events = [], sent = []\<rparr>,
      xc_crashpad = sample_crashpad\<rparr>"

lemma demo_created: "buffer_create demo_os = Some (Proceeds (9, replicate BUFFER_SIZE 0))"
  by (simp add: buffer_create_def demo_os_def bun_memfd_create_def sample_os_def open_mkstemp_def
      open_real_file_def tmp_path_def bun_cache_dir_get_def open_events_def close_events_def
      buffer_reader_def)

lemma demo_configured: "example_configure 5 cf 6 7 = Proceeds (demo_config 6 7)"
  by (simp add: example_configure_def bcd_config_init_internal_def demo_config_def)

lemma demo_before_fork:
  "init_before_fork 5 demo_init (Some (demo_config h i)) example_globals =
    Some (0, demo_forked (demo_config h i))"
  by (simp add: init_before_fork_def bcd_config_assign_def bcd_config_assign_from_v1_def
      demo_config_def example_globals_def demo_init_def example_init_def init_path_def init_output_def
      init_pipes_def bcd_pipe_init_def prepare_fd_def bcd_io_fd_prepare_def
      bcd_config_init_v1_def Let_def set_error_def demo_forked_def example_forked_def pr_add_def
      demo_path_def cstr_of_def)

lemma demo_monitor_init:
  "monitor_init_call demo_os 9 78 7 7 (replicate BUFFER_SIZE 0) = Some demo_shared"
proof -
  have "store (replicate BUFFER_SIZE 0) 0 (enc32 78) = Some demo_shared"
    by (simp add: store_patch demo_shared_def BUFFER_SIZE_def)
  then show ?thesis
    by (simp add: monitor_init_call_def monitor_init_def buffer_reader_def demo_os_def)
qed

lemma demo_ready:
  assumes "i \<noteq> NULL \<Longrightarrow> ce_monitor_init demo_child i m \<noteq> None"
  shows "child_ready demo_child (forked (demo_forked (demo_config h i)) example_pipe_out m) demo_path"
proof -
  have "bcd_os_oom_adjust 78 [Failed (E_OTHER 13)] [] \<noteq> None"
    by (simp add: bcd_os_oom_adjust_def EEXIST_def)
  then have "child_answers demo_child (forked (demo_forked (demo_config h i)) example_pipe_out m) demo_path"
    by (simp add: demo_path_def child_answers_def demo_forked_def example_forked_def demo_config_def
        example_globals_def demo_child_def example_child_def example_pipe_out_def bcd_config_init_v1_def
        cstr_of_def SUN_PATH_def cstr_ok_def prepare_fd_def bcd_io_fd_prepare_def bcd_chown_def
        bcd_suid_def suid_user_def Let_def)
  then show ?thesis
    using assms by (simp add: child_ready_def forked_simps demo_forked_def demo_config_def)
qed

lemma demo_init_done:
  "\<exists>G. bcd_init 5 demo_init (replicate 1032 0) (Some (demo_config h i)) example_globals =
      Some (0, G) \<and> cf_timeout (gl_config G) = 30"
proof -
  have ie: "ie_fork demo_init = Ok 78" "ie_mprotect demo_init = None"
      "ie_pipe demo_init = \<lparr>rd_events = [Rd_data (packet_bytes BCD_OP_CF (demo_path @ [0]))],
         wr_events = [], sel_events = [], sent = []\<rparr>"
    by (simp_all add: demo_init_def example_init_def)
  have receive: "init_receive demo_init (replicate 1032 0) G =
      Some (0, G\<lparr>gl_sb := (gl_sb G)\<lparr>sb_path := demo_path\<rparr>\<rparr>)" for G
    using ie by (intro init_receive_path [where rest = "[]"])
      (simp_all add: ready_selects_def cstr_ok_def demo_path_def cstr_of_def BCD_SB_PATH_def sizeof_packet_def)
  have "cf_timeout (gl_config (demo_forked (demo_config h i))) = 30"
    by (simp add: demo_forked_def demo_config_def bcd_config_init_v1_def)
  then show ?thesis
    by (simp add: bcd_init_def demo_before_fork ie fork_parent receive parent_ends_open)
qed

lemma demo_acknowledged:
  assumes "cf_timeout (gl_config G) = 30"
  shows "acknowledged (client_caller demo_calls G) 4 (packet_bytes BCD_OP_OK [] @ [])"
  using assms by (simp add: acknowledged_def client_caller_def demo_calls_def ready_selects_def)

lemma demo_attached:
  assumes "cf_timeout (gl_config G) = 30"
  shows "\<exists>C. bcd_attach \<lparr>bcd_fd = 0\<rparr> (Ok 9) [Failed E_AGAIN, Ok ()] None 77 (client_caller demo_calls G) =
      Some (0, \<lparr>bcd_fd = 9\<rparr>, None, C) \<and> acknowledged C 0 []"
proof -
  have "tl (wr_events (ca_env (client_caller demo_calls G))) = Wr_room 64 # []"
    by (simp add: client_caller_def demo_calls_def)
  from bcd_attach_next [OF demo_acknowledged [OF assms] this, of 0 "[Failed E_AGAIN, Ok ()]" "\<lparr>bcd_fd = 0\<rparr>" 9 77]
  show ?thesis by auto
qed

lemma demo_main:
  "\<exists>Q. bcd_main demo_calls = Some (Program_crashes Q) \<and>
    acknowledged (client_caller demo_calls (ep_globals Q)) 4 (packet_bytes BCD_OP_OK [] @ [])"
proof -
  obtain G where G: "bcd_init 5 demo_init (replicate 1032 0) (Some (demo_config 6 7)) example_globals =
      Some (0, G)"
      "cf_timeout (gl_config G) = 30"
    using demo_init_done by blast
  obtain C where C: "bcd_attach \<lparr>bcd_fd = 0\<rparr> (Ok 9) [Failed E_AGAIN, Ok ()] None 77
      (client_caller demo_calls G) = Some (0, \<lparr>bcd_fd = 9\<rparr>, None, C)"
    using demo_attached [OF G(2)] by blast
  have pid: "load32 demo_shared 0 = Some 78"
    unfolding demo_shared_def by (rule patched_start) (simp add: BUFFER_SIZE_def)
  obtain CP where crash: "bcd_initCrashpad sample_crashpad \<lparr>buf_data = 0, buf_size = of_nat BUFFER_SIZE\<rparr> 8
      crashpad_fresh = (True, CP)"
    by (simp add: bcd_initCrashpad_def init_crashpad_def bcd_startCrashHandler_def start_crash_handler_def
        sample_crashpad_def Let_def)
  have fields: "xc_os demo_calls = demo_os" "xc_default_handler demo_calls = 5"
      "xc_request_handler demo_calls = 6" "xc_monitor_init demo_calls = 7" "xc_first_chance demo_calls = 8"
      "xc_bcd demo_calls = \<lparr>bcd_fd = 0\<rparr>" "xc_globals demo_calls = example_globals"
      "xc_init demo_calls = demo_init" "xc_packet demo_calls = replicate 1032 0"
      "xc_shared demo_calls = demo_shared" "xc_socket demo_calls = Ok 9"
      "xc_connects demo_calls = [Failed E_AGAIN, Ok ()]" "xc_fcntl demo_calls = None"
      "xc_tid demo_calls = 77" "xc_crashpad demo_calls = sample_crashpad"
    by (simp_all add: demo_calls_def)
  show ?thesis
    using demo_acknowledged [OF G(2)]
    by (simp add: bcd_main_def client_main_def fields demo_created demo_configured G(1) C pid crash Let_def)
qed

lemma demo_request:
  "env_remote_yields (rq_env sample_request) (rq_default sample_request) 77 sample_stack_frames"
  "40 + total_size sample_stack_frames \<le> BUFFER_SIZE" "rq_address sample_request \<noteq> NULL"
proof -
  show "env_remote_yields (rq_env sample_request) (rq_default sample_request) 77 sample_stack_frames"
    by (rule sample_request_yields)
qed (simp_all add: sample_stack_sizes BUFFER_SIZE_def sample_request_def)

text \<open>The monitor's end of the connection: the packet with the thread is in the socket.\<close>

definition demo_client :: bcd_client where
  "demo_client = example_client [Rd_data (packet_bytes BCD_OP_TID (enc32 77))] [Wr_room 64]"

theorem example_crash_report_witness:
  "\<exists>Q S1. bcd_main demo_calls = Some (Program_crashes Q) \<and>
    ep_prctl Q = [PR_SET_PTRACER 78, PR_SET_DUMPABLE 1] \<and> cc_first_chance (ep_client Q) = 8 \<and>
    bcd_handler_request_response ((example_env [])\<lparr>env_request_handler :=
      (\<lambda>p t. handler_value sample_request (ep_shared Q) t)\<rparr>) 0 (example_state demo_client) =
      Some (Returns 0, S1) \<and>
    (\<exists>C' bs. FirstChanceHandler (ep_bcd Q) (ep_caller Q) = Some (False, C') \<and>
      sent (ca_env C') = sent (ca_env (ep_caller Q)) @ bs) \<and>
    (\<exists>m' gs. request_handler sample_request 77 (ep_shared Q) = Some (-1, m') \<and>
      stream_header m' shared_buffer 0 = Some (77, backend_value (rq_default sample_request)) \<and>
      replay_stream m' (sample_rw 0) shared_buffer 0 zero_frame = Some gs \<and>
      map parsed_of_frame gs = map parsed_of_frame
        (readable (24 + accounted sample_stack_frames) 24 sample_stack_frames))"
proof -
  obtain Q where Q: "bcd_main demo_calls = Some (Program_crashes Q)"
      "acknowledged (client_caller demo_calls (ep_globals Q)) 4 (packet_bytes BCD_OP_OK [] @ [])"
    using demo_main by blast
  have io: "sent (xc_io demo_calls) = []" "tl (wr_events (xc_io demo_calls)) = Wr_room 64 # []"
      "8 \<le> (64 :: nat)" "xc_tid demo_calls = 77" "xc_tid demo_calls \<noteq> 0"
    by (simp_all add: demo_calls_def)
  have ready: "child_ready demo_child
      (forked (demo_forked (demo_config 6 7)) example_pipe_out (replicate BUFFER_SIZE 0)) demo_path"
    by (rule demo_ready) (simp add: demo_child_def demo_monitor_init)
  obtain c where c: "child_setup demo_child (forked (demo_forked (demo_config 6 7)) example_pipe_out (replicate BUFFER_SIZE 0)) =
      Some (None, c)" "ch_shared c = initialized demo_child (gl_config (demo_forked (demo_config 6 7))) (replicate BUFFER_SIZE 0)"
    using child_setup_forked [OF ready] by blast
  have "initialized demo_child (gl_config (demo_forked (demo_config 6 7))) (replicate BUFFER_SIZE 0) = demo_shared"
    by (simp add: initialized_def demo_forked_def demo_config_def demo_child_def demo_monitor_init)
  then have shared: "xc_shared demo_calls = ch_shared c"
    by (simp add: c(2) demo_calls_def)
  obtain h where h: "bun_handle_init (rq_build sample_request) (rq_context sample_request)
      (rq_handle sample_request) (rq_default sample_request) = (True, h)"
    by (simp add: sample_request_def handle_init_defs sample_build_def)
  define M where "M = (example_env [])\<lparr>env_request_handler :=
    (\<lambda>p t. handler_value sample_request (ep_shared Q) t)\<rparr>"
  have calls: "xc_first_chance demo_calls \<noteq> NULL" "xc_monitor_init demo_calls \<noteq> NULL"
      "xc_request_handler demo_calls \<noteq> NULL"
      "example_configure (xc_default_handler demo_calls) (xc_config demo_calls)
        (xc_request_handler demo_calls) (xc_monitor_init demo_calls) = Proceeds (demo_config 6 7)"
      "init_before_fork (xc_default_handler demo_calls) (xc_init demo_calls) (Some (demo_config 6 7))
        (xc_globals demo_calls) = Some (0, demo_forked (demo_config 6 7))"
      "ce_monitor_init demo_child = monitor_init_call (xc_os demo_calls) 9 78 (xc_monitor_init demo_calls)"
    by (simp_all add: demo_calls_def demo_configured demo_before_fork demo_child_def)
  have handler: "env_request_handler M = (\<lambda>p t. handler_value sample_request (ep_shared Q) t)"
    by (simp add: M_def)
  have "sent (ca_env (ep_caller Q)) = packet_bytes BCD_OP_TID (enc32 77)"
    using client_attached(1) [OF Q(1) [unfolded bcd_main_def] Q(2) io(2,3,1)] io(4) by simp
  then have monitor: "served 0 (example_state demo_client) demo_client (sent (ca_env (ep_caller Q)))"
      "cl_session demo_client = zero_session" "wr_events (cl_env demo_client) = Wr_room 64 # []"
    using served_example [of "[Rd_data (packet_bytes BCD_OP_TID (enc32 77))]" "[Wr_room 64]"]
    by (simp_all add: demo_client_def packet_bytes_not_Nil) (simp_all add: example_client_def)
  have first: "xc_first_chance demo_calls = 8"
    by (simp add: demo_calls_def)
  note yields = demo_request(1) [folded io(4)]
  from example_crash_report [OF Q(1) calls(1-5) ready calls(6) c(1) shared io(1) Q(2) io(2,3,5) handler h
      demo_request(3) yields demo_request(2) monitor io(3), of 0 "sample_rw 0" zero_frame]
  show ?thesis
    using Q(1) unfolding first io(4) M_def by blast
qed

end
