(* ===== verification/Example_Remote.thy ===== *)
theory Example_Remote
  imports Example_Programs
begin

text \<open>
  \<open>examples/crashpad-remote/example_crashpad_remote.cpp\<close>: the program that starts bcd like the
  bcd example and registers its memory with crashpad itself. It stores its callbacks in the
  configuration before the defaults are written over it, so its monitor has neither.
\<close>

section \<open>The program\<close>

definition REMOTE_BUFFER_SIZE :: nat where
  "REMOTE_BUFFER_SIZE = 4096"

definition remote_startCrashHandler :: "crashpad_lib \<Rightarrow> crashpad_client \<Rightarrow> bool \<times> crashpad_client" where
  "remote_startCrashHandler = start_crash_handler ''https://your_host.sp.backtrace.io:6098/''"

text \<open>The memory comes from the system call \<open>memfd_create\<close> here, without the library's fallbacks.\<close>

definition remote_buffer_create :: "example_os \<Rightarrow> (int \<times> mem) may_abort" where
  "remote_buffer_create os =
     (let fd = os_memfd (xo_files os) ''_backtrace_buffer''
      in if fd = -1 then Abort
         else if xo_ftruncate os fd = -1 then Abort
         else (case buffer_reader os fd of Abort \<Rightarrow> Abort | Proceeds r \<Rightarrow> Proceeds (fd, r)))"

text \<open>The request handler only prints.\<close>

definition remote_request_handler :: "u32 \<Rightarrow> mem \<Rightarrow> int \<times> mem" where
  "remote_request_handler tid m = (-1, m)"

definition PR_SET_PTRACER_ANY :: u32 where
  "PR_SET_PTRACER_ANY = -1"

text \<open>
  \<open>fp\<close> is the file \<open>fopen\<close> gives, which is printed to without a test for \<open>NULL\<close>. A failing
  \<open>prctl\<close> is only reported.
\<close>

definition remote_monitor_init ::
    "ptr \<Rightarrow> example_os \<Rightarrow> int \<Rightarrow> (prctl_call list \<times> mem) may_abort option" where
  "remote_monitor_init fp os buffer_fd =
     (if fp = NULL then None
      else (case buffer_reader os buffer_fd of
         Abort \<Rightarrow> Some Abort
       | Proceeds buffer_child \<Rightarrow>
           map_option (\<lambda>m. Proceeds ([PR_SET_PTRACER PR_SET_PTRACER_ANY], m))
             (store buffer_child 0 (cstr_of ''Empty contents.'' @ [0]))))"

definition remote_FirstChanceHandler :: "bcd_handle \<Rightarrow> bcd_caller \<Rightarrow> (bool \<times> bcd_caller) option" where
  "remote_FirstChanceHandler bcd C = do {
     C \<leftarrow> bcd_emit bcd C;
     Some (False, C)
   }"

text \<open>
  What \<open>main\<close> meets besides: the build of libbun and its default backend, the allocation for
  the backend's context, and the static handle and buffer.
\<close>

record remote_calls = client_calls +
  rc_build :: bun_build
  rc_default :: bun_unwind_backend
  rc_context :: ptr
  rc_handle :: bun_handle
  rc_buffer :: bun_buffer

record remote_process = client_process +
  rp_handle :: bun_handle

text \<open>\<open>main\<close> up to the crash; \<open>ep_shared\<close> is the memory as the monitor is forked with it.\<close>

definition remote_main :: "remote_calls \<Rightarrow> remote_process program_end option" where
  "remote_main X =
     (let (bun_initialized, handle) = bun_handle_init (rc_build X) (rc_context X) (rc_handle X) (rc_default X)
      in if \<not> bun_initialized then Some (Program_exits EXIT_FAILURE_STATUS)
         else (case remote_buffer_create (xc_os X) of
            Abort \<Rightarrow> Some Program_aborts
          | Proceeds (buffer_fd, m) \<Rightarrow> do {
              (buffer_initialized, b, m) \<leftarrow> bun_buffer_init m (rc_buffer X) 0 (of_nat REMOTE_BUFFER_SIZE);
              if \<not> buffer_initialized then Some (Program_exits EXIT_FAILURE_STATUS)
              else (case remote_configure (xc_default_handler X) (xc_config X) (xc_request_handler X)
                  (xc_monitor_init X) of
                 Abort \<Rightarrow> Some (Program_exits EXIT_FAILURE_STATUS)
               | Proceeds cf \<Rightarrow> do {
                   (r, G) \<leftarrow> bcd_init (xc_default_handler X) (xc_init X) (xc_packet X) (Some cf) (xc_globals X);
                   if r = -1 then Some (Program_exits EXIT_FAILURE_STATUS)
                   else do {
                     (r, bcd, e, C) \<leftarrow> bcd_attach (xc_bcd X) (xc_socket X) (xc_connects X) (xc_fcntl X)
                       (xc_tid X) (client_caller (client_calls.truncate X) G);
                     if r = -1 then Some (Program_exits EXIT_FAILURE_STATUS)
                     else
                       let (crashpad_initialized, CP) = remote_startCrashHandler (xc_crashpad X) crashpad_fresh
                       in if \<not> crashpad_initialized then Some (Program_exits EXIT_FAILURE_STATUS)
                          else
                            let CP = AddUserDataMinidumpStream BUN_STREAM_ID 0 (of_nat REMOTE_BUFFER_SIZE) CP;
                                CP = SetFirstChanceExceptionHandler (xc_first_chance X) CP
                            in Some (Program_crashes \<lparr>ep_globals = G, ep_bcd = bcd, ep_caller = C,
                                 ep_buffer = b, ep_shared = m, ep_prctl = [], ep_client = CP,
                                 rp_handle = handle\<rparr>)
                   }
                 })
            }))"

lemma remote_main_crashes:
  assumes "remote_main X = Some (Program_crashes Q)"
  obtains fd m0 b m where
    "remote_buffer_create (xc_os X) = Proceeds (fd, m0)"
    "bun_buffer_init m0 (rc_buffer X) 0 (of_nat REMOTE_BUFFER_SIZE) = Some (True, b, m)"
    "ep_buffer Q = b" "ep_shared Q = m"
    "cc_streams (ep_client Q) = [(BUN_STREAM_ID, 0, of_nat REMOTE_BUFFER_SIZE)]"
    "cc_first_chance (ep_client Q) = xc_first_chance X"
proof -
  obtain ok h where h: "bun_handle_init (rc_build X) (rc_context X) (rc_handle X) (rc_default X) = (ok, h)"
    by fastforce
  obtain fd m0 where created: "ok" "remote_buffer_create (xc_os X) = Proceeds (fd, m0)"
    using assms h by (cases "remote_buffer_create (xc_os X)") (auto simp: remote_main_def split: if_split_asm)
  obtain b m where buffer: "bun_buffer_init m0 (rc_buffer X) 0 (of_nat REMOTE_BUFFER_SIZE) = Some (True, b, m)"
    using assms h created
    by (cases "bun_buffer_init m0 (rc_buffer X) 0 (of_nat REMOTE_BUFFER_SIZE)")
      (auto simp: remote_main_def split: if_split_asm)
  obtain started CP where st: "remote_startCrashHandler (xc_crashpad X) crashpad_fresh = (started, CP)"
    by fastforce
  have Q: "ep_buffer Q = b" "ep_shared Q = m" "ep_client Q = SetFirstChanceExceptionHandler (xc_first_chance X)
      (AddUserDataMinidumpStream BUN_STREAM_ID 0 (of_nat REMOTE_BUFFER_SIZE) CP)"
    using assms h created buffer st
    by (auto simp: remote_main_def bind_eq_Some_conv Let_def split: if_split_asm may_abort.split_asm)
  show thesis
    using created(2) buffer Q start_crash_handler_result(1) [OF st(1) [unfolded remote_startCrashHandler_def]]
    by (intro that)
      (simp_all add: AddUserDataMinidumpStream_def SetFirstChanceExceptionHandler_def crashpad_fresh_def)
qed

section \<open>What its monitor would do with the callbacks\<close>

text \<open>
  The text of \<open>monitor_init\<close> covers both words before the header of a buffer: the count of
  writers and the handle the buffer belongs to.
\<close>

lemma remote_monitor_init_owner:
  assumes "remote_monitor_init fp os fd = Some (Proceeds (pr, m))"
  shows "load64 m off_handle = Some 0x002e73746e65746e"
proof -
  obtain b where b: "store b 0 (cstr_of ''Empty contents.'' @ [0]) = Some m"
    using assms by (auto simp: remote_monitor_init_def split: if_split_asm may_abort.split_asm)
  have bytes: "cstr_of ''Empty contents.'' @ [0] = enc64 0x6f63207974706d45 @ enc64 0x002e73746e65746e"
    by (simp add: cstr_of_def enc64_def le_encode_def)
  have "16 \<le> length b" "m = patch b 0 (cstr_of ''Empty contents.'' @ [0])"
    using b by (auto simp: store_def patch_def cstr_of_def split: if_split_asm)
  then have "at_mem m 0 (enc64 0x6f63207974706d45 @ enc64 0x002e73746e65746e)"
    unfolding bytes by (simp add: at_mem_patch_same)
  then have "at_mem m 8 (enc64 0x002e73746e65746e)"
    by (simp add: at_mem_append)
  then show ?thesis
    by (simp add: off_handle_def load64_at)
qed

section \<open>The report\<close>

lemma cleared_header:
  assumes "40 \<le> unat sz" and "d + 40 \<le> length m" and "bun_buffer_init m b0 d sz = Some (True, b, m')"
  shows "load64 m' (bun_buffer_payload b + hdr_magic) = Some 0"
proof -
  have m': "m' = patch m d (replicate 40 0)" "b = \<lparr>buf_data = d, buf_size = sz\<rparr>"
    using assms bun_buffer_init_ok [OF assms(1,2), of b0] by simp_all
  have "load64 m' (d + 16) = Some 0"
    unfolding m'(1) using assms(2) by (intro load_zeros_64) simp_all
  then show ?thesis
    by (simp add: m'(2) bun_buffer_payload_def off_header_def hdr_magic_def)
qed

text \<open>
  C24: why this program's report has no frames. When it gets to its crash, with the monitor
  started as \<open>bcd_init\<close> starts it, crashpad has the memory as the stream of libbun and the
  handler, which asks the monitor for one trace; but the monitor was started with neither
  callback: it has not touched the memory, takes the request for one that no handler
  intercepts, and a reader finds no stream in the memory.
\<close>

theorem remote_example_reports:
  assumes main: "remote_main X = Some (Program_crashes Q)"
    and created: "remote_buffer_create (xc_os X) = Proceeds (fd, m0)" "length m0 = REMOTE_BUFFER_SIZE"
    and fork: "remote_configure (xc_default_handler X) (xc_config X) (xc_request_handler X)
        (xc_monitor_init X) = Proceeds cf"
      "init_before_fork (xc_default_handler X) (xc_init X) (Some cf) (xc_globals X) = Some (0, F)"
    and child: "child_ready C (forked F pipe (ep_shared Q)) path"
      "child_setup C (forked F pipe (ep_shared Q)) = Some (None, c)"
    and call: "acknowledged (ep_caller Q) 0 rest"
  shows "cc_first_chance (ep_client Q) = xc_first_chance X \<and>
    cc_streams (ep_client Q) = [(BUN_STREAM_ID, buf_data (ep_buffer Q), buf_size (ep_buffer Q))] \<and>
    (\<exists>C'. remote_FirstChanceHandler (ep_bcd Q) (ep_caller Q) = Some (False, C') \<and>
      sent (ca_env C') = sent (ca_env (ep_caller Q)) @ packet_bytes BCD_OP_TR_THREAD []) \<and>
    ch_shared c = ep_shared Q \<and>
    (let st = w_monitor (snd (ch_state c)) in bcd_request_handler M tid (Some s) st = Some (0, st)) \<and>
    bun_reader_init (ch_shared c) r (ep_buffer Q) p = Some (False, r)"
proof -
  obtain m where q: "bun_buffer_init m0 (rc_buffer X) 0 (of_nat REMOTE_BUFFER_SIZE) = Some (True, ep_buffer Q, m)"
    "ep_shared Q = m" "cc_streams (ep_client Q) = [(BUN_STREAM_ID, 0, of_nat REMOTE_BUFFER_SIZE)]"
    "cc_first_chance (ep_client Q) = xc_first_chance X"
    using remote_main_crashes [OF main] created(1) by auto
  have fits: "40 \<le> unat (of_nat REMOTE_BUFFER_SIZE :: u64)" "0 + 40 \<le> length m0"
    using created(2) by (simp_all add: REMOTE_BUFFER_SIZE_def)
  have buffer: "ep_buffer Q = \<lparr>buf_data = 0, buf_size = of_nat REMOTE_BUFFER_SIZE\<rparr>"
    using q(1) bun_buffer_init_ok [OF fits, of "rc_buffer X"] by simp
  have "bun_reader_init m r (ep_buffer Q) p = Some (False, r)"
    using cleared_header [OF fits q(1)] by (simp add: bun_reader_init_def BUN_HEADER_MAGIC_def)
  moreover have "\<exists>C'. remote_FirstChanceHandler (ep_bcd Q) (ep_caller Q) = Some (False, C') \<and>
      sent (ca_env C') = sent (ca_env (ep_caller Q)) @ packet_bytes BCD_OP_TR_THREAD []"
    using FirstChanceHandler_emits [OF call, of "ep_bcd Q"]
    by (auto simp: FirstChanceHandler_def remote_FirstChanceHandler_def)
  moreover have handlers: "cf_monitor_init (gl_config F) = NULL" "cf_request_handler (gl_config F) = NULL"
    using init_before_fork_config [OF fork(2)] fork(1)
      remote_configure_loses_handlers [of "xc_default_handler X" "xc_config X" "xc_request_handler X"
        "xc_monitor_init X"] by auto
  moreover have "ch_shared c = ep_shared Q"
      "snd (ch_state c) = \<lparr>w_monitor = start_monitor (gl_config F) (sb_master_pid (gl_sb F)), w_closed = []\<rparr>"
    using child_setup_forked [OF child(1)] child(2) handlers(1) by (auto simp: initialized_def)
  ultimately show ?thesis
    using q(2-4) by (simp add: buffer bcd_request_handler_def start_monitor_def Let_def)
qed

text \<open>The run of the bcd example's demonstration with this program: a build with libbacktrace.\<close>

definition demo_remote_os :: example_os where
  "demo_remote_os = demo_os\<lparr>xo_files := sample_os\<lparr>os_memfd := (\<lambda>_. 9)\<rparr>,
     xo_mmap := [9 \<mapsto> replicate REMOTE_BUFFER_SIZE 0]\<rparr>"

definition demo_remote :: remote_calls where
  "demo_remote = client_calls.extend (demo_calls\<lparr>xc_os := demo_remote_os\<rparr>)
     (remote_calls.fields sample_build BUN_BACKEND_LIBBACKTRACE 0 zero_handle \<lparr>buf_data = 0, buf_size = 0\<rparr>)"

lemma demo_remote_fields:
  "xc_os demo_remote = demo_remote_os" "xc_default_handler demo_remote = 5"
  "xc_request_handler demo_remote = 6" "xc_monitor_init demo_remote = 7" "xc_first_chance demo_remote = 8"
  "xc_bcd demo_remote = \<lparr>bcd_fd = 0\<rparr>" "xc_globals demo_remote = example_globals"
  "xc_init demo_remote = demo_init" "xc_packet demo_remote = replicate 1032 0"
  "xc_socket demo_remote = Ok 9" "xc_connects demo_remote = [Failed E_AGAIN, Ok ()]"
  "xc_fcntl demo_remote = None" "xc_tid demo_remote = 77" "xc_crashpad demo_remote = sample_crashpad"
  "rc_build demo_remote = sample_build" "rc_default demo_remote = BUN_BACKEND_LIBBACKTRACE"
  "rc_context demo_remote = 0" "rc_handle demo_remote = zero_handle"
  "rc_buffer demo_remote = \<lparr>buf_data = 0, buf_size = 0\<rparr>"
  by (simp_all add: demo_remote_def demo_calls_def client_calls.defs remote_calls.defs)

lemma demo_remote_caller:
  "client_caller (client_calls.truncate demo_remote) G = client_caller demo_calls G"
  by (simp add: client_caller_def demo_remote_def demo_calls_def client_calls.defs)

lemma demo_remote_created:
  "remote_buffer_create demo_remote_os = Proceeds (9, replicate REMOTE_BUFFER_SIZE 0)"
  by (simp add: remote_buffer_create_def demo_remote_os_def demo_os_def buffer_reader_def)

lemma demo_remote_configured: "remote_configure 5 cf h i = Proceeds (demo_config 0 0)"
  by (simp add: remote_configure_def bcd_config_init_internal_def demo_config_def bcd_config_init_v1_def)

lemma demo_remote_main:
  "\<exists>Q. remote_main demo_remote = Some (Program_crashes Q) \<and> acknowledged (ep_caller Q) 0 []"
proof -
  obtain G where G: "bcd_init 5 demo_init (replicate 1032 0) (Some (demo_config 0 0)) example_globals =
      Some (0, G)" "cf_timeout (gl_config G) = 30"
    using demo_init_done by blast
  obtain C where C: "bcd_attach \<lparr>bcd_fd = 0\<rparr> (Ok 9) [Failed E_AGAIN, Ok ()] None 77
      (client_caller demo_calls G) = Some (0, \<lparr>bcd_fd = 9\<rparr>, None, C)" "acknowledged C 0 []"
    using demo_attached [OF G(2)] by blast
  obtain h where h: "bun_handle_init sample_build 0 zero_handle BUN_BACKEND_LIBBACKTRACE = (True, h)"
    by (simp add: handle_init_defs sample_build_def)
  obtain CP where crash: "remote_startCrashHandler sample_crashpad crashpad_fresh = (True, CP)"
    by (simp add: remote_startCrashHandler_def start_crash_handler_def sample_crashpad_def Let_def)
  have buffer: "bun_buffer_init (replicate REMOTE_BUFFER_SIZE 0) \<lparr>buf_data = 0, buf_size = 0\<rparr> 0
      (of_nat REMOTE_BUFFER_SIZE) = Some (True, \<lparr>buf_data = 0, buf_size = of_nat REMOTE_BUFFER_SIZE\<rparr>,
        patch (replicate REMOTE_BUFFER_SIZE 0) 0 (replicate 40 0))"
    by (rule bun_buffer_init_ok) (simp_all add: REMOTE_BUFFER_SIZE_def)
  show ?thesis
    using C(2) by (simp add: remote_main_def demo_remote_fields demo_remote_caller demo_remote_created
        demo_remote_configured G(1) C(1) h crash buffer Let_def)
qed

theorem remote_example_reports_witness:
  "\<exists>Q c. remote_main demo_remote = Some (Program_crashes Q) \<and> cc_first_chance (ep_client Q) = 8 \<and>
    (\<exists>C'. remote_FirstChanceHandler (ep_bcd Q) (ep_caller Q) = Some (False, C') \<and>
      sent (ca_env C') = sent (ca_env (ep_caller Q)) @ packet_bytes BCD_OP_TR_THREAD []) \<and>
    child_setup demo_child (forked (demo_forked (demo_config 0 0)) example_pipe_out (ep_shared Q)) =
      Some (None, c) \<and>
    (let st = w_monitor (snd (ch_state c))
     in bcd_request_handler sample_handling 77 (Some zero_session) st = Some (0, st)) \<and>
    bun_reader_init (ch_shared c) (sample_rw 0) (ep_buffer Q) 0 = Some (False, sample_rw 0)"
proof -
  obtain Q where Q: "remote_main demo_remote = Some (Program_crashes Q)" "acknowledged (ep_caller Q) 0 []"
    using demo_remote_main by blast
  have ready: "child_ready demo_child
      (forked (demo_forked (demo_config 0 0)) example_pipe_out (ep_shared Q)) demo_path"
    by (rule demo_ready) simp
  obtain c where c: "child_setup demo_child
      (forked (demo_forked (demo_config 0 0)) example_pipe_out (ep_shared Q)) = Some (None, c)"
    using child_setup_forked [OF ready] by blast
  have calls: "remote_buffer_create (xc_os demo_remote) = Proceeds (9, replicate REMOTE_BUFFER_SIZE 0)"
      "length (replicate REMOTE_BUFFER_SIZE (0 :: byte)) = REMOTE_BUFFER_SIZE"
      "remote_configure (xc_default_handler demo_remote) (xc_config demo_remote)
        (xc_request_handler demo_remote) (xc_monitor_init demo_remote) = Proceeds (demo_config 0 0)"
      "init_before_fork (xc_default_handler demo_remote) (xc_init demo_remote) (Some (demo_config 0 0))
        (xc_globals demo_remote) = Some (0, demo_forked (demo_config 0 0))"
    by (simp_all add: demo_remote_fields demo_remote_created demo_remote_configured demo_before_fork)
  from remote_example_reports [OF Q(1) calls ready c Q(2), of sample_handling 77 zero_session "sample_rw 0" 0]
  show ?thesis
    using Q(1) c unfolding demo_remote_fields by blast
qed

end
