(* ===== verification/Example_Poison.thy ===== *)
theory Example_Poison
  imports Example_Programs
begin

text \<open>
  \<open>examples/bcd-poison/main.cpp\<close>, the bcd example for a process in which
  \<open>tests/helper/poison_malloc/poison.c\<close> replaces \<open>malloc\<close>: the signal \<open>SIGPWR\<close> switches a trap in
  \<open>malloc\<close> on and off, and the program sends it before and after it asks the monitor for a
  trace, so that an allocation on the crash path is found.
\<close>

section \<open>The allocator that can be poisoned\<close>

definition SIGPWR :: int where
  "SIGPWR = 30"

text \<open>
  The library's static variables and whether its signal handler is installed; what the system
  answers when \<open>poison_init\<close> installs the handler and looks up \<open>malloc\<close>.
\<close>

record poison_state =
  ps_poison :: int
  ps_old_malloc :: ptr
  ps_handler :: bool

record poison_os =
  po_signal_ok :: bool
  po_dlsym :: ptr

datatype 'a may_trap = Traps | Goes_on 'a

definition poison_fresh :: poison_state where
  "poison_fresh = \<lparr>ps_poison = 0, ps_old_malloc = NULL, ps_handler = False\<rparr>"

definition poison_handler :: "poison_state \<Rightarrow> poison_state" where
  "poison_handler S = S\<lparr>ps_poison := (if ps_poison S = 0 then 1 else 0)\<rparr>"

definition poison_init :: "poison_os \<Rightarrow> poison_state \<Rightarrow> poison_state may_trap" where
  "poison_init Os S =
     (if \<not> po_signal_ok Os then Traps
      else
        let S = S\<lparr>ps_handler := True\<rparr>;
            S = S\<lparr>ps_old_malloc := po_dlsym Os\<rparr>
        in if ps_old_malloc S = NULL then Traps else Goes_on S)"

text \<open>\<open>alloc\<close> is what the function at an address allocates for a size.\<close>

definition poison_malloc ::
    "(ptr \<Rightarrow> u64 \<Rightarrow> ptr) \<Rightarrow> poison_os \<Rightarrow> u64 \<Rightarrow> poison_state \<Rightarrow> (ptr \<times> poison_state) may_trap" where
  "poison_malloc alloc Os r S =
     (if ps_poison S \<noteq> 0 then Traps
      else case (if ps_old_malloc S = NULL then poison_init Os S else Goes_on S) of
        Traps \<Rightarrow> Traps
      | Goes_on S \<Rightarrow> Goes_on (alloc (ps_old_malloc S) r, S))"

text \<open>
  Once initialized the library passes allocations on unless it is poisoned; it stays so.
\<close>

lemma poison_malloc_ready:
  assumes "poison_init Os S0 = Goes_on S"
  shows "poison_malloc alloc Os r S = (if ps_poison S0 = 0 then Goes_on (alloc (po_dlsym Os) r, S) else Traps)"
  using assms by (auto simp: poison_malloc_def poison_init_def Let_def split: if_split_asm)

lemma poison_malloc_poisoned:
  assumes "ps_poison S = 0"
  shows "poison_malloc alloc Os r (poison_handler S) = Traps"
    and "poison_handler (poison_handler S) = S"
  using assms by (simp_all add: poison_malloc_def poison_handler_def)

section \<open>The program\<close>

definition POISON_BUFFER_SIZE :: nat where
  "POISON_BUFFER_SIZE = 4096"

definition poison_buffer_create :: "example_os \<Rightarrow> (int \<times> mem) may_abort" where
  "poison_buffer_create os =
     (let fd = os_memfd (xo_files os) ''_backtrace_buffer''
      in if fd = -1 then Abort
         else if xo_ftruncate os fd = -1 then Abort
         else (case buffer_reader os fd of Abort \<Rightarrow> Abort | Proceeds r \<Rightarrow> Proceeds (fd, r)))"

text \<open>
  The request handler copies the memory to \<open>/tmp/dump_handler\<close>; \<open>dump\<close> tells what the file holds
  after the unchecked \<open>open\<close> and \<open>write\<close>.
\<close>

definition poison_request_handler ::
    "('c, 's, 'r, 'm, 'e) request_env \<Rightarrow> (byte list \<Rightarrow> byte list option) \<Rightarrow> u32 \<Rightarrow> mem
      \<Rightarrow> (int \<times> mem \<times> byte list option) option" where
  "poison_request_handler R dump tid m =
     (let (bun_initialized, handle) =
            bun_handle_init (rq_build R) (rq_context R) (rq_handle R) (rq_default R)
      in if \<not> bun_initialized then Some (-1, m, None)
         else do {
           let buf = \<lparr>buf_data = 0, buf_size = of_nat POISON_BUFFER_SIZE\<rparr>;
           (written, m') \<leftarrow> bun_unwind_remote (rq_env R) tid
             ((rq_handles R)(rq_address R \<mapsto> handle)) (rq_tid R) m (rq_writer R) buf (rq_address R);
           Some (-1, m', dump (take POISON_BUFFER_SIZE m'))
         })"

text \<open>
  \<open>raise(SIGPWR)\<close>: the library's handler runs, or, without it, the signal ends the process.
  A handler that ends so has the value \<open>Inl\<close> of the signal.
\<close>

definition raise_SIGPWR :: "poison_state \<Rightarrow> int + poison_state" where
  "raise_SIGPWR S = (if ps_handler S then Inr (poison_handler S) else Inl SIGPWR)"

definition poison_FirstChanceHandler ::
    "bcd_handle \<Rightarrow> poison_state \<Rightarrow> bcd_caller \<Rightarrow> (int + (bool \<times> poison_state \<times> bcd_caller)) option" where
  "poison_FirstChanceHandler bcd S C =
     (case raise_SIGPWR S of
        Inl sig \<Rightarrow> Some (Inl sig)
      | Inr S \<Rightarrow> do {
          C \<leftarrow> bcd_emit bcd C;
          Some (case raise_SIGPWR S of Inl sig \<Rightarrow> Inl sig | Inr S \<Rightarrow> Inr (False, S, C))
        })"

definition poison_main :: "client_calls \<Rightarrow> client_process program_end option" where
  "poison_main = client_main (\<lambda>os. Some (poison_buffer_create os)) POISON_BUFFER_SIZE poison_initCrashpad"

subsection \<open>The crash\<close>

text \<open>
  With the library the handler does what that of the bcd example does: the request goes out
  while every allocation traps, and afterwards none does. Without the library the first
  \<open>SIGPWR\<close> ends the process, and the monitor is not asked.
\<close>

lemma poison_FirstChanceHandler_loaded:
  assumes "poison_init Os poison_fresh = Goes_on S"
  shows "poison_FirstChanceHandler bcd S C =
    map_option (\<lambda>(handled, C'). Inr (handled, S, C')) (FirstChanceHandler bcd C)"
proof -
  have "ps_handler S" "ps_poison S = 0"
    using assms by (auto simp: poison_init_def poison_fresh_def Let_def split: if_split_asm)
  then show ?thesis
    by (cases "bcd_emit bcd C") (simp_all add: poison_FirstChanceHandler_def FirstChanceHandler_def
        raise_SIGPWR_def poison_malloc_poisoned(2), simp add: poison_handler_def)
qed

lemma poison_FirstChanceHandler_missing:
  "poison_FirstChanceHandler bcd poison_fresh C = Some (Inl SIGPWR)"
  by (simp add: poison_FirstChanceHandler_def raise_SIGPWR_def poison_fresh_def)

lemma poison_initCrashpad_result:
  assumes "poison_initCrashpad L b handler crashpad_fresh = (True, CP)" and "handler \<noteq> NULL"
  shows "cc_streams CP = [(BUN_STREAM_ID, buf_data b, buf_size b)]" and "cc_first_chance CP = handler"
  using init_crashpad_result(1,2) [OF assms(1) [unfolded poison_initCrashpad_def poison_startCrashHandler_def]]
    assms(2) by (simp_all add: crashpad_fresh_def)

text \<open>
  A crash of the example with the library. When the program gets to its crash, crashpad
  has its memory and its handler. Run in the state in which the library starts, the handler
  asks the monitor for one trace, leaves the signal to crashpad and the allocator as it was:
  an allocation before and after it is served, and one between its two signals is a trap.
\<close>

theorem poison_example_crash:
  assumes "poison_main X = Some (Program_crashes Q)" and "xc_first_chance X \<noteq> NULL"
    and "poison_init Os poison_fresh = Goes_on S" and "acknowledged (ep_caller Q) 0 rest"
  shows "cc_first_chance (ep_client Q) = xc_first_chance X \<and>
    cc_streams (ep_client Q) = [(BUN_STREAM_ID, 0, of_nat POISON_BUFFER_SIZE)] \<and>
    (\<exists>C'. poison_FirstChanceHandler (ep_bcd Q) S (ep_caller Q) = Some (Inr (False, S, C')) \<and>
      sent (ca_env C') = sent (ca_env (ep_caller Q)) @ packet_bytes BCD_OP_TR_THREAD []) \<and>
    poison_malloc alloc Os n S = Goes_on (alloc (po_dlsym Os) n, S) \<and>
    (\<exists>S'. raise_SIGPWR S = Inr S' \<and> poison_malloc alloc Os n S' = Traps)"
proof -
  obtain CP where q: "poison_initCrashpad (xc_crashpad X) \<lparr>buf_data = 0, buf_size = of_nat POISON_BUFFER_SIZE\<rparr>
      (xc_first_chance X) crashpad_fresh = (True, CP)" "ep_client Q = CP"
    using assms(1) [unfolded poison_main_def] by (rule client_main_crashes) simp
  have S: "ps_handler S" "ps_poison S = 0"
    using assms(3) by (auto simp: poison_init_def poison_fresh_def Let_def split: if_split_asm)
  note poison_initCrashpad_result [OF q(1) assms(2)]
  moreover have "poison_malloc alloc Os n S = Goes_on (alloc (po_dlsym Os) n, S)"
    using poison_malloc_ready [OF assms(3)] by (simp add: poison_fresh_def)
  ultimately show ?thesis
    using FirstChanceHandler_emits [OF assms(4), of "ep_bcd Q"] S poison_malloc_poisoned(1) [OF S(2)]
    by (auto simp: q(2) poison_FirstChanceHandler_loaded [OF assms(3)] raise_SIGPWR_def)
qed

text \<open>And the monitor's handler leaves the stream both in the memory and in its file.\<close>

lemma poison_request_records:
  assumes "bun_handle_init (rq_build R) (rq_context R) (rq_handle R) (rq_default R) = (True, h)"
    and "rq_address R \<noteq> NULL" and "env_remote_yields (rq_env R) (rq_default R) tid fs"
    and "length m = POISON_BUFFER_SIZE"
    and "load64 m off_handle = Some owner" and "owner = NULL \<or> owner = rq_address R"
    and "40 + total_size fs \<le> POISON_BUFFER_SIZE"
    and b: "b = \<lparr>buf_data = 0, buf_size = of_nat POISON_BUFFER_SIZE\<rparr>"
  shows "\<exists>m' gs. poison_request_handler R dump tid m = Some (-1, m', dump (take POISON_BUFFER_SIZE m')) \<and>
    stream_header m' b p' = Some (tid, backend_value (rq_default R)) \<and>
    replay_stream m' r b p' g = Some gs \<and>
    map parsed_of_frame gs = map parsed_of_frame (readable (24 + accounted fs) 24 fs)"
proof -
  have "buffer_ok m b" "unat (buf_size b) \<le> 65536" "40 + total_size fs \<le> unat (buf_size b)"
    and "load64 m (buf_data b + off_handle) = Some owner"
    using assms(4,5,7) by (simp_all add: b buffer_ok_def POISON_BUFFER_SIZE_def layout_defs)
  from request_unwinds [OF assms(1-3) this(1,2,4) assms(6) this(3), of p' r g] show ?thesis
    using assms(1) by (auto simp: poison_request_handler_def b)
qed

section \<open>A run\<close>

definition demo_poison :: client_calls where
  "demo_poison = demo_calls\<lparr>xc_os := demo_os\<lparr>xo_files := sample_os\<lparr>os_memfd := (\<lambda>_. 9)\<rparr>,
     xo_mmap := [9 \<mapsto> replicate POISON_BUFFER_SIZE 0]\<rparr>,
     xc_shared := patch (replicate POISON_BUFFER_SIZE 0) 0 (enc32 78)\<rparr>"

lemma demo_poison_main:
  "\<exists>Q. poison_main demo_poison = Some (Program_crashes Q) \<and> acknowledged (ep_caller Q) 0 []"
proof -
  obtain G where G: "bcd_init 5 demo_init (replicate 1032 0) (Some (demo_config 6 7)) example_globals =
      Some (0, G)" "cf_timeout (gl_config G) = 30"
    using demo_init_done by blast
  obtain C where C: "bcd_attach \<lparr>bcd_fd = 0\<rparr> (Ok 9) [Failed E_AGAIN, Ok ()] None 77
      (client_caller demo_calls G) = Some (0, \<lparr>bcd_fd = 9\<rparr>, None, C)" "acknowledged C 0 []"
    using demo_attached [OF G(2)] by blast
  have created: "poison_buffer_create (xc_os demo_poison) = Proceeds (9, replicate POISON_BUFFER_SIZE 0)"
    by (simp add: poison_buffer_create_def demo_poison_def demo_os_def buffer_reader_def)
  have pid: "load32 (xc_shared demo_poison) 0 = Some 78"
    by (simp add: demo_poison_def patched_start POISON_BUFFER_SIZE_def)
  obtain CP where crash: "poison_initCrashpad (xc_crashpad demo_poison)
      \<lparr>buf_data = 0, buf_size = of_nat POISON_BUFFER_SIZE\<rparr> (xc_first_chance demo_poison) crashpad_fresh = (True, CP)"
    by (simp add: poison_initCrashpad_def init_crashpad_def poison_startCrashHandler_def
        start_crash_handler_def sample_crashpad_def demo_poison_def demo_calls_def Let_def)
  have fields: "xc_default_handler demo_poison = 5" "xc_request_handler demo_poison = 6"
      "xc_monitor_init demo_poison = 7" "xc_bcd demo_poison = \<lparr>bcd_fd = 0\<rparr>"
      "xc_globals demo_poison = example_globals" "xc_init demo_poison = demo_init"
      "xc_packet demo_poison = replicate 1032 0" "xc_socket demo_poison = Ok 9"
      "xc_connects demo_poison = [Failed E_AGAIN, Ok ()]" "xc_fcntl demo_poison = None"
      "xc_tid demo_poison = 77" "client_caller demo_poison G = client_caller demo_calls G"
    by (simp_all add: demo_poison_def demo_calls_def client_caller_def)
  show ?thesis
    using C(2) by (simp add: poison_main_def client_main_def fields created demo_configured G(1) C(1) pid
        crash Let_def)
qed

theorem poison_example_crash_witness:
  "\<exists>Q. poison_main demo_poison = Some (Program_crashes Q) \<and> cc_first_chance (ep_client Q) = 8 \<and>
    (let S = \<lparr>ps_poison = 0, ps_old_malloc = 3, ps_handler = True\<rparr>
     in (\<exists>C'. poison_FirstChanceHandler (ep_bcd Q) S (ep_caller Q) = Some (Inr (False, S, C')) \<and>
          sent (ca_env C') = sent (ca_env (ep_caller Q)) @ packet_bytes BCD_OP_TR_THREAD []) \<and>
        (\<exists>S'. raise_SIGPWR S = Inr S' \<and>
          poison_malloc (\<lambda>f n. n) \<lparr>po_signal_ok = True, po_dlsym = 3\<rparr> 64 S' = Traps))"
proof -
  obtain Q where Q: "poison_main demo_poison = Some (Program_crashes Q)" "acknowledged (ep_caller Q) 0 []"
    using demo_poison_main by blast
  have first: "xc_first_chance demo_poison = 8"
    by (simp add: demo_poison_def demo_calls_def)
  have "poison_init \<lparr>po_signal_ok = True, po_dlsym = 3\<rparr> poison_fresh =
      Goes_on \<lparr>ps_poison = 0, ps_old_malloc = 3, ps_handler = True\<rparr>"
    by (simp add: poison_init_def poison_fresh_def)
  from poison_example_crash [OF Q(1) _ this Q(2), of "\<lambda>f n. n" 64] show ?thesis
    using Q(1) by (auto simp: first Let_def)
qed

end
