(* ===== verification/Bcd_Preload.thy ===== *)
theory Bcd_Preload
  imports Bcd_Child
begin

text \<open>
  The library as a preloaded object (\<open>bcd_preload\<close>, built with \<open>BCD_F_PRELOAD\<close>) and the two
  default signal handlers it may install: the configuration from the environment, the start of
  the monitor, the connection to it, the handlers; and what then happens when the process
  faults.
\<close>

section \<open>The default signal handlers\<close>

datatype process_end = Exited int | Killed fatal_signal

text \<open>
  A fault of a process: the clock and the results of \<open>waitpid\<close> for the call of \<open>bcd_fatal\<close>;
  the pipes are the descriptors of \<open>Bcd_Client\<close>. A handler that returns leads back to the
  instruction that faulted. \<open>None\<close>: a call waits for ever, or a handler outside the library
  runs.
\<close>

record fault =
  fa_now :: int
  fa_waits :: "nat \<Rightarrow> int"

record faulting =
  fl_handlers :: "fatal_signal \<Rightarrow> sa_handler option"
  fl_master :: io_env
  fl_monitor :: io_env

definition fatal_call :: "u32 \<Rightarrow> fault \<Rightarrow> faulting \<Rightarrow> faulting option" where
  "fatal_call timeout a F = do {
     (master, monitor, n) \<leftarrow> bcd_fatal timeout (fa_now a) (fa_waits a) (fl_master F) (fl_monitor F);
     Some (F\<lparr>fl_master := master, fl_monitor := monitor\<rparr>)
   }"

text \<open>The handlers; the first one does not return.\<close>

definition default_signal_handler ::
    "u32 \<Rightarrow> fault \<Rightarrow> faulting \<Rightarrow> (process_end \<times> faulting) option" where
  "default_signal_handler timeout a F = do {
     F \<leftarrow> fatal_call timeout a F;
     Some (Exited EXIT_FAILURE, F)
   }"

definition default_signal_handler_raise ::
    "u32 \<Rightarrow> fault \<Rightarrow> fatal_signal \<Rightarrow> faulting \<Rightarrow> faulting option" where
  "default_signal_handler_raise timeout a s F = do {
     F \<leftarrow> fatal_call timeout a F;
     Some (F\<lparr>fl_handlers := (fl_handlers F)(s := None)\<rparr>)
   }"

fun faults ::
    "u32 \<Rightarrow> fatal_signal \<Rightarrow> fault list \<Rightarrow> faulting \<Rightarrow> (process_end option \<times> faulting) option" where
  "faults timeout s [] F = Some (None, F)"
| "faults timeout s (a # as) F =
     (case fl_handlers F s of
        None \<Rightarrow> Some (Some (Killed s), F)
      | Some (Handler p) \<Rightarrow> None
      | Some bcd_default_signal_handler \<Rightarrow>
          map_option (\<lambda>(e, F). (Some e, F)) (default_signal_handler timeout a F)
      | Some bcd_default_signal_handler_raise \<Rightarrow> do {
          F \<leftarrow> default_signal_handler_raise timeout a s F;
          faults timeout s as F
        })"

section \<open>The constructor\<close>

datatype preload_outcome = Preload_disabled | Preload_exits int | Preload_done bcd_handle

text \<open>
  The calls of the constructor: \<open>getenv\<close> and \<open>strcmp\<close>, \<open>prctl\<close>, the environment of
  \<open>bcd_init\<close> with the packet instance it does not initialize, those of \<open>bcd_attach\<close>, and
  which signals \<open>sigaction\<close> accepts.
\<close>

record preload_env =
  pe_getenv :: "string \<Rightarrow> cstr option"
  pe_strcmp :: "cstr \<Rightarrow> cstr \<Rightarrow> int"
  pe_prctl :: "io_errno option"
  pe_default_handler :: ptr
  pe_init :: init_env
  pe_packet :: mem
  pe_socket :: "int io_result"
  pe_connects :: "unit io_result list"
  pe_fcntl :: "io_errno option"
  pe_tid :: u32
  pe_now :: int
  pe_io :: io_env
  pe_sigaction :: "fatal_signal \<Rightarrow> bool"

text \<open>The process: the library's variables, the signal handlers, what is printed to \<open>stderr\<close>.\<close>

record preloaded =
  pl_globals :: bcd_globals
  pl_handlers :: "fatal_signal \<Rightarrow> sa_handler option"
  pl_stderr :: "string list"

text \<open>The caller as \<open>bcd_attach\<close> sees it.\<close>

definition preload_caller :: "preload_env \<Rightarrow> bcd_globals \<Rightarrow> bcd_caller" where
  "preload_caller E G = \<lparr>ca_timeout = cf_timeout (gl_config G), ca_now = pe_now E, ca_env = pe_io E,
     ca_closed = []\<rparr>"

definition preload_flags :: "preload_env \<Rightarrow> u32" where
  "preload_flags E =
     (case pe_getenv E ''BCD_RAISE'' of
        None \<Rightarrow> 0
      | Some v \<Rightarrow> if pe_strcmp E v (cstr_of ''1'') = 0 then BCD_SIGACTION_RAISE else 0)"

text \<open>\<open>cf\<close> and \<open>bcd\<close> are the uninitialized local variables.\<close>

definition bcd_preload ::
    "preload_env \<Rightarrow> bcd_config \<Rightarrow> bcd_handle \<Rightarrow> preloaded \<Rightarrow> (preload_outcome \<times> preloaded) option" where
  "bcd_preload E cf bcd L =
     (if pe_getenv E ''BCD_PRELOAD'' = None then Some (Preload_disabled, L)
      else do {
        let L = L\<lparr>pl_stderr := pl_stderr L @ (if pe_prctl E = None then [] else [''prctl'']) @
              [''[BCD] Initializing BCD...'']\<rparr>;
        let (r, cf) = bcd_config_init_internal (pe_default_handler E) cf 1;
        if r = -1 then Some (Preload_exits EXIT_FAILURE, L)
        else do {
          let cf = bcd_config_from_env (pe_getenv E) (pe_strcmp E) cf;
          (r, G) \<leftarrow> bcd_init (pe_default_handler E) (pe_init E) (pe_packet E) (Some cf) (pl_globals L);
          let L = L\<lparr>pl_globals := G\<rparr>;
          if r = -1 then Some (Preload_exits EXIT_FAILURE, L)
          else do {
            (r, bcd, err, C) \<leftarrow> bcd_attach bcd (pe_socket E) (pe_connects E) (pe_fcntl E) (pe_tid E)
              (preload_caller E G);
            if r = -1 then Some (Preload_exits EXIT_FAILURE, L)
            else
              (let (r, tab) = bcd_sigaction (pe_sigaction E) NULL (preload_flags E) (pl_handlers L);
                   L = L\<lparr>pl_handlers := tab\<rparr>;
                   L = (if r \<noteq> 0 then L\<lparr>pl_stderr := pl_stderr L @ [''[BCD] failed to register handler'']\<rparr>
                        else L)
               in Some (Preload_done bcd, L))
          }
        }
      })"

section \<open>A fault after preloading\<close>

text \<open>The handler the environment asks for.\<close>

definition preload_handler :: "preload_env \<Rightarrow> sa_handler" where
  "preload_handler E =
     (if preload_flags E = BCD_SIGACTION_RAISE then bcd_default_signal_handler_raise
      else bcd_default_signal_handler)"

lemma preload_flags_cases: "preload_flags E = 0 \<or> preload_flags E = BCD_SIGACTION_RAISE"
  by (simp add: preload_flags_def split: option.split)

lemma preload_handlers:
  assumes "bcd_preload E cf bcd L = Some (Preload_done bcd', L')" and "\<And>s. pe_sigaction E s"
  shows "pl_handlers L' = (\<lambda>_. Some (preload_handler E))"
proof -
  have "bcd_sigaction (pe_sigaction E) NULL (preload_flags E) tab =
      (0, \<lambda>_. Some (preload_handler E))" for tab
    using preload_flags_cases [of E] assms(2)
    by (auto simp: bcd_sigaction_all preload_handler_def BCD_SIGACTION_RAISE_def)
  then show ?thesis
    using assms(1)
    by (auto simp: bcd_preload_def Let_def bind_eq_Some_conv split: if_splits prod.splits)
qed

text \<open>
  \<open>bcd_fatal\<close> with room in the pipe sends one request; its wait for the monitor's end ends
  with the pipe.
\<close>

lemma fatal_call_sends:
  assumes "wr_events (fl_master F) = Wr_room k # ws" and "8 \<le> k"
    and "fatal_call timeout a F = Some F'"
  shows "sent (fl_master F') = sent (fl_master F) @ packet_bytes BCD_OP_TR_FATAL [] \<and>
    fl_handlers F' = fl_handlers F"
proof -
  have "packet_bytes BCD_OP_TR_FATAL [] \<noteq> []"
    by (rule packet_bytes_not_Nil)
  then show ?thesis
    using assms(3) fd_write_room [OF assms(1), of "packet_bytes BCD_OP_TR_FATAL []" timeout
        "fa_now a + int (unat timeout)"] assms(2)
    by (auto simp: fatal_call_def bcd_fatal_def bcd_sb_write_def Let_def bind_eq_Some_conv)
qed

lemma faults_end:
  assumes "fl_handlers F s = Some h"
    and "h = bcd_default_signal_handler \<or> h = bcd_default_signal_handler_raise" and "fatal_call timeout a F = Some F'"
    and "fl_handlers F' = fl_handlers F"
  shows "\<exists>F''. faults timeout s (a # b # as) F =
      Some (Some (if h = bcd_default_signal_handler then Exited EXIT_FAILURE else Killed s), F'') \<and>
    fl_master F'' = fl_master F'"
  using assms
  by (elim disjE) (simp_all add: default_signal_handler_def default_signal_handler_raise_def)

text \<open>
  C40: a process that was preloaded and whose handlers could be installed does not survive a
  fault: whichever of the signals it is, the monitor is asked for the fatal trace exactly
  once, and then the process exits with 1 or, with \<open>BCD_RAISE=1\<close>, is killed by the signal
  when the faulting instruction runs again.
\<close>

theorem bcd_preload_fault:
  assumes "bcd_preload E cf bcd L = Some (Preload_done bcd', L')" and "\<And>s. pe_sigaction E s"
    and "F = \<lparr>fl_handlers = pl_handlers L', fl_master = master, fl_monitor = monitor\<rparr>"
    and "wr_events master = Wr_room k # ws" and "8 \<le> k"
    and "fatal_call (cf_timeout (gl_config (pl_globals L'))) a F \<noteq> None"
  shows "\<exists>F'. faults (cf_timeout (gl_config (pl_globals L'))) s (a # b # as) F =
      Some (Some (if preload_flags E = BCD_SIGACTION_RAISE then Killed s else Exited EXIT_FAILURE), F') \<and>
    sent (fl_master F') = sent master @ packet_bytes BCD_OP_TR_FATAL []"
proof -
  let ?t = "cf_timeout (gl_config (pl_globals L'))" and ?h = "preload_handler E"
  have h: "fl_handlers F s = Some ?h"
    using preload_handlers [OF assms(1,2)] assms(3) by simp
  obtain F' where F': "fatal_call ?t a F = Some F'"
    using assms(6) by blast
  have sends: "sent (fl_master F') = sent master @ packet_bytes BCD_OP_TR_FATAL []"
      "fl_handlers F' = fl_handlers F"
    using fatal_call_sends [OF _ assms(5) F'] assms(3,4) by simp_all
  have "?h = bcd_default_signal_handler \<or> ?h = bcd_default_signal_handler_raise"
    by (simp add: preload_handler_def)
  from faults_end [OF h this F' sends(2), of b as] sends(1) show ?thesis
    by (auto simp: preload_handler_def)
qed


section \<open>An example\<close>

text \<open>A process that asks for the handlers that raise again and names the socket.\<close>

definition example_preload :: preload_env where
  "example_preload =
     \<lparr>pe_getenv = [''BCD_PRELOAD'' \<mapsto> [], ''BCD_RAISE'' \<mapsto> cstr_of ''1'',
        ''BCD_IPC_US_PATH'' \<mapsto> cstr_of ''/run/b''],
      pe_strcmp = (\<lambda>a b. if a = b then 0 else 1), pe_prctl = None, pe_default_handler = 5,
      pe_init = example_init (Ok 78) [Rd_data (packet_bytes BCD_OP_CF (cstr_of ''/run/b'' @ [0]))],
      pe_packet = replicate 1032 0, pe_socket = Ok 9, pe_connects = [Failed E_AGAIN, Ok ()],
      pe_fcntl = None, pe_tid = 77, pe_now = 100,
      pe_io = \<lparr>rd_events = [Rd_data (packet_bytes BCD_OP_OK [])], wr_events = [Wr_room 64],
        sel_events = [], sent = []\<rparr>,
      pe_sigaction = (\<lambda>_. True)\<rparr>"

definition example_process :: preloaded where
  "example_process = \<lparr>pl_globals = example_globals, pl_handlers = (\<lambda>_. None), pl_stderr = []\<rparr>"

definition example_preload_config :: bcd_config where
  "example_preload_config = (bcd_config_init_v1 5)\<lparr>cf_ipc_us_path := Some (cstr_of ''/run/b'')\<rparr>"

lemma example_preload_config:
  "bcd_config_from_env (pe_getenv example_preload) (pe_strcmp example_preload) (bcd_config_init_v1 5) =
    example_preload_config"
  by (simp add: example_preload_config_def bcd_config_from_env_def example_preload_def
      string_from_env_def char_from_env_def bcd_config_init_v1_def cstr_of_def)

lemma example_preload_init:
  "\<exists>G. bcd_init 5 (pe_init example_preload) (pe_packet example_preload) (Some example_preload_config)
      example_globals = Some (0, G) \<and> cf_timeout (gl_config G) = 30"
proof -
  let ?E = "pe_init example_preload" and ?buf = "pe_packet example_preload"
  let ?F = "example_forked\<lparr>gl_config := example_preload_config\<rparr>"
  have before: "init_before_fork 5 ?E (Some example_preload_config) example_globals = Some (0, ?F)"
    by (simp add: init_before_fork_def bcd_config_assign_def bcd_config_assign_from_v1_def
        example_preload_def example_preload_config_def example_globals_def example_init_def
        init_path_def init_output_def init_pipes_def bcd_pipe_init_def prepare_fd_def
        bcd_io_fd_prepare_def bcd_config_init_v1_def Let_def set_error_def example_forked_def pr_add_def)
  have ie: "ie_fork ?E = Ok 78" "ie_mprotect ?E = None"
      "ie_pipe ?E = \<lparr>rd_events = [Rd_data (packet_bytes BCD_OP_CF (cstr_of ''/run/b'' @ [0]))],
         wr_events = [], sel_events = [], sent = []\<rparr>"
    by (simp_all add: example_preload_def example_init_def)
  have receive: "init_receive ?E ?buf G =
      Some (0, G\<lparr>gl_sb := (gl_sb G)\<lparr>sb_path := cstr_of ''/run/b''\<rparr>\<rparr>)" for G
    using ie by (intro init_receive_path [where rest = "[]"])
      (simp_all add: ready_selects_def cstr_ok_def cstr_of_def BCD_SB_PATH_def sizeof_packet_def
        example_preload_def)
  have "cf_timeout example_preload_config = 30"
    by (simp add: example_preload_config_def bcd_config_init_v1_def)
  then show ?thesis
    by (simp add: bcd_init_def before ie fork_parent receive parent_ends_open)
qed

lemma example_preload_attach:
  "\<exists>C. bcd_attach bcd (pe_socket example_preload) (pe_connects example_preload)
      (pe_fcntl example_preload) (pe_tid example_preload)
      (preload_caller example_preload G) = Some (0, \<lparr>bcd_fd = 9\<rparr>, None, C)"
proof -
  have "acknowledged (preload_caller example_preload G) (length (enc32 77)) []"
    by (simp add: acknowledged_def preload_caller_def example_preload_def ready_selects_def)
  from call_ok [OF this, of BCD_OP_TID] show ?thesis
    by (auto simp: bcd_attach_def example_preload_def)
qed

lemma example_preload_done:
  "\<exists>L. bcd_preload example_preload cf bcd example_process = Some (Preload_done \<lparr>bcd_fd = 9\<rparr>, L) \<and>
    cf_timeout (gl_config (pl_globals L)) = 30"
proof -
  obtain G where G: "bcd_init 5 (pe_init example_preload) (pe_packet example_preload)
      (Some example_preload_config) example_globals = Some (0, G)" "cf_timeout (gl_config G) = 30"
    using example_preload_init by blast
  obtain C where C: "bcd_attach bcd (pe_socket example_preload) (pe_connects example_preload)
      (pe_fcntl example_preload) (pe_tid example_preload) (preload_caller example_preload G) =
      Some (0, \<lparr>bcd_fd = 9\<rparr>, None, C)"
    using example_preload_attach by blast
  have env: "pe_getenv example_preload ''BCD_PRELOAD'' \<noteq> None" "pe_prctl example_preload = None"
      "pe_default_handler example_preload = 5" "\<And>s. pe_sigaction example_preload s"
    by (simp_all add: example_preload_def)
  show ?thesis
    using env G(2)
    by (simp add: bcd_preload_def Let_def bcd_config_init_internal_def example_preload_config
        example_process_def G(1) C bcd_sigaction_all)
qed

text \<open>The process faults twice; the monitor ends without an answer.\<close>

definition example_fault :: fault where
  "example_fault = \<lparr>fa_now = 0, fa_waits = (\<lambda>_. -1)\<rparr>"

definition example_master :: io_env where
  "example_master = \<lparr>rd_events = [], wr_events = [Wr_room 64], sel_events = [], sent = []\<rparr>"

definition example_monitor_pipe :: io_env where
  "example_monitor_pipe = \<lparr>rd_events = [Rd_eof], wr_events = [], sel_events = [], sent = []\<rparr>"

lemma example_fatal:
  assumes "fl_master F = example_master" and "fl_monitor F = example_monitor_pipe"
  shows "fatal_call 30 example_fault F \<noteq> None"
proof -
  let ?p = "packet_bytes BCD_OP_TR_FATAL []"
  have "?p \<noteq> []"
    by (rule packet_bytes_not_Nil)
  then have "\<exists>e m. bcd_sb_write BCD_OP_TR_FATAL [] 30 30 example_master = Some (8, e, m)"
    using fd_write_room [of example_master 64 "[]" ?p 30 30]
    by (simp add: bcd_sb_write_def example_master_def)
  moreover have "packet_length ?p \<noteq> None"
    by code_simp
  then have "\<exists>r. bcd_sb_read ?p 0 30 30 example_monitor_pipe = Some r"
    by (auto simp: bcd_sb_read_def bcd_io_fd_read_def fd_read_loop.simps [of 30] sizeof_packet_def
        example_monitor_pipe_def sb_result_def store_def)
  ultimately show ?thesis
    using assms by (auto simp: fatal_call_def bcd_fatal_def example_fault_def Let_def)
qed

theorem bcd_preload_fault_witness:
  "\<exists>L' F'. bcd_preload example_preload (bcd_config_init_v1 0) \<lparr>bcd_fd = 0\<rparr> example_process =
      Some (Preload_done \<lparr>bcd_fd = 9\<rparr>, L') \<and>
    faults 30 SIGSEGV [example_fault, example_fault]
      \<lparr>fl_handlers = pl_handlers L', fl_master = example_master, fl_monitor = example_monitor_pipe\<rparr> =
      Some (Some (Killed SIGSEGV), F') \<and>
    sent (fl_master F') = packet_bytes BCD_OP_TR_FATAL []"
proof -
  obtain L where L: "bcd_preload example_preload (bcd_config_init_v1 0) \<lparr>bcd_fd = 0\<rparr> example_process =
      Some (Preload_done \<lparr>bcd_fd = 9\<rparr>, L)" "cf_timeout (gl_config (pl_globals L)) = 30"
    using example_preload_done by blast
  let ?F = "\<lparr>fl_handlers = pl_handlers L, fl_master = example_master, fl_monitor = example_monitor_pipe\<rparr>"
  have ok: "pe_sigaction example_preload s" for s
    by (simp add: example_preload_def)
  have room: "wr_events example_master = Wr_room 64 # []" "(8 :: nat) \<le> 64" "sent example_master = []"
    by (simp_all add: example_master_def)
  have "fatal_call (cf_timeout (gl_config (pl_globals L))) example_fault ?F \<noteq> None"
    unfolding L(2) by (rule example_fatal) simp_all
  from bcd_preload_fault [OF L(1) ok refl room(1,2) this, of SIGSEGV example_fault "[]"] show ?thesis
    using L room(3)
    by (simp add: preload_flags_def example_preload_def BCD_SIGACTION_RAISE_def)
qed

end
