(* ===== verification/Spec2Isabelle.thy ===== *)
theory Spec2Isabelle
  imports Bun_Roundtrip Bun_WriteOnce Bun_Signal Example_Remote Example_Poison Bcd_Preload
begin

text \<open>
  A verification development for libbun and the bcd it ships.

  \<^bold>\<open>The program.\<close> libbun unwinds a thread with one of three libraries and writes the frames
  as a stream of bytes into memory the caller owns (\<open>src/\<close>, \<open>include/bun/\<close>). bcd
  (\<open>external/bcd/bcd-amalgamated.c\<close>) is an out-of-process tracer: a process forks a monitor,
  threads connect to it over a UNIX socket, describe themselves with key-value pairs and
  arguments and ask for a trace, and the monitor runs a tracer program. The programs under
  \<open>examples/\<close> join the two: the monitor's request handler calls libbun and leaves the stream in
  memory it shares with the traced process.

  \<^bold>\<open>Conventions.\<close> A C object is a list of bytes (\<open>mem\<close>) and a pointer into it an offset; an
  access outside the object is undefined behaviour, and a function that may have some returns
  an \<open>option\<close>: that its result is \<open>Some\<close> is part of what the theorems say. Integers have
  their width and wrap around. Where a call can wait for ever, \<open>None\<close> also stands for that;
  the theory says so. Errors are values (a result -1, a message, an outcome). The operating
  system and the external libraries (libunwind, libbacktrace, libunwindstack, the demangler,
  crashpad) are arguments: records of functions, or scripts that list what successive calls
  answer. What a theorem relies on of them is a named predicate (\<open>unw_ok\<close>, \<open>bt_ok\<close>, \<open>us_ok\<close>,
  \<open>calm\<close>, \<open>rd_live\<close>, \<open>acknowledged\<close>, \<open>child_ready\<close>), and a witness shows it can hold. The host
  is a 64-bit little-endian Linux.

  \<^bold>\<open>libbun.\<close>

  \<^item> \<open>Prelude\<close>: byte memory, little-endian fields, conversions between widths.
  \<^item> \<open>Bun_Types\<close>: enumerations, records and layout of \<open>bun.h\<close>, \<open>stream.h\<close> and
    \<open>bun_internal.h\<close>.
  \<^item> \<open>Bun_Stream\<close>: \<open>bun_stream.c\<close>, from \<open>bun_buffer_init\<close> to \<open>bun_frame_write\<close> and
    \<open>bun_frame_read\<close>. \<open>Bun_Frame\<close> gives the wire format of a frame and shows that a frame that
    fits is written as exactly its format, and that the size test is two bytes short.
    \<open>Bun_Parse\<close> has a reference parser on byte lists; the reader computes it and never leaves
    the buffer. \<open>Bun_Roundtrip\<close> composes both: frames written are read back, as long as the
    deficit of the recorded size allows (\<open>readable\<close>; at least 13 frames).
  \<^item> \<open>Bun_Registers\<close> and \<open>Bun_Register_Names\<close>: the register block of a frame as a bounded log
    (locale \<open>bounded_log\<close>), and \<open>register_to_string.c\<close>.
  \<^item> \<open>Bun_Print\<close>: \<open>bun_reader_print\<close> ends on every input and, for a stream of written frames,
    reports each frame a reader gets with its symbol, address and registers (\<open>frame_report\<close>;
    the theorem is in \<open>Bun_Roundtrip\<close>); the tool \<open>tools/stream_parser\<close> prints nothing.
  \<^item> \<open>Bun_WriteOnce\<close>: the shared accesses of \<open>bun_writer_init\<close> as a step relation of
    interleaved threads; mutual exclusion for up to \<open>2 ^ 31\<close> of them, and each sequential call
    is one of its schedules.
  \<^item> \<open>Bun_Backend\<close>: what a backend does with its buffer, as the locale \<open>backend\<close>: an entry
    point that writes the frames its library yields hands them to a reader. Its
    interpretations are \<open>Bun_Libunwind\<close>, \<open>Bun_Libbacktrace\<close> and \<open>Bun_Libunwindstack\<close> (twice:
    the unwinder's frames and the loop over a context); \<open>Bun_Handle\<close> has \<open>bun.c\<close> with the
    dispatch over the handle, and the theorems that cover all three: what a reader gets when
    the frames fit the buffer and when one does not. Which registers a frame gets is stated
    over the enumeration of \<open>stream.h\<close> (\<open>arch_registers\<close>): with libunwind those it can tell
    under their own name but \<open>RSP\<close>, \<open>X31\<close> and the ARM \<open>PSTATE\<close>; with libunwindstack all of
    x86-64 and AArch64, while on 32-bit ARM the code reads past the register set (\<open>us_ok\<close>
    leaves that build out).
  \<^item> \<open>Bun_Signal\<close>: \<open>tests/helper/bun_signal.c\<close>, the unwinding from signal handlers: the
    installation, the handlers one after the other, and handlers that overlap as a step
    relation.
  \<^item> \<open>Bun_Utils\<close>: \<open>bun_utils.c\<close>: the anonymous file leaks no descriptor; \<open>bun_waitpid\<close> returns.

  \<^bold>\<open>bcd.\<close>

  \<^item> \<open>Bcd_Config\<close>, \<open>Bcd_Base\<close>: configuration, packets, sessions, the monitor's record.
  \<^item> \<open>Bcd_KV\<close>, \<open>Bcd_Args\<close>: the two lists of the monitor behind one interface (locale
    \<open>tracked_list\<close>), refined to a map and a list.
  \<^item> \<open>Bcd_Argv\<close>, \<open>Bcd_Exec\<close>, \<open>Bcd_Tracer\<close>: the argument vector, the run of the tracer, the
    trace requests; the command line is the configured one, and where the vector overflows.
  \<^item> \<open>Bcd_IO\<close>: reading and writing with interruptions, fragments and timeouts.
  \<^item> \<open>Bcd_Session\<close>, \<open>Bcd_Request\<close>, \<open>Bcd_Handler\<close>, \<open>Bcd_Client_Handler\<close>: a request is received
    over any fragmentation but a pause exactly behind its header, performed, acknowledged;
    invariants of the monitor and of the session; a client's handler touches no event but its
    own.
  \<^item> \<open>Bcd_Events\<close>, \<open>Bcd_Loop\<close>: the queue of ready events (locale \<open>queue_handler\<close>:
    handlers may leave the queue or take out their own entry while it is served, but not
    append; the listener's, which appends when it accepts, is outside this locale and covered
    by the invariant of the loop) and the event loop, with its invariant and a round that
    serves a queue of complete requests.
  \<^item> \<open>Bcd_Client\<close>, \<open>Bcd_System\<close>: the public calls, and client and monitor together; also an
    acknowledgement the socket takes only in part, which is never completed.
  \<^item> \<open>Bcd_OS\<close>, \<open>Bcd_Startup\<close>, \<open>Bcd_Child\<close>: privileges, the OOM score, \<open>bcd_init\<close>, the fork, the
    monitor's life and the handshake between the processes: the path the parent gets is the
    one the watched socket is bound to (\<open>pr_bound\<close>). \<open>Bcd_Preload\<close>: the preloaded
    library and the default signal handlers.

  \<^bold>\<open>The programs\<close> (\<open>examples/\<close>), each from \<open>main\<close> to its crash.

  \<^item> \<open>Example_Bcd\<close>: libbun as bcd's request handler: the shared memory, the handler, the
    configuration. \<open>Example_Crashpad\<close>: crashpad as the programs use it, and the program that
    unwinds in its own signal handler.
  \<^item> \<open>Example_Programs\<close>: \<open>bcd\<close> and \<open>bcd-dumpwithoutcrash\<close>; the path of a report through both
    processes, from \<open>bcd_init\<close> over the monitor's start, the packets of the attachment and of
    the first-chance handler, and the calls of the monitor's handler they lead to, to the
    stream in the memory crashpad will read.
  \<^item> \<open>Example_Remote\<close>: \<open>crashpad-remote\<close>, which loses its callbacks and so reports no frames.
    \<open>Example_Poison\<close>: \<open>bcd-poison\<close> with the allocator of \<open>tests/helper/poison_malloc\<close>.

  \<^bold>\<open>Termination and bounds.\<close> Loops over data are structural or have a measure: readers and
  printers move a cursor in memory (\<open>length m - rw_cursor\<close>), the libunwind loop writes at least
  one byte per frame, loops over the operating system consume its script. \<open>bun_waitpid\<close> is a
  \<open>partial_function (option)\<close>, since it need not end; \<open>waitpid_returns\<close> says when it does. No
  definition has fuel of its own: the round counts of \<open>context_loop\<close> (128) and the frame
  limits 128 and 512 are the code's.

  \<^bold>\<open>Not modelled.\<close> The external libraries and crashpad; freeing of memory, except where a
  descriptor or a handle depends on it; the text of messages printed to the standard streams
  beyond their format in \<open>format_item\<close> and the literals the code stores in error objects; the
  builds for other hosts (the 32-bit layout, \<open>bcd\<close> without \<open>sigtimedwait\<close> or \<open>getpwnam_r\<close>);
  signal delivery in the middle of a function, apart from the flags \<open>bcd_execve\<close> tests,
  the faults of \<open>Bcd_Preload\<close>, the handlers of \<open>Bun_Signal\<close> and those of the programs, which are
  functions of their own; the test cases and their other helpers (\<open>tests/\<close>).
\<close>

end
